(* ===== verification/Vsc_Prelude.thy ===== *)
theory Vsc_Prelude
  imports "HOL-Library.Word"
begin

text \<open>
  Shared vocabulary of the development.

  The drivers are kernel C, so every model needs the same few things: machine words,
  byte buffers with bounds, negative error numbers as return values, and a way to say
  that a step of the program has no defined continuation (a wild access).  They are
  collected here together with the lemmas the component theories use by default:
  \<^item> \<open>fault\<close> and \<open>bindF\<close>: a computation that may hit undefined behaviour;
  \<^item> \<open>load\<close> and \<open>store\<close>: bounds-checked reads and writes of a byte buffer;
  \<^item> \<open>le_bytes\<close> and \<open>word_of_le\<close>: the little-endian layout of the packed structs, with
    both round trips;
  \<^item> the error numbers and the decimal printing the drivers use.
\<close>

unbundle bit_operations_syntax

named_theorems fault_simps "unfolding of the fault-propagating combinators"

section \<open>Machine types\<close>

type_synonym u8 = "8 word"
type_synonym u16 = "16 word"
type_synonym u32 = "32 word"
type_synonym u64 = "64 word"
type_synonym bytes = "u8 list"

section \<open>Error numbers (include/uapi/asm-generic/errno*.h)\<close>

abbreviation ENOENT :: int where "ENOENT \<equiv> 2"
abbreviation EIO :: int where "EIO \<equiv> 5"
abbreviation EAGAIN :: int where "EAGAIN \<equiv> 11"
abbreviation ENOMEM :: int where "ENOMEM \<equiv> 12"
abbreviation EBUSY :: int where "EBUSY \<equiv> 16"
abbreviation ENODEV :: int where "ENODEV \<equiv> 19"
abbreviation EINVAL :: int where "EINVAL \<equiv> 22"
abbreviation ENODATA :: int where "ENODATA \<equiv> 61"
abbreviation ETIME :: int where "ETIME \<equiv> 62"
abbreviation ECONNRESET :: int where "ECONNRESET \<equiv> 104"
abbreviation ESHUTDOWN :: int where "ESHUTDOWN \<equiv> 108"
abbreviation EOPNOTSUPP :: int where "EOPNOTSUPP \<equiv> 95"
abbreviation ETIMEDOUT :: int where "ETIMEDOUT \<equiv> 110"
abbreviation ERESTARTSYS :: int where "ERESTARTSYS \<equiv> 512"
abbreviation ENOTSUPP :: int where "ENOTSUPP \<equiv> 524"

section \<open>Undefined behaviour as a value\<close>

text \<open>
  A C function returns a value and a new state, or it performs an access the language
  gives no meaning to.  The second outcome is \<open>Inl\<close> of a \<open>fault\<close>; no state
  follows it.
\<close>

datatype fault =
    OutOfBounds     \<comment> \<open>an access outside a buffer or array\<close>
  | NullDeref       \<comment> \<open>a dereference of a NULL or error pointer\<close>
  | UseAfterFree    \<comment> \<open>an access through a pointer whose object is gone\<close>
  | UninitRead      \<comment> \<open>a use of a variable that was never assigned\<close>
  | DivideByZero

type_synonym 'a result = "fault + 'a"

definition bindF :: "'a result \<Rightarrow> ('a \<Rightarrow> 'b result) \<Rightarrow> 'b result" where
  "bindF x f = (case x of Inl e \<Rightarrow> Inl e | Inr a \<Rightarrow> f a)"

lemma bindF_Inl [simp, fault_simps]: "bindF (Inl e) f = Inl e"
  by (simp add: bindF_def)

lemma bindF_Inr [simp, fault_simps]: "bindF (Inr a) f = f a"
  by (simp add: bindF_def)

lemma bindF_eq_Inr: "bindF x f = Inr b \<longleftrightarrow> (\<exists>a. x = Inr a \<and> f a = Inr b)"
  by (cases x) auto

lemma bindF_eq_Inl: "bindF x f = Inl e \<longleftrightarrow> x = Inl e \<or> (\<exists>a. x = Inr a \<and> f a = Inl e)"
  by (cases x) auto

lemma bindF_cong [fundef_cong]:
  "x = y \<Longrightarrow> (\<And>a. y = Inr a \<Longrightarrow> f a = g a) \<Longrightarrow> bindF x f = bindF y g"
  by (cases y) auto

text \<open>A pointer that may be NULL, and an \<open>int\<close> variable that may be unassigned.\<close>

definition deref :: "'a option \<Rightarrow> 'a result" where
  "deref p = (case p of None \<Rightarrow> Inl NullDeref | Some a \<Rightarrow> Inr a)"

definition assigned :: "'a option \<Rightarrow> 'a result" where
  "assigned v = (case v of None \<Rightarrow> Inl UninitRead | Some a \<Rightarrow> Inr a)"

lemma deref_simps [simp, fault_simps]: "deref None = Inl NullDeref" "deref (Some a) = Inr a"
  by (simp_all add: deref_def)

lemma assigned_simps [simp, fault_simps]:
  "assigned None = Inl UninitRead" "assigned (Some a) = Inr a"
  by (simp_all add: assigned_def)

lemma deref_eq_Inr [simp]: "deref p = Inr a \<longleftrightarrow> p = Some a"
  by (cases p) auto

lemma assigned_eq_Inr [simp]: "assigned v = Inr a \<longleftrightarrow> v = Some a"
  by (cases v) auto

text \<open>The value returned and the state left, of a computation that may fault.\<close>

definition value_of :: "('a \<times> 's) result \<Rightarrow> 'a result" where
  "value_of x = (case x of Inl e \<Rightarrow> Inl e | Inr (a, s) \<Rightarrow> Inr a)"

definition state_of :: "('s \<Rightarrow> 'b) \<Rightarrow> ('a \<times> 's) result \<Rightarrow> 'b result" where
  "state_of f x = (case x of Inl e \<Rightarrow> Inl e | Inr (a, s) \<Rightarrow> Inr (f s))"

lemma value_of_simps [simp]: "value_of (Inl e) = Inl e" "value_of (Inr (a, s)) = Inr a"
  by (simp_all add: value_of_def)

lemma state_of_simps [simp]: "state_of f (Inl e) = Inl e" "state_of f (Inr (a, s)) = Inr (f s)"
  by (simp_all add: state_of_def)

lemma value_of_Inr: "value_of x = Inr a \<longleftrightarrow> (\<exists>s. x = Inr (a, s))"
  by (auto simp: value_of_def split: sum.splits)

lemma value_of_Inl: "value_of x = Inl e \<longleftrightarrow> x = Inl e"
  by (auto simp: value_of_def split: sum.splits)

section \<open>Byte buffers\<close>

definition load :: "nat \<Rightarrow> nat \<Rightarrow> bytes \<Rightarrow> bytes result" where
  "load off n buf =
     (if off + n \<le> length buf then Inr (take n (drop off buf)) else Inl OutOfBounds)"

definition store :: "nat \<Rightarrow> bytes \<Rightarrow> bytes \<Rightarrow> bytes result" where
  "store off src buf =
     (if off + length src \<le> length buf
      then Inr (take off buf @ src @ drop (off + length src) buf) else Inl OutOfBounds)"

lemma load_eq_Inr:
  "load off n buf = Inr bs \<longleftrightarrow> off + n \<le> length buf \<and> bs = take n (drop off buf)"
  by (auto simp: load_def)

lemma store_eq_Inr:
  "store off src buf = Inr buf' \<longleftrightarrow>
     off + length src \<le> length buf \<and> buf' = take off buf @ src @ drop (off + length src) buf"
  by (auto simp: store_def)

lemma load_length [dest]: "load off n buf = Inr bs \<Longrightarrow> length bs = n"
  by (auto simp: load_def split: if_splits)

lemma store_length: "store off src buf = Inr buf' \<Longrightarrow> length buf' = length buf"
  by (auto simp: store_def split: if_splits)

lemma load_all [simp]: "load 0 (length buf) buf = Inr buf"
  by (simp add: load_def)

lemma load_store_same: "store off src buf = Inr buf' \<Longrightarrow> load off (length src) buf' = Inr src"
  by (auto simp: store_def load_def split: if_splits)

lemma load_append_left: "n \<le> length xs \<Longrightarrow> load 0 n (xs @ ys) = Inr (take n xs)"
  by (simp add: load_def)

section \<open>Little-endian layout\<close>

text \<open>
  The packed structs are laid out by an x86 compiler: a field of \<open>n\<close> bytes is stored
  least significant byte first.
\<close>

definition le_bytes :: "nat \<Rightarrow> 'a::len word \<Rightarrow> bytes" where
  "le_bytes n w = map (\<lambda>i. ucast (drop_bit (8 * i) w)) [0..<n]"

primrec word_of_le :: "bytes \<Rightarrow> 'a::len word" where
  "word_of_le [] = 0"
| "word_of_le (b # bs) = ucast b OR push_bit 8 (word_of_le bs)"

lemma length_le_bytes [simp]: "length (le_bytes n w) = n"
  by (simp add: le_bytes_def)

lemma nth_le_bytes [simp]: "i < n \<Longrightarrow> le_bytes n w ! i = ucast (drop_bit (8 * i) w)"
  by (simp add: le_bytes_def)

lemma bit_word_of_le:
  "bit (word_of_le bs :: 'a::len word) k \<longleftrightarrow>
     k < LENGTH('a) \<and> k div 8 < length bs \<and> bit (bs ! (k div 8)) (k mod 8)"
proof (induction bs arbitrary: k)
  case Nil
  then show ?case by simp
next
  case (Cons b bs)
  show ?case
  proof (cases "k < 8")
    case True
    then show ?thesis by (auto simp: bit_or_iff bit_push_bit_iff bit_ucast_iff)
  next
    case False
    then have "\<not> bit b k" by (simp add: bit_word.rep_eq)
    moreover have "k div 8 = Suc ((k - 8) div 8)" and "(k - 8) mod 8 = k mod 8"
      using False by (simp_all add: le_div_geq le_mod_geq)
    ultimately show ?thesis
      using False Cons.IH [of "k - 8"]
      by (auto simp: bit_or_iff bit_push_bit_iff bit_ucast_iff)
  qed
qed

text \<open>Writing a field and reading it back, and the converse.\<close>

lemma word_of_le_le_bytes:
  assumes "LENGTH('a) \<le> 8 * n"
  shows "word_of_le (le_bytes n w) = (w :: 'a::len word)"
proof (rule bit_word_eqI)
  fix k assume k: "k < LENGTH('a)"
  then have "k div 8 < n" using assms by (simp add: less_mult_imp_div_less)
  then show "bit (word_of_le (le_bytes n w) :: 'a word) k \<longleftrightarrow> bit w k"
    using k by (simp add: bit_word_of_le bit_ucast_iff bit_drop_bit_eq)
qed

lemma le_bytes_word_of_le:
  assumes "length bs = n" and "8 * n \<le> LENGTH('a)"
  shows "le_bytes n (word_of_le bs :: 'a::len word) = bs"
proof (rule nth_equalityI)
  show "length (le_bytes n (word_of_le bs :: 'a word)) = length bs" using assms by simp
next
  fix i assume "i < length (le_bytes n (word_of_le bs :: 'a word))"
  then have i: "i < n" by simp
  show "le_bytes n (word_of_le bs :: 'a word) ! i = bs ! i"
  proof (rule bit_word_eqI)
    fix k assume "k < LENGTH(8)"
    then have k: "k < 8" by simp
    then have "8 * i + k < LENGTH('a)" and "(8 * i + k) div 8 = i" and "(8 * i + k) mod 8 = k"
      using i assms(2) by simp_all
    then show "bit (le_bytes n (word_of_le bs :: 'a word) ! i) k \<longleftrightarrow> bit (bs ! i) k"
      using i k assms(1) by (simp add: bit_ucast_iff bit_drop_bit_eq bit_word_of_le)
  qed
qed

lemma le_bytes_inj:
  fixes v w :: "'a::len word"
  assumes "LENGTH('a) \<le> 8 * n"
  shows "le_bytes n v = le_bytes n w \<longleftrightarrow> v = w"
  using word_of_le_le_bytes [OF assms] by metis

text \<open>Reading a field of a struct out of a buffer.\<close>

definition get_le :: "nat \<Rightarrow> nat \<Rightarrow> bytes \<Rightarrow> 'a::len word result" where
  "get_le off n buf = bindF (load off n buf) (\<lambda>bs. Inr (word_of_le bs))"

definition put_le :: "nat \<Rightarrow> nat \<Rightarrow> 'a::len word \<Rightarrow> bytes \<Rightarrow> bytes result" where
  "put_le off n w buf = store off (le_bytes n w) buf"

lemma put_le_length: "put_le off n w buf = Inr buf' \<Longrightarrow> length buf' = length buf"
  by (simp add: put_le_def store_length)

lemma get_le_put_le:
  fixes w :: "'a::len word"
  assumes "put_le off n w buf = Inr buf'" and "LENGTH('a) \<le> 8 * n"
  shows "get_le off n buf' = Inr w"
  using load_store_same [of off "le_bytes n w" buf buf'] assms
  by (simp add: put_le_def get_le_def word_of_le_le_bytes)

section \<open>Printing\<close>

text \<open>\<open>%u\<close> and \<open>%d\<close> of a non-negative number.\<close>

fun dec :: "nat \<Rightarrow> string" where
  "dec n = (if n < 10 then [char_of (48 + n)] else dec (n div 10) @ [char_of (48 + n mod 10)])"

declare dec.simps [simp del]

lemma dec_nonempty: "dec n \<noteq> []"
  by (subst dec.simps) simp

section \<open>Lists addressed by index\<close>

primrec find_index :: "('a \<Rightarrow> bool) \<Rightarrow> 'a list \<Rightarrow> nat option" where
  "find_index P [] = None"
| "find_index P (x # xs) = (if P x then Some 0 else map_option Suc (find_index P xs))"

lemma find_index_Some:
  "find_index P xs = Some i \<longleftrightarrow> i < length xs \<and> P (xs ! i) \<and> (\<forall>j<i. \<not> P (xs ! j))"
proof (induction xs arbitrary: i)
  case Nil
  then show ?case by simp
next
  case (Cons x xs)
  then show ?case by (cases i) (auto simp: All_less_Suc2 less_Suc_eq_0_disj)
qed

lemma find_index_None: "find_index P xs = None \<longleftrightarrow> (\<forall>x \<in> set xs. \<not> P x)"
  by (induction xs) auto

lemma find_index_append:
  "find_index P (xs @ ys) =
     (case find_index P xs of Some i \<Rightarrow> Some i
      | None \<Rightarrow> map_option ((+) (length xs)) (find_index P ys))"
  by (cases "find_index P ys"; induction xs) (auto split: option.splits)

lemma find_index_map: "find_index P (map f xs) = find_index (P \<circ> f) xs"
  by (induction xs) auto

end
