(* ===== verification/Ljca_Core.thy ===== *)
theory Ljca_Core
  imports Vsc_Prelude
begin

text \<open>
  The message layer of the La Jolla Cove USB adapter, \<^verbatim>\<open>drivers/mfd/ljca.c\<close> up to
  \<open>ljca_start\<close>: stubs, the packet format, the receive path that runs in the URB
  completion handler, and the synchronous \<open>ljca_stub_write\<close> with its acknowledge.

  The USB core is the record \<open>usb_env\<close>: four functions on an abstract host state
  \<open>'w\<close> that say whether an allocation succeeds, what \<open>usb_bulk_msg\<close> returns, which read
  URBs complete while the caller sleeps, and what \<open>usb_submit_urb\<close> returns.  Nothing is
  assumed about them here.

  Buffers the device may write into are objects of an explicit heap, since the driver
  keeps a pointer to the caller's buffer (\<open>ipacket.ibuf\<close>) across a sleep.
\<close>

section \<open>Data\<close>

record ljca_msg =
  msg_type :: u8
  msg_cmd :: u8
  msg_flags :: u8
  msg_len :: u8
  msg_data :: bytes

text \<open>The stub types and the flags.\<close>

abbreviation MNG_STUB :: u8 where "MNG_STUB \<equiv> 1"
abbreviation DIAG_STUB :: u8 where "DIAG_STUB \<equiv> 2"
abbreviation GPIO_STUB :: u8 where "GPIO_STUB \<equiv> 3"
abbreviation I2C_STUB :: u8 where "I2C_STUB \<equiv> 4"
abbreviation SPI_STUB :: u8 where "SPI_STUB \<equiv> 5"

abbreviation ACK_FLAG :: u8 where "ACK_FLAG \<equiv> 1"
abbreviation RESP_FLAG :: u8 where "RESP_FLAG \<equiv> 2"
abbreviation CMPL_FLAG :: u8 where "CMPL_FLAG \<equiv> 4"

abbreviation LJCA_MAX_PACKET_SIZE :: nat where "LJCA_MAX_PACKET_SIZE \<equiv> 64"
abbreviation SIZEOF_LJCA_MSG :: nat where "SIZEOF_LJCA_MSG \<equiv> 4"
abbreviation MAX_PAYLOAD_SIZE :: nat where "MAX_PAYLOAD_SIZE \<equiv> 60"
abbreviation USB_WRITE_ACK_TIMEOUT :: nat where "USB_WRITE_ACK_TIMEOUT \<equiv> 500"
abbreviation USB_ENUM_STUB_TIMEOUT :: nat where "USB_ENUM_STUB_TIMEOUT \<equiv> 20"

text \<open>include/linux/mfd/ljca.h: what a child platform device is told about itself.\<close>

datatype ljca_info =
    Gpio_info nat u64       \<comment> \<open>num, valid_pin_map\<close>
  | I2c_info u8 u8 u8       \<comment> \<open>id, capacity, intr_pin\<close>
  | Spi_info u8 u8          \<comment> \<open>id, capacity\<close>

record ljca_platform_data =
  pd_type :: u8
  pd_info :: ljca_info

record platform_device =
  pdev_id :: nat
  pdev_platdata :: ljca_platform_data

text \<open>The private area behind a stub (\<open>ljca_priv\<close>).\<close>

datatype ljca_priv =
    No_priv
  | Mng_priv u64                              \<comment> \<open>\<open>struct ljca_mng_priv\<close>: reset_id\<close>
  | Pdata_priv "ljca_platform_data list"

text \<open>
  A stub.  \<open>s_ibuf\<close> is the pointer into the heap; \<open>s_notify\<close> and \<open>s_pdev\<close> are the two
  fields of \<open>event_entry\<close>.
\<close>

record ljca_stub =
  s_type :: u8
  s_ibuf :: "nat option"
  s_ibuf_len :: nat
  s_acked :: bool
  s_cur_cmd :: int
  s_notify :: "nat option"
  s_pdev :: "nat option"
  s_priv :: ljca_priv

datatype ljca_state =
    LJCA_STOPPED
  | LJCA_INITED
  | LJCA_RESET_HANDSHAKE
  | LJCA_RESET_SYNCED
  | LJCA_ENUM_GPIO_COMPLETE
  | LJCA_ENUM_I2C_COMPLETE
  | LJCA_ENUM_SPI_COMPLETE
  | LJCA_SUSPEND
  | LJCA_STARTED
  | LJCA_FAILED

text \<open>\<open>ljca_acpi_match_*\<close>: the three static tables a cell may point to.\<close>

datatype acpi_ref = Match_gpio | Match_i2c nat | Match_spi nat

record acpi_matches =
  gpio_pnpid :: "string option"
  i2c_pnpid :: "string option"
  spi_pnpid :: "string option"

record mfd_cell =
  cell_name :: string
  cell_pdata :: ljca_platform_data
  cell_acpi_match :: "acpi_ref option"

text \<open>A completed read URB: its status and the bytes the device put into the buffer.\<close>

record urb =
  urb_status :: int
  urb_bytes :: bytes

text \<open>A call of a registered event callback: function, device, cmd, data, len.\<close>

record event_call =
  ev_fun :: nat
  ev_pdev :: nat
  ev_cmd :: u8
  ev_data :: bytes
  ev_len :: nat

record 'w ljca_dev =
  d_state :: ljca_state
  d_stubs :: "ljca_stub list"
  d_cells :: "mfd_cell list"
  d_acpi :: acpi_matches
  d_ibuf :: bytes                         \<comment> \<open>transfer buffer of \<open>in_urb\<close>\<close>
  d_rx_active :: bool                     \<comment> \<open>\<open>in_urb\<close> is submitted\<close>
  d_mutex :: bool                         \<comment> \<open>\<open>ljca->mutex\<close> is held\<close>
  d_pm :: int                             \<comment> \<open>balance of usb_autopm_get/put\<close>
  d_heap :: "nat \<Rightarrow> bytes option"
  d_next :: nat
  d_events :: "event_call list"           \<comment> \<open>callbacks invoked, oldest first\<close>
  d_sent :: "bytes list"                  \<comment> \<open>packets handed to usb_bulk_msg, oldest first\<close>
  d_env :: 'w

record 'w usb_env =
  usb_alloc :: "'w \<Rightarrow> bool \<times> 'w"
  usb_bulk :: "bytes \<Rightarrow> 'w \<Rightarrow> (int \<times> nat) \<times> 'w"
  usb_recv :: "nat \<Rightarrow> 'w \<Rightarrow> urb list \<times> 'w"
  usb_submit :: "'w \<Rightarrow> int \<times> 'w"
  mfd_add :: "mfd_cell list \<Rightarrow> 'w \<Rightarrow> int \<times> 'w"

section \<open>Helpers on the device state\<close>

definition upd_stub :: "nat \<Rightarrow> (ljca_stub \<Rightarrow> ljca_stub) \<Rightarrow> 'w ljca_dev \<Rightarrow> 'w ljca_dev" where
  "upd_stub i f d = d\<lparr>d_stubs := (d_stubs d)[i := f (d_stubs d ! i)]\<rparr>"

definition kmalloc_ok :: "'w usb_env \<Rightarrow> 'w ljca_dev \<Rightarrow> bool \<times> 'w ljca_dev" where
  "kmalloc_ok E d = (let (ok, w) = usb_alloc E (d_env d) in (ok, d\<lparr>d_env := w\<rparr>))"

definition heap_new :: "bytes \<Rightarrow> 'w ljca_dev \<Rightarrow> nat \<times> 'w ljca_dev" where
  "heap_new bs d =
     (d_next d, d\<lparr>d_heap := (d_heap d)(d_next d := Some bs), d_next := Suc (d_next d)\<rparr>)"

definition heap_free :: "nat \<Rightarrow> 'w ljca_dev \<Rightarrow> 'w ljca_dev" where
  "heap_free b d = d\<lparr>d_heap := (d_heap d)(b := None)\<rparr>"

definition heap_read :: "nat \<Rightarrow> 'w ljca_dev \<Rightarrow> bytes result" where
  "heap_read b d = (case d_heap d b of None \<Rightarrow> Inl UseAfterFree | Some bs \<Rightarrow> Inr bs)"

definition heap_write :: "nat \<Rightarrow> bytes \<Rightarrow> 'w ljca_dev \<Rightarrow> 'w ljca_dev result" where
  "heap_write b src d =
     (case d_heap d b of
        None \<Rightarrow> Inl UseAfterFree
      | Some buf \<Rightarrow> bindF (store 0 src buf) (\<lambda>buf'. Inr (d\<lparr>d_heap := (d_heap d)(b := Some buf')\<rparr>)))"

section \<open>Packets\<close>

text \<open>The four header bytes and the payload, as \<open>struct ljca_msg\<close> lays them out.\<close>

definition msg_bytes :: "ljca_msg \<Rightarrow> bytes" where
  "msg_bytes m = [msg_type m, msg_cmd m, msg_flags m, msg_len m] @ msg_data m"

definition msg_of_bytes :: "bytes \<Rightarrow> ljca_msg result" where
  "msg_of_bytes buf =
     (if length buf < SIZEOF_LJCA_MSG then Inl OutOfBounds
      else Inr \<lparr>msg_type = buf ! 0, msg_cmd = buf ! 1, msg_flags = buf ! 2, msg_len = buf ! 3,
                msg_data = drop SIZEOF_LJCA_MSG buf\<rparr>)"

definition ljca_validate :: "ljca_msg \<Rightarrow> nat \<Rightarrow> bool" where
  "ljca_validate header data_len = (unat (msg_len header) + SIZEOF_LJCA_MSG = data_len)"

text \<open>
  \<open>ljca_dump\<close> prints into a 256-byte array with \<open>scnprintf (tmp + n, sizeof tmp - n - 1, ...)\<close>,
  which stores at most \<open>size - 1\<close> characters; the bytes printed are read whatever the log level.
\<close>

definition hex_digit :: "nat \<Rightarrow> char" where
  "hex_digit n = (if n < 10 then char_of (48 + n) else char_of (87 + n))"

definition hex_byte :: "u8 \<Rightarrow> string" where
  "hex_byte b = [hex_digit (unat b div 16), hex_digit (unat b mod 16), CHR '' '']"

definition scnprintf_byte :: "string \<Rightarrow> u8 \<Rightarrow> string" where
  "scnprintf_byte tmp b =
     (let size = 256 - length tmp - 1 in tmp @ take (size - 1) (hex_byte b))"

definition ljca_dump :: "bytes \<Rightarrow> nat \<Rightarrow> string result" where
  "ljca_dump buf len =
     (if len = 0 then Inr []
      else bindF (load 0 len buf) (\<lambda>bs. Inr (foldl scnprintf_byte [] bs)))"

section \<open>Stubs\<close>

definition new_stub :: "ljca_priv \<Rightarrow> ljca_stub" where
  "new_stub p = \<lparr>s_type = 0, s_ibuf = None, s_ibuf_len = 0, s_acked = False, s_cur_cmd = 0,
                 s_notify = None, s_pdev = None, s_priv = p\<rparr>"

definition ljca_stub_alloc ::
  "'w usb_env \<Rightarrow> ljca_priv \<Rightarrow> 'w ljca_dev \<Rightarrow> (int + nat) \<times> 'w ljca_dev" where
  "ljca_stub_alloc E p d =
     (let (ok, d) = kmalloc_ok E d
      in if \<not> ok then (Inl (- ENOMEM), d)
         else (Inr (length (d_stubs d)), d\<lparr>d_stubs := d_stubs d @ [new_stub p]\<rparr>))"

definition ljca_stub_find :: "'w ljca_dev \<Rightarrow> u8 \<Rightarrow> int + nat" where
  "ljca_stub_find d type =
     (case find_index (\<lambda>s. s_type s = type) (d_stubs d) of
        Some i \<Rightarrow> Inr i | None \<Rightarrow> Inl (- ENODEV))"

definition ljca_stub_notify :: "nat \<Rightarrow> u8 \<Rightarrow> bytes \<Rightarrow> nat \<Rightarrow> 'w ljca_dev \<Rightarrow> 'w ljca_dev" where
  "ljca_stub_notify i cmd evt_data len d =
     (case (s_notify (d_stubs d ! i), s_pdev (d_stubs d ! i)) of
        (Some f, Some p) \<Rightarrow>
          d\<lparr>d_events := d_events d @ [\<lparr>ev_fun = f, ev_pdev = p, ev_cmd = cmd,
                                        ev_data = evt_data, ev_len = len\<rparr>]\<rparr>
      | _ \<Rightarrow> d)"

section \<open>Receive path\<close>

definition ljca_parse :: "ljca_msg \<Rightarrow> 'w ljca_dev \<Rightarrow> (int \<times> 'w ljca_dev) result" where
  "ljca_parse header d =
     (case ljca_stub_find d (msg_type header) of
        Inl e \<Rightarrow> Inr (e, d)
      | Inr i \<Rightarrow>
          if msg_flags header AND ACK_FLAG = 0 then
            Inr (0, ljca_stub_notify i (msg_cmd header) (msg_data header) (unat (msg_len header)) d)
          else if s_cur_cmd (d_stubs d ! i) \<noteq> uint (msg_cmd header) then Inr (- EINVAL, d)
          else
            let d1 = upd_stub i (\<lambda>s. s\<lparr>s_ibuf_len := unat (msg_len header)\<rparr>) d in
            bindF (case s_ibuf (d_stubs d ! i) of
                     None \<Rightarrow> Inr d1
                   | Some b \<Rightarrow> bindF (load 0 (unat (msg_len header)) (msg_data header))
                                     (\<lambda>src. heap_write b src d1))
              (\<lambda>d2. Inr (0, upd_stub i (\<lambda>s. s\<lparr>s_acked := True\<rparr>) d2)))"

definition rx_resubmit :: "'w usb_env \<Rightarrow> 'w ljca_dev \<Rightarrow> 'w ljca_dev" where
  "rx_resubmit E d = (let (ret, w) = usb_submit E (d_env d) in d\<lparr>d_rx_active := (ret = 0), d_env := w\<rparr>)"

definition ljca_read_complete :: "'w usb_env \<Rightarrow> urb \<Rightarrow> 'w ljca_dev \<Rightarrow> 'w ljca_dev result" where
  "ljca_read_complete E u d =
     bindF (store 0 (urb_bytes u) (d_ibuf d)) (\<lambda>buf.
     let d = d\<lparr>d_ibuf := buf, d_rx_active := False\<rparr> in
     if urb_status u \<noteq> 0 then
       (if urb_status u = - ENOENT \<or> urb_status u = - ECONNRESET \<or> urb_status u = - ESHUTDOWN
        then Inr d else Inr (rx_resubmit E d))
     else
       bindF (msg_of_bytes buf) (\<lambda>header.
       bindF (ljca_dump (msg_data header) (unat (msg_len header))) (\<lambda>_.
       if \<not> ljca_validate header (length (urb_bytes u)) then Inr (rx_resubmit E d)
       else bindF (ljca_parse header d) (\<lambda>(ret, d). Inr (rx_resubmit E d)))))"

text \<open>The URBs that complete while a writer sleeps, in order, as long as the URB is submitted.\<close>

fun ljca_rx_run :: "'w usb_env \<Rightarrow> urb list \<Rightarrow> 'w ljca_dev \<Rightarrow> 'w ljca_dev result" where
  "ljca_rx_run E [] d = Inr d"
| "ljca_rx_run E (u # us) d =
     (if d_rx_active d then bindF (ljca_read_complete E u d) (ljca_rx_run E us) else Inr d)"

definition ljca_start :: "'w usb_env \<Rightarrow> 'w ljca_dev \<Rightarrow> int \<times> 'w ljca_dev" where
  "ljca_start E d =
     (let (ret, w) = usb_submit E (d_env d) in (ret, d\<lparr>d_rx_active := (ret = 0), d_env := w\<rparr>))"

section \<open>Send path\<close>

text \<open>
  \<open>obuf\<close> is the payload (\<open>[]\<close> for a NULL pointer with length 0), \<open>ibuf\<close> the reply buffer,
  \<open>want\<close> says whether an \<open>int *ibuf_len\<close> is passed.  The result holds the return code and
  the value stored through \<open>ibuf_len\<close>, \<open>None\<close> where the function leaves it alone.
\<close>

definition stub_write_header :: "nat \<Rightarrow> u8 \<Rightarrow> bytes \<Rightarrow> bool \<Rightarrow> 'w ljca_dev \<Rightarrow> ljca_msg" where
  "stub_write_header i cmd obuf wait_ack d =
     \<lparr>msg_type = s_type (d_stubs d ! i), msg_cmd = cmd,
      msg_flags = (if wait_ack then CMPL_FLAG OR ACK_FLAG else CMPL_FLAG),
      msg_len = of_nat (length obuf), msg_data = obuf\<rparr>"

definition stub_write_unlock :: "'w ljca_dev \<Rightarrow> 'w ljca_dev" where
  "stub_write_unlock d = d\<lparr>d_pm := d_pm d - 1, d_mutex := False\<rparr>"

text \<open>\<open>stub->ipacket.ibuf_len = 0\<close> and the allocation of the packet.\<close>

definition stub_write_begin :: "'w usb_env \<Rightarrow> nat \<Rightarrow> 'w ljca_dev \<Rightarrow> bool \<times> 'w ljca_dev" where
  "stub_write_begin E i d = kmalloc_ok E (upd_stub i (\<lambda>s. s\<lparr>s_ibuf_len := 0\<rparr>) d)"

text \<open>From \<open>mutex_lock\<close> to the return of \<open>usb_bulk_msg\<close>.\<close>

definition stub_write_send ::
  "'w usb_env \<Rightarrow> nat \<Rightarrow> ljca_msg \<Rightarrow> nat option \<Rightarrow> 'w ljca_dev \<Rightarrow> (int \<times> nat) \<times> 'w ljca_dev" where
  "stub_write_send E i header ibuf d =
     (let d = upd_stub i
                (\<lambda>s. s\<lparr>s_cur_cmd := uint (msg_cmd header), s_ibuf := ibuf, s_acked := False\<rparr>)
                (d\<lparr>d_mutex := True\<rparr>);
          (ra, w) = usb_bulk E (msg_bytes header) (d_env d)
      in (ra, d\<lparr>d_pm := d_pm d + 1, d_sent := d_sent d @ [msg_bytes header], d_env := w\<rparr>))"

text \<open>After a complete write and, if asked for, the acknowledge.\<close>

definition stub_write_finish ::
  "nat \<Rightarrow> bool \<Rightarrow> 'w ljca_dev \<Rightarrow> (int \<times> nat option) \<times> 'w ljca_dev" where
  "stub_write_finish i want d =
     ((0, if want then Some (s_ibuf_len (d_stubs d ! i)) else None),
      stub_write_unlock (upd_stub i (\<lambda>s. s\<lparr>s_ibuf := None, s_ibuf_len := 0\<rparr>) d))"

text \<open>\<open>wait_event_timeout\<close>: URBs complete; then the flag is set, or the time is over.\<close>

definition stub_write_wait ::
  "'w usb_env \<Rightarrow> nat \<Rightarrow> bool \<Rightarrow> nat \<Rightarrow> 'w ljca_dev \<Rightarrow> ((int \<times> nat option) \<times> 'w ljca_dev) result" where
  "stub_write_wait E i want timeout d =
     (let (us, w) = usb_recv E timeout (d_env d) in
      bindF (ljca_rx_run E us (d\<lparr>d_env := w\<rparr>)) (\<lambda>d.
      if \<not> s_acked (d_stubs d ! i) then Inr ((- ETIMEDOUT, None), stub_write_unlock d)
      else Inr (stub_write_finish i want d)))"

definition ljca_stub_write ::
  "'w usb_env \<Rightarrow> nat \<Rightarrow> u8 \<Rightarrow> bytes \<Rightarrow> nat option \<Rightarrow> bool \<Rightarrow> bool \<Rightarrow> nat \<Rightarrow> 'w ljca_dev
   \<Rightarrow> ((int \<times> nat option) \<times> 'w ljca_dev) result" where
  "ljca_stub_write E i cmd obuf ibuf want wait_ack timeout d =
     (if d_state d = LJCA_STOPPED then Inr ((- ENODEV, None), d)
      else if length obuf > MAX_PAYLOAD_SIZE then Inr ((- EINVAL, None), d)
      else
        let (ok, d) = stub_write_begin E i d in
        if \<not> ok then Inr ((- ENOMEM, None), d)
        else
          let header = stub_write_header i cmd obuf wait_ack d in
          bindF (ljca_dump (msg_data header) (unat (msg_len header))) (\<lambda>_.
          let ((ret, actual), d) = stub_write_send E i header ibuf d in
          if ret \<noteq> 0 \<or> actual \<noteq> SIZEOF_LJCA_MSG + length obuf
          then Inr ((ret, None), stub_write_unlock d)
          else if wait_ack then stub_write_wait E i want timeout d
          else Inr (stub_write_finish i want d)))"

definition ljca_transfer_internal ::
  "'w usb_env \<Rightarrow> platform_device option \<Rightarrow> u8 \<Rightarrow> bytes \<Rightarrow> nat option \<Rightarrow> bool \<Rightarrow> bool \<Rightarrow> 'w ljca_dev
   \<Rightarrow> ((int \<times> nat option) \<times> 'w ljca_dev) result" where
  "ljca_transfer_internal E pdev cmd obuf ibuf want wait_ack d =
     (case pdev of
        None \<Rightarrow> Inr ((- EINVAL, None), d)
      | Some p \<Rightarrow>
          (case ljca_stub_find d (pd_type (pdev_platdata p)) of
             Inl e \<Rightarrow> Inr ((e, None), d)
           | Inr i \<Rightarrow> ljca_stub_write E i cmd obuf ibuf want wait_ack USB_WRITE_ACK_TIMEOUT d))"

definition ljca_transfer ::
  "'w usb_env \<Rightarrow> platform_device option \<Rightarrow> u8 \<Rightarrow> bytes \<Rightarrow> nat option \<Rightarrow> bool \<Rightarrow> 'w ljca_dev
   \<Rightarrow> ((int \<times> nat option) \<times> 'w ljca_dev) result" where
  "ljca_transfer E pdev cmd obuf ibuf want d =
     ljca_transfer_internal E pdev cmd obuf ibuf want True d"

definition ljca_transfer_noack ::
  "'w usb_env \<Rightarrow> platform_device option \<Rightarrow> u8 \<Rightarrow> bytes \<Rightarrow> 'w ljca_dev
   \<Rightarrow> ((int \<times> nat option) \<times> 'w ljca_dev) result" where
  "ljca_transfer_noack E pdev cmd obuf d =
     ljca_transfer_internal E pdev cmd obuf None False False d"

definition ljca_register_event_cb ::
  "platform_device option \<Rightarrow> nat \<Rightarrow> 'w ljca_dev \<Rightarrow> int \<times> 'w ljca_dev" where
  "ljca_register_event_cb pdev event_cb d =
     (case pdev of
        None \<Rightarrow> (- EINVAL, d)
      | Some p \<Rightarrow>
          (case ljca_stub_find d (pd_type (pdev_platdata p)) of
             Inl e \<Rightarrow> (e, d)
           | Inr i \<Rightarrow> (0, upd_stub i (\<lambda>s. s\<lparr>s_notify := Some event_cb, s_pdev := Some (pdev_id p)\<rparr>) d)))"

definition ljca_unregister_event_cb :: "platform_device \<Rightarrow> 'w ljca_dev \<Rightarrow> 'w ljca_dev" where
  "ljca_unregister_event_cb p d =
     (case ljca_stub_find d (pd_type (pdev_platdata p)) of
        Inl e \<Rightarrow> d
      | Inr i \<Rightarrow> upd_stub i (\<lambda>s. s\<lparr>s_notify := None, s_pdev := None\<rparr>) d)"

definition ljca_stub_cleanup :: "'w ljca_dev \<Rightarrow> 'w ljca_dev" where
  "ljca_stub_cleanup d = d\<lparr>d_stubs := []\<rparr>"

section \<open>A scripted host\<close>

text \<open>
  A concrete host on which the properties are exercised: allocations succeed, writes are
  complete, and each sleep of a writer receives the next batch of URBs of a script.
\<close>

definition scripted_usb :: "urb list list usb_env" where
  "scripted_usb =
     \<lparr>usb_alloc = (\<lambda>w. (True, w)), usb_bulk = (\<lambda>pkt w. ((0, length pkt), w)),
      usb_recv = (\<lambda>t w. (case w of [] \<Rightarrow> ([], []) | us # w \<Rightarrow> (us, w))),
      usb_submit = (\<lambda>w. (0, w)), mfd_add = (\<lambda>cs w. (0, w))\<rparr>"

definition blank_dev :: "'w \<Rightarrow> 'w ljca_dev" where
  "blank_dev w =
     \<lparr>d_state = LJCA_INITED, d_stubs = [], d_cells = [],
      d_acpi = \<lparr>gpio_pnpid = None, i2c_pnpid = None, spi_pnpid = None\<rparr>,
      d_ibuf = replicate 64 0, d_rx_active = True, d_mutex = False, d_pm = 0,
      d_heap = (\<lambda>b. None), d_next = 0, d_events = [], d_sent = [], d_env = w\<rparr>"

definition urb_of :: "ljca_msg \<Rightarrow> urb" where
  "urb_of m = \<lparr>urb_status = 0, urb_bytes = msg_bytes m\<rparr>"

end
