(* ===== verification/Ljca_Bus.thy ===== *)
theory Ljca_Bus
  imports Vsc_Prelude
begin

text \<open>
  The interface between the adapter core and its child drivers (GPIO, I2C, SPI).

  A child calls \<open>ljca_transfer\<close> on its own platform device and then looks into its reply
  buffer.  The locale states what the core promises about that call: commands that do not
  fit a packet are refused and change nothing, the reply length is delivered on success only
  and never exceeds the buffer, live buffers stay live with their size, and every successful
  call has put exactly one command with its payload on the wire.
\<close>

abbreviation LJCA_MAX_PAYLOAD :: nat where "LJCA_MAX_PAYLOAD \<equiv> 60"

locale ljca_bus =
  fixes xfer :: "u8 \<Rightarrow> bytes \<Rightarrow> nat option \<Rightarrow> bool \<Rightarrow> 's \<Rightarrow> ((int \<times> nat option) \<times> 's) result"
    and rd :: "nat \<Rightarrow> 's \<Rightarrow> bytes result"
    and sent :: "'s \<Rightarrow> (u8 \<times> bytes) list"
  assumes xfer_too_long:
      "LJCA_MAX_PAYLOAD < length obuf \<Longrightarrow> \<exists>r. xfer cmd obuf ib want s = Inr ((r, None), s) \<and> r < 0"
    and xfer_len_cases:
      "xfer cmd obuf ib want s = Inr ((r, l), s') \<Longrightarrow> l \<noteq> None \<Longrightarrow> r = 0 \<and> want"
    and xfer_buffers:
      "xfer cmd obuf ib want s = Inr (x, s') \<Longrightarrow> rd b s = Inr bs \<Longrightarrow>
       \<exists>bs'. rd b s' = Inr bs' \<and> length bs' = length bs"
    and xfer_reply_bound:
      "xfer cmd obuf (Some b) want s = Inr ((r, Some n), s') \<Longrightarrow> rd b s = Inr bs \<Longrightarrow> n \<le> length bs"
    and xfer_sent:
      "xfer cmd obuf ib want s = Inr ((0, l), s') \<Longrightarrow> sent s' = sent s @ [(cmd, obuf)]"
    and xfer_sent_any:
      "xfer cmd obuf ib want s = Inr (x, s') \<Longrightarrow> sent s' = sent s \<or> sent s' = sent s @ [(cmd, obuf)]"
begin

lemma xfer_fits:
  assumes "xfer cmd obuf ib want s = Inr ((0, l), s')"
  shows "length obuf \<le> LJCA_MAX_PAYLOAD"
proof (rule ccontr)
  assume "\<not> length obuf \<le> LJCA_MAX_PAYLOAD"
  then obtain r where "xfer cmd obuf ib want s = Inr ((r, None), s)" and "r < 0"
    using xfer_too_long [of obuf cmd ib want s] by auto
  with assms show False by simp
qed

lemma xfer_error_len:
  assumes "xfer cmd obuf ib want s = Inr ((r, l), s')" and "r \<noteq> 0"
  shows "l = None"
  using xfer_len_cases [OF assms(1)] assms(2) by blast

end

end
