(* ===== verification/Ljca_Core_Laws.thy ===== *)
theory Ljca_Core_Laws
  imports Ljca_Core Ljca_Bus
begin

text \<open>
  What the message layer guarantees: the packet codec, the frame of the receive path, the
  outcomes of \<open>ljca_stub_write\<close>, and the interpretation of \<open>ljca_bus\<close> that the child
  drivers rest on.
\<close>

section \<open>Small facts\<close>

named_theorems ljca_upd "projections of the state updates"

lemma upd_stub_fields [simp, ljca_upd]:
  "d_state (upd_stub i f d) = d_state d" "d_cells (upd_stub i f d) = d_cells d"
  "d_acpi (upd_stub i f d) = d_acpi d" "d_ibuf (upd_stub i f d) = d_ibuf d"
  "d_rx_active (upd_stub i f d) = d_rx_active d" "d_mutex (upd_stub i f d) = d_mutex d"
  "d_pm (upd_stub i f d) = d_pm d" "d_heap (upd_stub i f d) = d_heap d"
  "d_next (upd_stub i f d) = d_next d" "d_events (upd_stub i f d) = d_events d"
  "d_sent (upd_stub i f d) = d_sent d" "d_env (upd_stub i f d) = d_env d"
  "length (d_stubs (upd_stub i f d)) = length (d_stubs d)"
  by (simp_all add: upd_stub_def)

lemma upd_stub_nth [simp, ljca_upd]:
  "j < length (d_stubs d) \<Longrightarrow>
   d_stubs (upd_stub i f d) ! j = (if j = i then f (d_stubs d ! i) else d_stubs d ! j)"
  by (auto simp: upd_stub_def)

lemma ljca_stub_find_Inr:
  "ljca_stub_find d t = Inr i \<longleftrightarrow>
     i < length (d_stubs d) \<and> s_type (d_stubs d ! i) = t \<and> (\<forall>j<i. s_type (d_stubs d ! j) \<noteq> t)"
  using find_index_Some [of "\<lambda>s. s_type s = t" "d_stubs d" i]
  by (cases "find_index (\<lambda>s. s_type s = t) (d_stubs d)") (auto simp: ljca_stub_find_def)

lemma ljca_stub_find_Inl:
  "ljca_stub_find d t = Inl e \<longleftrightarrow> e = - ENODEV \<and> t \<notin> s_type ` set (d_stubs d)"
  using find_index_None [of "\<lambda>s. s_type s = t" "d_stubs d"]
  by (cases "find_index (\<lambda>s. s_type s = t) (d_stubs d)") (auto simp: ljca_stub_find_def)

text \<open>Finding a stub depends on the types only.\<close>

lemma ljca_stub_find_types:
  "map s_type (d_stubs d') = map s_type (d_stubs d) \<Longrightarrow> ljca_stub_find d' t = ljca_stub_find d t"
  unfolding ljca_stub_find_def
  using find_index_map [of "\<lambda>x. x = t" s_type "d_stubs d"]
    find_index_map [of "\<lambda>x. x = t" s_type "d_stubs d'"]
  by (simp add: comp_def)

section \<open>Packets\<close>

lemma msg_of_bytes_eq_Inr:
  "msg_of_bytes buf = Inr m \<longleftrightarrow> SIZEOF_LJCA_MSG \<le> length buf \<and>
     m = \<lparr>msg_type = buf ! 0, msg_cmd = buf ! 1, msg_flags = buf ! 2, msg_len = buf ! 3,
          msg_data = drop SIZEOF_LJCA_MSG buf\<rparr>"
  by (auto simp: msg_of_bytes_def)

lemma length_msg_bytes [simp]: "length (msg_bytes m) = SIZEOF_LJCA_MSG + length (msg_data m)"
  by (simp add: msg_bytes_def)

lemma msg_of_bytes_append:
  "msg_of_bytes (msg_bytes m @ rest) = Inr (m\<lparr>msg_data := msg_data m @ rest\<rparr>)"
  by (simp add: msg_of_bytes_def msg_bytes_def)



section \<open>The receive path\<close>

text \<open>
  What a received packet can change at all: reply bytes, reply lengths and acknowledge bits of
  stubs, the contents (never the size) of live buffers, the event log and the URB itself.
\<close>

definition stub_key :: "ljca_stub \<Rightarrow> u8 \<times> nat option \<times> int \<times> nat option \<times> nat option \<times> ljca_priv" where
  "stub_key s = (s_type s, s_ibuf s, s_cur_cmd s, s_notify s, s_pdev s, s_priv s)"

definition heap_sizes :: "'w ljca_dev \<Rightarrow> nat \<Rightarrow> nat option" where
  "heap_sizes d = (\<lambda>b. map_option length (d_heap d b))"

definition rx_frame :: "'w ljca_dev \<Rightarrow> 'w ljca_dev \<Rightarrow> bool" where
  "rx_frame d d' \<longleftrightarrow>
     d_state d' = d_state d \<and> d_cells d' = d_cells d \<and> d_acpi d' = d_acpi d \<and>
     d_mutex d' = d_mutex d \<and> d_pm d' = d_pm d \<and> d_next d' = d_next d \<and> d_sent d' = d_sent d \<and>
     length (d_ibuf d') = length (d_ibuf d) \<and>
     map stub_key (d_stubs d') = map stub_key (d_stubs d) \<and> heap_sizes d' = heap_sizes d"

lemma rx_frame_refl [simp, intro]: "rx_frame d d"
  by (simp add: rx_frame_def)

lemma rx_frame_trans [trans]: "rx_frame d d' \<Longrightarrow> rx_frame d' d'' \<Longrightarrow> rx_frame d d''"
  by (simp add: rx_frame_def)

lemma rx_frame_types: "rx_frame d d' \<Longrightarrow> map s_type (d_stubs d') = map s_type (d_stubs d)"
  by (auto simp: rx_frame_def stub_key_def list_eq_iff_nth_eq)

lemma rx_frame_length: "rx_frame d d' \<Longrightarrow> length (d_stubs d') = length (d_stubs d)"
  unfolding rx_frame_def by (auto dest: map_eq_imp_length_eq)

lemma rx_frame_nth:
  assumes "rx_frame d d'" and "i < length (d_stubs d)"
  shows "stub_key (d_stubs d' ! i) = stub_key (d_stubs d ! i)"
  using assms rx_frame_length [OF assms(1)] unfolding rx_frame_def by (metis nth_map)

lemma upd_stub_map_key:
  assumes "\<And>s. key (f s) = key s"
  shows "map key (d_stubs (upd_stub i f d)) = map key (d_stubs d)"
proof (cases "i < length (d_stubs d)")
  case True
  then show ?thesis
    by (intro nth_equalityI) (auto simp: upd_stub_def nth_list_update assms)
next
  case False
  then show ?thesis by (simp add: upd_stub_def list_update_beyond)
qed

lemma heap_write_frame: "heap_write b src d = Inr d' \<Longrightarrow> rx_frame d d' \<and> d_stubs d' = d_stubs d"
  by (auto simp: heap_write_def rx_frame_def heap_sizes_def bindF_eq_Inr fun_eq_iff store_length
      split: option.splits)

lemma rx_frame_upd_stub:
  "rx_frame d d' \<Longrightarrow> (\<And>s. stub_key (f s) = stub_key s) \<Longrightarrow> rx_frame d (upd_stub i f d')"
  by (simp add: rx_frame_def upd_stub_map_key heap_sizes_def)

lemma rx_frame_notify: "rx_frame d (ljca_stub_notify i cmd data n d)"
  by (simp add: ljca_stub_notify_def rx_frame_def heap_sizes_def split: option.splits)

lemma rx_frame_resubmit: "rx_frame d d' \<Longrightarrow> rx_frame d (rx_resubmit E d')"
  by (simp add: rx_resubmit_def rx_frame_def heap_sizes_def split: prod.splits)

lemma rx_frame_buffer:
  "length buf = length (d_ibuf d) \<Longrightarrow> rx_frame d (d\<lparr>d_ibuf := buf, d_rx_active := a\<rparr>)"
  by (simp add: rx_frame_def heap_sizes_def)

lemma ljca_parse_frame:
  assumes "ljca_parse h d = Inr (r, d')"
  shows "rx_frame d d'"
proof (cases "ljca_stub_find d (msg_type h)")
  case (Inl e)
  then show ?thesis using assms by (simp add: ljca_parse_def)
next
  case (Inr i)
  let ?d1 = "upd_stub i (\<lambda>s. s\<lparr>s_ibuf_len := unat (msg_len h)\<rparr>) d"
  have d1: "rx_frame d ?d1" by (rule rx_frame_upd_stub) (simp_all add: stub_key_def)
  have acked: "rx_frame d (upd_stub i (\<lambda>s. s\<lparr>s_acked := True\<rparr>) d2)" if "rx_frame ?d1 d2" for d2
    by (rule rx_frame_upd_stub [OF rx_frame_trans [OF d1 that]]) (simp add: stub_key_def)
  show ?thesis
    using assms Inr
    by (auto simp: ljca_parse_def Let_def bindF_eq_Inr rx_frame_notify
        intro!: acked dest!: heap_write_frame split: if_splits option.splits)
qed

lemma ljca_read_complete_frame:
  assumes "ljca_read_complete E u d = Inr d'"
  shows "rx_frame d d'"
proof -
  obtain buf where "store 0 (urb_bytes u) (d_ibuf d) = Inr buf"
    using assms by (auto simp: ljca_read_complete_def bindF_eq_Inr)
  then have d1: "rx_frame d (d\<lparr>d_ibuf := buf, d_rx_active := False\<rparr>)" (is "rx_frame d ?d1")
    by (intro rx_frame_buffer) (rule store_length)
  have parsed: "rx_frame d d2" if "ljca_parse h ?d1 = Inr (r, d2)" for h r d2
    using rx_frame_trans [OF d1 ljca_parse_frame [OF that]] .
  show ?thesis
    using assms \<open>store 0 (urb_bytes u) (d_ibuf d) = Inr buf\<close> d1
    by (auto simp: ljca_read_complete_def bindF_eq_Inr Let_def
        intro!: rx_frame_resubmit dest!: parsed split: if_splits)
qed

lemma ljca_rx_run_frame: "ljca_rx_run E us d = Inr d' \<Longrightarrow> rx_frame d d'"
proof (induction us arbitrary: d)
  case Nil
  then show ?case by simp
next
  case (Cons u us)
  then show ?case
    by (auto simp: bindF_eq_Inr split: if_splits
        intro: rx_frame_trans [OF ljca_read_complete_frame])
qed

section \<open>Replies fit their buffer\<close>

definition reply_fits :: "nat \<Rightarrow> 'w ljca_dev \<Rightarrow> bool" where
  "reply_fits i d \<longleftrightarrow>
     (\<forall>b. s_ibuf (d_stubs d ! i) = Some b \<longrightarrow>
        s_ibuf_len (d_stubs d ! i) \<le> (case heap_sizes d b of None \<Rightarrow> 0 | Some n \<Rightarrow> n))"

lemma ljca_parse_fits:
  assumes "ljca_parse h d = Inr (r, d')" and "reply_fits i d" and "i < length (d_stubs d)"
  shows "reply_fits i d'"
proof (cases "ljca_stub_find d (msg_type h)")
  case (Inl e)
  then show ?thesis using assms by (simp add: ljca_parse_def)
next
  case (Inr j)
  then have j: "j < length (d_stubs d)" by (simp add: ljca_stub_find_Inr)
  show ?thesis
    using assms Inr j
    by (auto simp: ljca_parse_def Let_def bindF_eq_Inr reply_fits_def heap_write_def heap_sizes_def
        store_eq_Inr load_eq_Inr ljca_stub_notify_def  split: if_splits option.splits)
qed

lemma rx_resubmit_fields [simp]:
  "d_stubs (rx_resubmit E d) = d_stubs d" "d_heap (rx_resubmit E d) = d_heap d"
  by (simp_all add: rx_resubmit_def split: prod.splits)

lemma reply_fits_upd [simp]:
  "reply_fits i (rx_resubmit E d) = reply_fits i d"
  "reply_fits i (d\<lparr>d_ibuf := buf, d_rx_active := a\<rparr>) = reply_fits i d"
  "reply_fits i (d\<lparr>d_env := w\<rparr>) = reply_fits i d"
  by (simp_all add: reply_fits_def heap_sizes_def)

lemma ljca_read_complete_fits:
  assumes "ljca_read_complete E u d = Inr d'" and "reply_fits i d" and "i < length (d_stubs d)"
  shows "reply_fits i d'"
proof -
  have parsed: "reply_fits i d2"
    if "ljca_parse h (d\<lparr>d_ibuf := buf, d_rx_active := a\<rparr>) = Inr (r, d2)" for h r d2 buf a
    using ljca_parse_fits [OF that, of i] assms(2,3) by simp
  show ?thesis
    using assms parsed
    by (auto simp: ljca_read_complete_def bindF_eq_Inr Let_def split: if_splits)
qed

lemma ljca_rx_run_fits:
  "ljca_rx_run E us d = Inr d' \<Longrightarrow> reply_fits i d \<Longrightarrow> i < length (d_stubs d) \<Longrightarrow> reply_fits i d'"
proof (induction us arbitrary: d)
  case Nil
  then show ?case by simp
next
  case (Cons u us)
  have "reply_fits i d1 \<and> i < length (d_stubs d1)" if "ljca_read_complete E u d = Inr d1" for d1
    using ljca_read_complete_fits [OF that Cons.prems(2,3)]
      rx_frame_length [OF ljca_read_complete_frame [OF that]] Cons.prems(3) by simp
  then show ?case
    using Cons.IH Cons.prems by (auto simp: bindF_eq_Inr split: if_splits)
qed

section \<open>Outcomes of a write\<close>

lemma ljca_dump_payload:
  assumes "length obuf \<le> MAX_PAYLOAD_SIZE"
  shows "\<exists>t. ljca_dump obuf (unat (of_nat (length obuf) :: u8)) = Inr t"
proof -
  have "unat (of_nat (length obuf) :: u8) = length obuf"
    using assms by (simp add: unat_of_nat)
  then show ?thesis by (simp add: ljca_dump_def)
qed

lemma stub_write_header_simps [simp]:
  "msg_cmd (stub_write_header i cmd obuf a d) = cmd"
  "msg_data (stub_write_header i cmd obuf a d) = obuf"
  "msg_len (stub_write_header i cmd obuf a d) = of_nat (length obuf)"
  by (simp_all add: stub_write_header_def)

text \<open>Every way a write can end, with the intermediate states.\<close>

lemma ljca_stub_write_cases [consumes 1, case_names stopped too_long no_memory not_written timed_out acked sent]:
  assumes "ljca_stub_write E i cmd obuf ibuf want wait_ack t d = Inr ((r, l), d')"
  obtains
    "d_state d = LJCA_STOPPED" "r = - ENODEV" "l = None" "d' = d"
  | "d_state d \<noteq> LJCA_STOPPED" "MAX_PAYLOAD_SIZE < length obuf" "r = - EINVAL" "l = None" "d' = d"
  | d1 where "d_state d \<noteq> LJCA_STOPPED" "length obuf \<le> MAX_PAYLOAD_SIZE"
      "stub_write_begin E i d = (False, d1)" "r = - ENOMEM" "l = None" "d' = d1"
  | d1 n d2 where "d_state d \<noteq> LJCA_STOPPED" "length obuf \<le> MAX_PAYLOAD_SIZE"
      "stub_write_begin E i d = (True, d1)"
      "stub_write_send E i (stub_write_header i cmd obuf wait_ack d1) ibuf d1 = ((r, n), d2)"
      "r \<noteq> 0 \<or> n \<noteq> SIZEOF_LJCA_MSG + length obuf" "l = None" "d' = stub_write_unlock d2"
  | d1 d2 us w d3 where "d_state d \<noteq> LJCA_STOPPED" "length obuf \<le> MAX_PAYLOAD_SIZE"
      "stub_write_begin E i d = (True, d1)" "wait_ack"
      "stub_write_send E i (stub_write_header i cmd obuf wait_ack d1) ibuf d1 =
         ((0, SIZEOF_LJCA_MSG + length obuf), d2)"
      "usb_recv E t (d_env d2) = (us, w)" "ljca_rx_run E us (d2\<lparr>d_env := w\<rparr>) = Inr d3"
      "\<not> s_acked (d_stubs d3 ! i)" "r = - ETIMEDOUT" "l = None" "d' = stub_write_unlock d3"
  | d1 d2 us w d3 where "d_state d \<noteq> LJCA_STOPPED" "length obuf \<le> MAX_PAYLOAD_SIZE"
      "stub_write_begin E i d = (True, d1)" "wait_ack"
      "stub_write_send E i (stub_write_header i cmd obuf wait_ack d1) ibuf d1 =
         ((0, SIZEOF_LJCA_MSG + length obuf), d2)"
      "usb_recv E t (d_env d2) = (us, w)" "ljca_rx_run E us (d2\<lparr>d_env := w\<rparr>) = Inr d3"
      "s_acked (d_stubs d3 ! i)" "((r, l), d') = stub_write_finish i want d3"
  | d1 d2 where "d_state d \<noteq> LJCA_STOPPED" "length obuf \<le> MAX_PAYLOAD_SIZE"
      "stub_write_begin E i d = (True, d1)" "\<not> wait_ack"
      "stub_write_send E i (stub_write_header i cmd obuf wait_ack d1) ibuf d1 =
         ((0, SIZEOF_LJCA_MSG + length obuf), d2)"
      "((r, l), d') = stub_write_finish i want d2"
  using assms
  by (auto simp: ljca_stub_write_def stub_write_wait_def Let_def bindF_eq_Inr stub_write_finish_def
      split: if_splits prod.splits)

text \<open>The frame of a synchronous operation on the adapter, the packets it sends aside.\<close>

definition op_frame :: "'w ljca_dev \<Rightarrow> 'w ljca_dev \<Rightarrow> bool" where
  "op_frame d d' \<longleftrightarrow>
     d_state d' = d_state d \<and> d_cells d' = d_cells d \<and> d_acpi d' = d_acpi d \<and>
     d_pm d' = d_pm d \<and> d_next d' = d_next d \<and> length (d_ibuf d') = length (d_ibuf d) \<and>
     map s_type (d_stubs d') = map s_type (d_stubs d) \<and>
     map s_priv (d_stubs d') = map s_priv (d_stubs d) \<and>
     heap_sizes d' = heap_sizes d \<and> (\<not> d_mutex d \<longrightarrow> \<not> d_mutex d')"

lemma op_frame_refl [simp]: "op_frame d d"
  by (simp add: op_frame_def)

lemma rx_frame_priv: "rx_frame d d' \<Longrightarrow> map s_priv (d_stubs d') = map s_priv (d_stubs d)"
  by (auto simp: rx_frame_def stub_key_def list_eq_iff_nth_eq)

lemma stub_write_begin_effect:
  assumes "stub_write_begin E i d = (ok, d1)"
  shows "op_frame d d1 \<and> d_sent d1 = d_sent d \<and> d_mutex d1 = d_mutex d \<and>
         length (d_stubs d1) = length (d_stubs d) \<and>
         (i < length (d_stubs d) \<longrightarrow> s_ibuf_len (d_stubs d1 ! i) = 0)"
  using assms
  by (auto simp: stub_write_begin_def kmalloc_ok_def op_frame_def heap_sizes_def upd_stub_map_key
      split: prod.splits)

lemma stub_write_send_effect:
  assumes "stub_write_send E i h ibuf d = (ra, d2)"
  shows "d_state d2 = d_state d \<and> d_cells d2 = d_cells d \<and> d_acpi d2 = d_acpi d \<and>
     d_pm d2 = d_pm d + 1 \<and> d_next d2 = d_next d \<and> d_ibuf d2 = d_ibuf d \<and>
     map s_type (d_stubs d2) = map s_type (d_stubs d) \<and>
     map s_priv (d_stubs d2) = map s_priv (d_stubs d) \<and>
     d_heap d2 = d_heap d \<and> d_sent d2 = d_sent d @ [msg_bytes h] \<and>
     length (d_stubs d2) = length (d_stubs d) \<and>
     (i < length (d_stubs d) \<longrightarrow>
        d_stubs d2 ! i = (d_stubs d ! i)\<lparr>s_cur_cmd := uint (msg_cmd h), s_ibuf := ibuf, s_acked := False\<rparr>)"
  using assms
  by (auto simp: stub_write_send_def Let_def upd_stub_map_key split: prod.splits)

lemma op_frame_finish:
  assumes "rx_frame d2 d3" and "d_pm d2 = d_pm d + 1"
    and "d_state d2 = d_state d" "d_cells d2 = d_cells d" "d_acpi d2 = d_acpi d" "d_next d2 = d_next d"
    and "length (d_ibuf d2) = length (d_ibuf d)"
    and "map s_type (d_stubs d2) = map s_type (d_stubs d)" "map s_priv (d_stubs d2) = map s_priv (d_stubs d)"
    and "heap_sizes d2 = heap_sizes d"
  shows "op_frame d (stub_write_unlock d3) \<and>
    op_frame d (stub_write_unlock (upd_stub i (\<lambda>s. s\<lparr>s_ibuf := None, s_ibuf_len := 0\<rparr>) d3))"
  using assms rx_frame_types [OF assms(1)] rx_frame_priv [OF assms(1)]
  by (auto simp: op_frame_def rx_frame_def stub_write_unlock_def heap_sizes_def upd_stub_map_key)

lemma op_frame_trans [trans]: "op_frame d d' \<Longrightarrow> op_frame d' d'' \<Longrightarrow> op_frame d d''"
  by (auto simp: op_frame_def)

lemma rx_frame_env [simp]: "rx_frame d (d\<lparr>d_env := w\<rparr>)"
  by (simp add: rx_frame_def heap_sizes_def)

lemma stub_write_send_frame:
  assumes "stub_write_send E i h ibuf d = (ra, d2)" and "rx_frame d2 d3"
  shows "op_frame d (stub_write_unlock d3) \<and>
    op_frame d (stub_write_unlock (upd_stub j (\<lambda>s. s\<lparr>s_ibuf := None, s_ibuf_len := 0\<rparr>) d3))"
  by (rule op_frame_finish [OF assms(2)])
    (use stub_write_send_effect [OF assms(1)] in \<open>simp_all add: heap_sizes_def\<close>)

lemma ljca_stub_write_frame:
  assumes "ljca_stub_write E i cmd obuf ibuf want wait_ack t d = Inr ((r, l), d')"
  shows "op_frame d d'"
  using assms
proof (cases rule: ljca_stub_write_cases)
  case (no_memory d1)
  then show ?thesis using stub_write_begin_effect by metis
next
  case (not_written d1 n d2)
  have "op_frame d d1" using not_written(3) stub_write_begin_effect by metis
  then show ?thesis
    using stub_write_send_frame [OF not_written(4) rx_frame_refl] not_written(7)
    by (auto intro: op_frame_trans)
next
  case (timed_out d1 d2 us w d3)
  have "op_frame d d1" using timed_out(3) stub_write_begin_effect by metis
  moreover have "rx_frame d2 d3"
    using rx_frame_trans [OF rx_frame_env ljca_rx_run_frame [OF timed_out(7)]] .
  ultimately show ?thesis
    using stub_write_send_frame [OF timed_out(5)] timed_out(11)
    by (auto intro: op_frame_trans)
next
  case (acked d1 d2 us w d3)
  have "op_frame d d1" using acked(3) stub_write_begin_effect by metis
  moreover have "rx_frame d2 d3"
    using rx_frame_trans [OF rx_frame_env ljca_rx_run_frame [OF acked(7)]] .
  ultimately show ?thesis
    using stub_write_send_frame [OF acked(5)] acked(9)
    by (auto simp: stub_write_finish_def intro: op_frame_trans)
next
  case (sent d1 d2)
  have "op_frame d d1" using sent(3) stub_write_begin_effect by metis
  then show ?thesis
    using stub_write_send_frame [OF sent(5) rx_frame_refl] sent(6)
    by (auto simp: stub_write_finish_def intro: op_frame_trans)
qed simp_all

text \<open>What has been handed to the USB core when a write returns.\<close>

lemma ljca_stub_write_sent:
  assumes "ljca_stub_write E i cmd obuf ibuf want wait_ack t d = Inr ((r, l), d')"
  shows "d_sent d' = (if d_state d = LJCA_STOPPED \<or> MAX_PAYLOAD_SIZE < length obuf \<or>
                         \<not> fst (stub_write_begin E i d)
                      then d_sent d
                      else d_sent d @ [msg_bytes (stub_write_header i cmd obuf wait_ack d)])"
proof -
  have types: "s_type (d_stubs d1 ! i) = s_type (d_stubs d ! i)"
    if "stub_write_begin E i d = (ok, d1)" for d1 ok
    using that by (cases "i < length (d_stubs d)")
      (auto simp: stub_write_begin_def kmalloc_ok_def upd_stub_def list_update_beyond split: prod.splits)
  have bg: "d_sent d1 = d_sent d \<and>
      stub_write_header i cmd obuf wait_ack d1 = stub_write_header i cmd obuf wait_ack d"
    if "stub_write_begin E i d = (ok, d1)" for d1 ok
    using types [OF that] stub_write_begin_effect [OF that] by (simp add: stub_write_header_def)
  have sd: "d_sent d2 = d_sent d1 @ [msg_bytes h]"
    if "stub_write_send E i h ibuf d1 = (ra, d2)" for d1 d2 h ra
    using stub_write_send_effect [OF that] by simp
  have rx: "d_sent d3 = d_sent d2" if "ljca_rx_run E us (d2\<lparr>d_env := w\<rparr>) = Inr d3" for d2 d3 us w
    using ljca_rx_run_frame [OF that] by (simp add: rx_frame_def)
  show ?thesis
    using assms
    by (cases rule: ljca_stub_write_cases)
      (auto simp: stub_write_unlock_def stub_write_finish_def rx dest!: bg sd)
qed

lemma ljca_stub_write_fits:
  assumes "ljca_stub_write E i cmd obuf (Some b) want wait_ack t d = Inr ((r, Some n), d')"
    and "i < length (d_stubs d)" and "d_heap d b = Some bs"
  shows "n \<le> length bs"
  using assms(1)
proof (cases rule: ljca_stub_write_cases)
  case (acked d1 d2 us w d3)
  note bg = stub_write_begin_effect [OF acked(3)] and sd = stub_write_send_effect [OF acked(5)]
  have i: "i < length (d_stubs d2)" using assms(2) bg sd by simp
  have "reply_fits i (d2\<lparr>d_env := w\<rparr>)"
    using assms(2) bg sd by (simp add: reply_fits_def)
  then have "reply_fits i d3"
    using ljca_rx_run_fits [OF acked(7)] i by simp
  moreover have f: "rx_frame d2 d3"
    using rx_frame_trans [OF rx_frame_env ljca_rx_run_frame [OF acked(7)]] .
  moreover have "s_ibuf (d_stubs d3 ! i) = Some b"
    using rx_frame_nth [OF f i] sd bg assms(2) by (simp add: stub_key_def)
  moreover have "heap_sizes d3 b = Some (length bs)"
  proof -
    have "heap_sizes d3 = heap_sizes d" 
      using f bg sd by (simp add: rx_frame_def op_frame_def heap_sizes_def)
    then show ?thesis using assms(3) by (simp add: heap_sizes_def)
  qed
  ultimately show ?thesis
    using acked(9) by (auto simp: reply_fits_def stub_write_finish_def split: if_splits)
next
  case (sent d1 d2)
  then show ?thesis
    using assms(2) stub_write_begin_effect [OF sent(3)] stub_write_send_effect [OF sent(5)]
    by (auto simp: stub_write_finish_def split: if_splits)
qed simp_all

section \<open>The interface the child drivers see\<close>

definition bus_sent :: "u8 \<Rightarrow> 'w ljca_dev \<Rightarrow> (u8 \<times> bytes) list" where
  "bus_sent type d = map (\<lambda>p. (p ! 1, drop SIZEOF_LJCA_MSG p)) (filter (\<lambda>p. p ! 0 = type) (d_sent d))"

lemma bus_sent_stub_write:
  assumes "ljca_stub_write E i cmd obuf ibuf want wait_ack t d = Inr ((r, l), d')"
    and "s_type (d_stubs d ! i) = type"
  shows "bus_sent type d' = bus_sent type d \<or> bus_sent type d' = bus_sent type d @ [(cmd, obuf)]"
    and "r = 0 \<Longrightarrow> bus_sent type d' = bus_sent type d @ [(cmd, obuf)]"
proof -
  have eq: "bus_sent type d' = bus_sent type d @ [(cmd, obuf)]"
    if "d_sent d' = d_sent d @ [msg_bytes (stub_write_header i cmd obuf wait_ack d)]"
    using that assms(2) by (simp add: bus_sent_def stub_write_header_def msg_bytes_def)
  show "bus_sent type d' = bus_sent type d \<or> bus_sent type d' = bus_sent type d @ [(cmd, obuf)]"
    using ljca_stub_write_sent [OF assms(1)] eq by (auto simp: bus_sent_def split: if_splits)
  show "bus_sent type d' = bus_sent type d @ [(cmd, obuf)]" if "r = 0"
  proof (rule eq)
    have "d_state d \<noteq> LJCA_STOPPED \<and> length obuf \<le> MAX_PAYLOAD_SIZE \<and> fst (stub_write_begin E i d)"
      using assms(1) that by (cases rule: ljca_stub_write_cases) auto
    then show "d_sent d' = d_sent d @ [msg_bytes (stub_write_header i cmd obuf wait_ack d)]"
      using ljca_stub_write_sent [OF assms(1)] by auto
  qed
qed

lemma ljca_stub_write_len:
  assumes "ljca_stub_write E i cmd obuf ibuf want wait_ack t d = Inr ((r, Some n), d')"
  shows "r = 0 \<and> want"
  using assms by (cases rule: ljca_stub_write_cases) (auto simp: stub_write_finish_def split: if_splits)

lemma heap_sizes_read:
  "heap_sizes d' = heap_sizes d \<Longrightarrow> heap_read b d = Inr bs \<Longrightarrow>
   \<exists>bs'. heap_read b d' = Inr bs' \<and> length bs' = length bs"
  by (auto simp: heap_sizes_def heap_read_def fun_eq_iff split: option.splits)
    (metis map_option_eq_Some option.map_disc_iff option.inject)+

interpretation ljca: ljca_bus
  "\<lambda>cmd obuf ib want d. ljca_transfer E (Some p) cmd obuf ib want d"
  heap_read
  "bus_sent (pd_type (pdev_platdata p))"
  for E :: "'w usb_env" and p :: platform_device
proof (unfold_locales, goal_cases)
  case (1 obuf cmd ib want d)
  then show ?case
    by (auto simp: ljca_transfer_def ljca_transfer_internal_def ljca_stub_write_def
        ljca_stub_find_Inl split: sum.splits)
next
  case (2 cmd obuf ib want d r l d')
  then show ?case
    by (auto simp: ljca_transfer_def ljca_transfer_internal_def
        split: sum.splits dest: ljca_stub_write_len)
next
  case (3 cmd obuf ib want d x d' b bs)
  then have "heap_sizes d' = heap_sizes d"
    by (cases x) (auto simp: ljca_transfer_def ljca_transfer_internal_def op_frame_def
        split: sum.splits dest!: ljca_stub_write_frame)
  then show ?case using 3(2) by (rule heap_sizes_read)
next
  case (4 cmd obuf b want d r n d' bs)
  then show ?case
    by (auto simp: ljca_transfer_def ljca_transfer_internal_def heap_read_def ljca_stub_find_Inr
        split: sum.splits option.splits dest: ljca_stub_write_fits)
next
  case (5 cmd obuf ib want d l d')
  then show ?case
    by (auto simp: ljca_transfer_def ljca_transfer_internal_def ljca_stub_find_Inr ljca_stub_find_Inl
        split: sum.splits intro: bus_sent_stub_write(2))
next
  case (6 cmd obuf ib want d x d')
  then show ?case
    by (cases x) (auto simp: ljca_transfer_def ljca_transfer_internal_def ljca_stub_find_Inr
        split: sum.splits dest: bus_sent_stub_write(1))
qed

section \<open>Acknowledges\<close>

text \<open>
  \<open>is_ack d i u\<close>: the URB \<open>u\<close> carries a well-formed acknowledge of the command that stub
  \<open>i\<close> has outstanding.
\<close>

definition is_ack :: "u8 \<Rightarrow> int \<Rightarrow> urb \<Rightarrow> ljca_msg \<Rightarrow> bool" where
  "is_ack type cmd u m \<longleftrightarrow>
     urb_status u = 0 \<and> msg_of_bytes (urb_bytes u) = Inr m \<and> ljca_validate m (length (urb_bytes u)) \<and>
     msg_type m = type \<and> uint (msg_cmd m) = cmd \<and> msg_flags m AND ACK_FLAG \<noteq> 0"

text \<open>The reply buffer of stub \<open>i\<close> belongs to no other stub.\<close>

definition ibuf_private :: "nat \<Rightarrow> 'w ljca_dev \<Rightarrow> bool" where
  "ibuf_private i d \<longleftrightarrow>
     (\<forall>j<length (d_stubs d). j \<noteq> i \<longrightarrow> s_ibuf (d_stubs d ! j) \<noteq> s_ibuf (d_stubs d ! i))"

text \<open>The acknowledge bit of stub \<open>i\<close> is set only with the reply of a message \<open>m\<close> in place.\<close>

definition reply_of :: "nat \<Rightarrow> 'w ljca_dev \<Rightarrow> ljca_msg \<Rightarrow> bool" where
  "reply_of i d m \<longleftrightarrow>
     s_ibuf_len (d_stubs d ! i) = unat (msg_len m) \<and>
     (\<forall>b. s_ibuf (d_stubs d ! i) = Some b \<longrightarrow>
        (\<exists>buf. d_heap d b = Some buf \<and> take (unat (msg_len m)) buf = take (unat (msg_len m)) (msg_data m) \<and>
               unat (msg_len m) \<le> length buf))"

lemma ljca_parse_other:
  assumes "ljca_parse h d = Inr (r, d')" and "i < length (d_stubs d)" and "ibuf_private i d"
    and "ljca_stub_find d (msg_type h) \<noteq> Inr i"
  shows "d_stubs d' ! i = d_stubs d ! i \<and>
         (\<forall>b. s_ibuf (d_stubs d ! i) = Some b \<longrightarrow> d_heap d' b = d_heap d b)"
proof (cases "ljca_stub_find d (msg_type h)")
  case (Inl e)
  then show ?thesis using assms by (simp add: ljca_parse_def)
next
  case (Inr j)
  then have j: "j < length (d_stubs d)" "j \<noteq> i" using assms(4) by (auto simp: ljca_stub_find_Inr)
  then have "s_ibuf (d_stubs d ! j) \<noteq> s_ibuf (d_stubs d ! i)"
    using assms(3) by (simp add: ibuf_private_def)
  then show ?thesis
    using assms(1,2) Inr j
    by (auto simp: ljca_parse_def Let_def bindF_eq_Inr heap_write_def ljca_stub_notify_def
        split: if_splits option.splits)
qed

lemma ljca_parse_own:
  assumes "ljca_parse h d = Inr (r, d')" and "ljca_stub_find d (msg_type h) = Inr i"
  shows "(d_stubs d' = d_stubs d \<and> d_heap d' = d_heap d) \<or>
         (msg_flags h AND ACK_FLAG \<noteq> 0 \<and> uint (msg_cmd h) = s_cur_cmd (d_stubs d ! i) \<and>
          s_type (d_stubs d ! i) = msg_type h \<and> reply_of i d' h)"
proof -
  have i: "i < length (d_stubs d)" "s_type (d_stubs d ! i) = msg_type h"
    using assms(2) by (auto simp: ljca_stub_find_Inr)
  then show ?thesis
    using assms
    by (auto simp: ljca_parse_def Let_def bindF_eq_Inr heap_write_def ljca_stub_notify_def
        reply_of_def store_eq_Inr load_eq_Inr split: if_splits option.splits)
qed

lemma is_ack_of_buffer:
  assumes "store 0 (urb_bytes u) ibuf = Inr buf" and "msg_of_bytes buf = Inr h"
    and "ljca_validate h (length (urb_bytes u))"
  shows "\<exists>m. msg_of_bytes (urb_bytes u) = Inr m \<and> ljca_validate m (length (urb_bytes u)) \<and>
    msg_type m = msg_type h \<and> msg_cmd m = msg_cmd h \<and> msg_flags m = msg_flags h \<and>
    msg_len m = msg_len h \<and> take (unat (msg_len h)) (msg_data h) = take (unat (msg_len h)) (msg_data m)"
proof -
  have n: "length (urb_bytes u) = unat (msg_len h) + SIZEOF_LJCA_MSG"
    using assms(3) by (simp add: ljca_validate_def)
  have buf: "buf = urb_bytes u @ drop (length (urb_bytes u)) ibuf"
    using assms(1) by (simp add: store_eq_Inr)
  have h: "msg_type h = buf ! 0" "msg_cmd h = buf ! 1" "msg_flags h = buf ! 2" "msg_len h = buf ! 3"
    "msg_data h = drop SIZEOF_LJCA_MSG buf"
    using assms(2) by (simp_all add: msg_of_bytes_eq_Inr)
  have nth: "buf ! k = urb_bytes u ! k" if "k < SIZEOF_LJCA_MSG" for k
    using n that buf by (simp add: nth_append)
  let ?m = "\<lparr>msg_type = msg_type h, msg_cmd = msg_cmd h, msg_flags = msg_flags h, msg_len = msg_len h,
              msg_data = drop SIZEOF_LJCA_MSG (urb_bytes u)\<rparr>"
  have "msg_of_bytes (urb_bytes u) = Inr ?m"
    using n h(1-4) nth [of 0] nth [of 1] nth [of 2] nth [of 3] by (simp add: msg_of_bytes_def)
  moreover have "take (unat (msg_len h)) (msg_data h) = take (unat (msg_len h)) (msg_data ?m)"
    using n h(5) by (simp add: buf)
  ultimately show ?thesis
    using n by (intro exI [of _ ?m]) (simp add: ljca_validate_def)
qed

definition ack_seen :: "nat \<Rightarrow> urb set \<Rightarrow> 'w ljca_dev \<Rightarrow> bool" where
  "ack_seen i U d \<longleftrightarrow>
     (s_acked (d_stubs d ! i) \<longrightarrow>
        (\<exists>u\<in>U. \<exists>m. is_ack (s_type (d_stubs d ! i)) (s_cur_cmd (d_stubs d ! i)) u m \<and> reply_of i d m))"

lemma ack_seen_same:
  assumes "ack_seen i U d" and "d_stubs d' ! i = d_stubs d ! i"
    and "\<forall>b. s_ibuf (d_stubs d ! i) = Some b \<longrightarrow> d_heap d' b = d_heap d b"
  shows "ack_seen i U d'"
  using assms unfolding ack_seen_def reply_of_def by fastforce

lemma ack_seen_resubmit [simp]: "ack_seen i U (rx_resubmit E d) = ack_seen i U d"
  by (simp add: ack_seen_def reply_of_def)

lemma ack_seen_fields [simp]:
  "ack_seen i U (d\<lparr>d_ibuf := buf, d_rx_active := a\<rparr>) = ack_seen i U d"
  "ack_seen i U (d\<lparr>d_env := w\<rparr>) = ack_seen i U d"
  by (simp_all add: ack_seen_def reply_of_def)

lemma ljca_parse_ack_seen:
  assumes "ljca_parse h d = Inr (r, d')" and "i < length (d_stubs d)" and "ibuf_private i d"
    and "ack_seen i U d" and "u \<in> U" and "urb_status u = 0"
    and "store 0 (urb_bytes u) ibuf = Inr buf" and "msg_of_bytes buf = Inr h"
    and "ljca_validate h (length (urb_bytes u))"
  shows "ack_seen i U d'"
proof (cases "ljca_stub_find d (msg_type h) = Inr i")
  case False
  then show ?thesis
    using ack_seen_same [OF assms(4)] ljca_parse_other [OF assms(1-3)] by blast
next
  case True
  have key: "stub_key (d_stubs d' ! i) = stub_key (d_stubs d ! i)"
    by (rule rx_frame_nth [OF ljca_parse_frame [OF assms(1)] assms(2)])
  obtain m where m: "msg_of_bytes (urb_bytes u) = Inr m" "ljca_validate m (length (urb_bytes u))"
    "msg_type m = msg_type h" "msg_cmd m = msg_cmd h" "msg_flags m = msg_flags h"
    "msg_len m = msg_len h" "take (unat (msg_len h)) (msg_data h) = take (unat (msg_len h)) (msg_data m)"
    using is_ack_of_buffer [OF assms(7-9)] by auto
  show ?thesis
    using ljca_parse_own [OF assms(1) True]
  proof
    assume "d_stubs d' = d_stubs d \<and> d_heap d' = d_heap d"
    then show ?thesis by (intro ack_seen_same [OF assms(4)]) simp_all
  next
    assume own: "msg_flags h AND ACK_FLAG \<noteq> 0 \<and> uint (msg_cmd h) = s_cur_cmd (d_stubs d ! i) \<and>
      s_type (d_stubs d ! i) = msg_type h \<and> reply_of i d' h"
    then have "is_ack (s_type (d_stubs d' ! i)) (s_cur_cmd (d_stubs d' ! i)) u m"
      using m key assms(6) by (simp add: is_ack_def stub_key_def)
    moreover have "reply_of i d' m" using own m(6,7) by (simp add: reply_of_def)
    ultimately show ?thesis using assms(5) unfolding ack_seen_def by blast
  qed
qed

lemma ibuf_private_frame:
  assumes "rx_frame d d'" and "ibuf_private i d" and "i < length (d_stubs d)"
  shows "ibuf_private i d'"
  using assms rx_frame_nth [OF assms(1)] rx_frame_length [OF assms(1)]
  by (auto simp: ibuf_private_def stub_key_def)

lemma ljca_read_complete_ack_seen:
  assumes "ljca_read_complete E u d = Inr d'" and "i < length (d_stubs d)" and "ibuf_private i d"
    and "ack_seen i U d" and "u \<in> U"
  shows "ack_seen i U d'"
proof -
  have parsed: "ack_seen i U d2"
    if "ljca_parse h (d\<lparr>d_ibuf := buf, d_rx_active := a\<rparr>) = Inr (r, d2)"
      "store 0 (urb_bytes u) (d_ibuf d) = Inr buf" "msg_of_bytes buf = Inr h"
      "ljca_validate h (length (urb_bytes u))" "urb_status u = 0" for h r d2 buf a
    by (rule ljca_parse_ack_seen [OF that(1) _ _ _ assms(5) that(5) that(2-4)])
      (use assms in \<open>simp_all add: ibuf_private_def\<close>)
  show ?thesis
    using assms parsed
    by (auto simp: ljca_read_complete_def bindF_eq_Inr Let_def split: if_splits)
qed

lemma ljca_rx_run_ack_seen:
  "ljca_rx_run E us d = Inr d' \<Longrightarrow> i < length (d_stubs d) \<Longrightarrow> ibuf_private i d \<Longrightarrow>
   ack_seen i U d \<Longrightarrow> set us \<subseteq> U \<Longrightarrow> ack_seen i U d'"
proof (induction us arbitrary: d)
  case Nil
  then show ?case by simp
next
  case (Cons u us)
  have "i < length (d_stubs d1) \<and> ibuf_private i d1 \<and> ack_seen i U d1"
    if "ljca_read_complete E u d = Inr d1" for d1
    using ljca_read_complete_ack_seen [OF that Cons.prems(2-4)] Cons.prems
      rx_frame_length [OF ljca_read_complete_frame [OF that]]
      ibuf_private_frame [OF ljca_read_complete_frame [OF that]] by auto
  then show ?case
    using Cons.IH Cons.prems by (auto simp: bindF_eq_Inr split: if_splits)
qed

section \<open>Properties\<close>

lemma stub_write_begin_header:
  assumes "stub_write_begin E i d = (ok, d1)"
  shows "stub_write_header i cmd obuf a d1 = stub_write_header i cmd obuf a d"
  using assms
  by (cases "i < length (d_stubs d)")
    (auto simp: stub_write_header_def stub_write_begin_def kmalloc_ok_def upd_stub_def
      list_update_beyond split: prod.splits)

text \<open>The host state in which a write goes to sleep.\<close>

definition sleep_env :: "'w usb_env \<Rightarrow> nat \<Rightarrow> u8 \<Rightarrow> bytes \<Rightarrow> 'w ljca_dev \<Rightarrow> 'w" where
  "sleep_env E i cmd obuf d =
     snd (usb_bulk E (msg_bytes (stub_write_header i cmd obuf True d)) (snd (usb_alloc E (d_env d))))"

lemma stub_write_sleep_env:
  assumes "stub_write_begin E i d = (ok, d1)"
    and "stub_write_send E i (stub_write_header i cmd obuf True d1) ib d1 = (ra, d2)"
  shows "d_env d2 = sleep_env E i cmd obuf d"
  using assms(2) stub_write_begin_header [OF assms(1), of cmd obuf True]
    assms(1) [unfolded stub_write_begin_def kmalloc_ok_def]
  by (auto simp: stub_write_send_def Let_def sleep_env_def split: prod.splits)

text \<open>A reply length comes from an acknowledge received while the writer slept.\<close>

lemma ljca_stub_write_reply:
  assumes "ljca_stub_write E i cmd obuf (Some b) want True t d = Inr ((0, Some n), d')"
    and "i < length (d_stubs d)"
    and "\<forall>j<length (d_stubs d). j \<noteq> i \<longrightarrow> s_ibuf (d_stubs d ! j) \<noteq> Some b"
  shows "\<exists>u m buf. u \<in> set (fst (usb_recv E t (sleep_env E i cmd obuf d))) \<and>
           is_ack (s_type (d_stubs d ! i)) (uint cmd) u m \<and> n = unat (msg_len m) \<and>
           d_heap d' b = Some buf \<and> take n buf = msg_data m"
  using assms(1)
proof (cases rule: ljca_stub_write_cases)
  case (acked d1 d2 us w d3)
  note bg = stub_write_begin_effect [OF acked(3)] and sd = stub_write_send_effect [OF acked(5)]
  have i: "i < length (d_stubs d2)" using assms(2) bg sd by simp
  have ibufs: "\<forall>j<length (d_stubs d). j \<noteq> i \<longrightarrow> s_ibuf (d_stubs d2 ! j) = s_ibuf (d_stubs d ! j)"
    using acked(3,5) by (auto simp: stub_write_begin_def kmalloc_ok_def stub_write_send_def Let_def
        split: prod.splits)
  have "ibuf_private i (d2\<lparr>d_env := w\<rparr>)"
    using assms(2,3) ibufs bg sd by (simp add: ibuf_private_def)
  moreover have "ack_seen i (set us) (d2\<lparr>d_env := w\<rparr>)"
    using assms(2) bg sd by (simp add: ack_seen_def)
  ultimately have seen: "ack_seen i (set us) d3"
    using ljca_rx_run_ack_seen [OF acked(7)] i by simp
  have "stub_key (d_stubs d3 ! i) = stub_key (d_stubs d2 ! i)"
    using rx_frame_nth [OF ljca_rx_run_frame [OF acked(7)]] i by simp
  moreover have "s_type (d_stubs d1 ! i) = s_type (d_stubs d ! i)"
    using bg assms(2) nth_map [of i "d_stubs d1" s_type] nth_map [of i "d_stubs d" s_type]
    by (simp add: op_frame_def)
  ultimately have key: "s_type (d_stubs d3 ! i) = s_type (d_stubs d ! i)"
    "s_cur_cmd (d_stubs d3 ! i) = uint cmd" "s_ibuf (d_stubs d3 ! i) = Some b"
    using bg sd assms(2) by (simp_all add: stub_key_def)
  obtain u m where u: "u \<in> set us" "is_ack (s_type (d_stubs d ! i)) (uint cmd) u m" "reply_of i d3 m"
    using seen acked(8) key by (auto simp: ack_seen_def)
  moreover have "length (msg_data m) = unat (msg_len m)"
    using u(2) by (auto simp: is_ack_def msg_of_bytes_eq_Inr ljca_validate_def)
  moreover have "n = s_ibuf_len (d_stubs d3 ! i)" "d_heap d' b = d_heap d3 b"
    using acked(9) by (auto simp: stub_write_finish_def stub_write_unlock_def split: if_splits)
  moreover have "us = fst (usb_recv E t (sleep_env E i cmd obuf d))"
    using acked(4,5,6) stub_write_sleep_env [OF acked(3)] by simp
  ultimately show ?thesis using key(3) unfolding reply_of_def by fastforce
qed simp_all

text \<open>
  C1: A write that reports success together with a reply length has really been acknowledged:
  while it slept the device sent a well-formed message of the same stub type and command with the
  acknowledge flag, the reported length is that message's payload length, and the caller's buffer
  starts with exactly that payload.
\<close>

theorem stub_write_reply:
  assumes "ljca_stub_write E i cmd obuf (Some b) want True t d = Inr ((0, Some n), d')"
    and "i < length (d_stubs d)"
    and "\<forall>j<length (d_stubs d). j \<noteq> i \<longrightarrow> s_ibuf (d_stubs d ! j) \<noteq> Some b"
  shows "\<exists>u m buf. u \<in> set (fst (usb_recv E t (sleep_env E i cmd obuf d))) \<and>
           is_ack (s_type (d_stubs d ! i)) (uint cmd) u m \<and> n = unat (msg_len m) \<and>
           d_heap d' b = Some buf \<and> take n buf = msg_data m"
  using ljca_stub_write_reply [OF assms] .

text \<open>A device with one GPIO stub, a 3-byte reply buffer, and an acknowledge on its way.\<close>

definition demo_dev :: "urb list list \<Rightarrow> urb list list ljca_dev" where
  "demo_dev w = (blank_dev w)\<lparr>d_stubs := [(new_stub No_priv)\<lparr>s_type := GPIO_STUB\<rparr>],
     d_heap := (\<lambda>b. None)(0 := Some [0, 0, 0]), d_next := 1\<rparr>"

definition demo_ack :: urb where
  "demo_ack = urb_of \<lparr>msg_type = 3, msg_cmd = 2, msg_flags = 5, msg_len = 2, msg_data = [7, 9]\<rparr>"

theorem stub_write_reply_witness:
  "\<exists>u m buf d'. ljca_stub_write scripted_usb 0 2 [1] (Some 0) True True 500 (demo_dev [[demo_ack]])
      = Inr ((0, Some 2), d') \<and>
    u \<in> set (fst (usb_recv scripted_usb 500 (sleep_env scripted_usb 0 2 [1] (demo_dev [[demo_ack]])))) \<and>
    is_ack 3 2 u m \<and> unat (msg_len m) = 2 \<and> d_heap d' 0 = Some buf \<and> take 2 buf = msg_data m"
proof -
  have "value_of (ljca_stub_write scripted_usb 0 2 [1] (Some 0) True True 500 (demo_dev [[demo_ack]]))
      = Inr (0, Some 2)"
    by code_simp
  then obtain d' where
    run: "ljca_stub_write scripted_usb 0 2 [1] (Some 0) True True 500 (demo_dev [[demo_ack]])
      = Inr ((0, Some 2), d')"
    by (auto simp: value_of_Inr)
  have i: "0 < length (d_stubs (demo_dev [[demo_ack]]))" by (simp add: demo_dev_def)
  have "\<forall>j<length (d_stubs (demo_dev [[demo_ack]])). j \<noteq> 0 \<longrightarrow>
      s_ibuf (d_stubs (demo_dev [[demo_ack]]) ! j) \<noteq> Some 0"
    by (simp add: demo_dev_def)
  from stub_write_reply [OF run i this] run show ?thesis
    by (auto simp: demo_dev_def)
qed



text \<open>
  A stopped adapter and a payload that does not fit the 64-byte packet are refused before
  anything is touched.
\<close>

lemma stub_write_refused:
  assumes "d_state d = LJCA_STOPPED \<or> MAX_PAYLOAD_SIZE < length obuf"
  shows "ljca_stub_write E i cmd obuf ibuf want wait_ack t d =
    Inr ((if d_state d = LJCA_STOPPED then - ENODEV else - EINVAL, None), d)"
  using assms by (auto simp: ljca_stub_write_def)

text \<open>
  A write that the USB core reports as successful but short makes the driver return 0: the
  caller sees success although the command was truncated, nothing was acknowledged and the reply
  length was never stored.
\<close>

lemma short_write_reports_success:
  assumes "d_state d \<noteq> LJCA_STOPPED" and "length obuf \<le> MAX_PAYLOAD_SIZE"
    and "fst (usb_alloc E (d_env d))"
    and "fst (usb_bulk E (msg_bytes (stub_write_header i cmd obuf wait_ack d)) (snd (usb_alloc E (d_env d))))
           = (0, n)"
    and "n \<noteq> SIZEOF_LJCA_MSG + length obuf" and "i < length (d_stubs d)"
  shows "\<exists>d'. ljca_stub_write E i cmd obuf ibuf want wait_ack t d = Inr ((0, None), d') \<and>
              \<not> s_acked (d_stubs d' ! i)"
proof -
  obtain d1 where bg: "stub_write_begin E i d = (True, d1)" and env: "d_env d1 = snd (usb_alloc E (d_env d))"
    using assms(3) by (cases "usb_alloc E (d_env d)") (auto simp: stub_write_begin_def kmalloc_ok_def)
  note header = stub_write_begin_header [OF bg, of cmd obuf wait_ack]
  obtain d2 where sd: "stub_write_send E i (stub_write_header i cmd obuf wait_ack d1) ibuf d1 = ((0, n), d2)"
    using assms(4) env header
    by (cases "usb_bulk E (msg_bytes (stub_write_header i cmd obuf wait_ack d)) (d_env d1)")
      (auto simp: stub_write_send_def Let_def)
  have "\<not> s_acked (d_stubs d2 ! i)"
    using stub_write_send_effect [OF sd] stub_write_begin_effect [OF bg] assms(6) by simp
  then show ?thesis
    using assms(1,2,5) bg sd ljca_dump_payload [OF assms(2)]
    by (auto simp: ljca_stub_write_def stub_write_unlock_def)
qed

lemma ljca_dump_ok: "n \<le> length buf \<Longrightarrow> \<exists>s. ljca_dump buf n = Inr s"
  by (simp add: ljca_dump_def load_def)

lemma ljca_dump_bad: "length buf < n \<Longrightarrow> ljca_dump buf n = Inl OutOfBounds"
  by (simp add: ljca_dump_def load_def)

text \<open>
  C9: After a write with a reply buffer has failed, the stub keeps the pointer to that buffer.  If
  the caller has released the buffer meanwhile (every enumeration does), the next well-formed
  acknowledge of the command makes the receive path write to freed memory.
\<close>

theorem late_ack_use_after_free:
  assumes "ljca_stub_write E i cmd obuf (Some b) want wait_ack t d = Inr ((r, l), d')"
    and "r = - ETIMEDOUT"
    and "ljca_stub_find d type = Inr i"
    and "is_ack type (uint cmd) u m" and "length (urb_bytes u) \<le> length (d_ibuf d)"
  shows "ljca_read_complete E u (heap_free b d') = Inl UseAfterFree"
proof -
  have i: "i < length (d_stubs d)" using assms(3) by (simp add: ljca_stub_find_Inr)
  have armed: "s_ibuf (d_stubs d2 ! i) = Some b \<and> s_cur_cmd (d_stubs d2 ! i) = uint cmd \<and>
      length (d_stubs d2) = length (d_stubs d)"
    if "stub_write_begin E i d = (ok, d1)"
      "stub_write_send E i (stub_write_header i cmd obuf wait_ack d1) (Some b) d1 = (ra, d2)" for ok d1 d2 ra
    using stub_write_begin_effect [OF that(1)] stub_write_send_effect [OF that(2)] i by simp
  have kept: "s_ibuf (d_stubs d' ! i) = Some b \<and> s_cur_cmd (d_stubs d' ! i) = uint cmd"
    using assms(1)
  proof (cases rule: ljca_stub_write_cases)
    case (not_written d1 n d2)
    then show ?thesis using armed [OF not_written(3,4)] by (simp add: stub_write_unlock_def)
  next
    case (timed_out d1 d2 us w d3)
    then show ?thesis
      using armed [OF timed_out(3,5)] i rx_frame_nth [OF ljca_rx_run_frame [OF timed_out(7)], of i]
      by (simp add: stub_write_unlock_def stub_key_def)
  qed (use assms(2) in \<open>auto simp: stub_write_finish_def\<close>)
  have frame: "op_frame d d'" by (rule ljca_stub_write_frame [OF assms(1)])
  have find: "ljca_stub_find d' type = Inr i"
    using ljca_stub_find_types [of d' d type] frame assms(3) by (simp add: op_frame_def)
  obtain buf where buf: "store 0 (urb_bytes u) (d_ibuf d') = Inr buf"
    using assms(5) frame by (auto simp: store_def op_frame_def)
  have n: "SIZEOF_LJCA_MSG + unat (msg_len m) = length (urb_bytes u)" "urb_status u = 0"
    using assms(4) by (auto simp: is_ack_def ljca_validate_def)
  then have h: "msg_of_bytes buf = Inr (m\<lparr>msg_data := drop SIZEOF_LJCA_MSG buf\<rparr>)"
    using assms(4) buf by (auto simp: is_ack_def msg_of_bytes_eq_Inr store_eq_Inr nth_append)
  have "length buf \<ge> length (urb_bytes u)" using buf by (simp add: store_eq_Inr)
  then have "unat (msg_len m) \<le> length (drop SIZEOF_LJCA_MSG buf)" using n by simp
  note le = this
  from ljca_dump_ok [OF this] obtain s
    where "ljca_dump (drop SIZEOF_LJCA_MSG buf) (unat (msg_len m)) = Inr s" ..
  then show ?thesis
    using le assms(4) buf h n kept find
    by (auto simp: ljca_read_complete_def Let_def is_ack_def ljca_validate_def ljca_parse_def
        ljca_stub_find_def heap_free_def heap_write_def load_def)
qed

theorem late_ack_use_after_free_witness:
  "\<exists>d'. ljca_stub_write scripted_usb 0 2 [1] (Some 0) True True 20 (demo_dev []) = Inr ((- ETIMEDOUT, None), d') \<and>
        ljca_read_complete scripted_usb demo_ack (heap_free 0 d') = Inl UseAfterFree"
proof -
  have "value_of (ljca_stub_write scripted_usb 0 2 [1] (Some 0) True True 20 (demo_dev []))
      = Inr (- ETIMEDOUT, None)"
    by code_simp
  then obtain d' where
    run: "ljca_stub_write scripted_usb 0 2 [1] (Some 0) True True 20 (demo_dev [])
      = Inr ((- ETIMEDOUT, None), d')"
    by (auto simp: value_of_Inr)
  have find: "ljca_stub_find (demo_dev []) GPIO_STUB = Inr 0"
    by (simp add: ljca_stub_find_def demo_dev_def blank_dev_def)
  have ack: "is_ack GPIO_STUB (uint (2 :: u8)) demo_ack
      \<lparr>msg_type = 3, msg_cmd = 2, msg_flags = 5, msg_len = 2, msg_data = [7, 9]\<rparr>"
    by (simp add: is_ack_def demo_ack_def urb_of_def ljca_validate_def msg_of_bytes_def msg_bytes_def)
  have len: "length (urb_bytes demo_ack) \<le> length (d_ibuf (demo_dev []))"
    by (simp add: demo_ack_def urb_of_def demo_dev_def blank_dev_def)
  show ?thesis
    using late_ack_use_after_free [OF run refl find ack len] run by blast
qed



text \<open>
  Unsolicited messages.  A message without the acknowledge flag reaches the callback
  registered for its stub type, with its command, payload and length, and nothing else changes;
  after the callback is unregistered the message is dropped.
\<close>

lemma event_delivery:
  assumes "msg_flags h AND ACK_FLAG = 0" and "pd_type (pdev_platdata p) = msg_type h"
    and "ljca_stub_find d (msg_type h) = Inr i"
  shows "let d1 = snd (ljca_register_event_cb (Some p) f d);
             d2 = ljca_unregister_event_cb p d1
         in fst (ljca_register_event_cb (Some p) f d) = 0 \<and>
            ljca_parse h d1 = Inr (0, d1\<lparr>d_events := d_events d @
              [\<lparr>ev_fun = f, ev_pdev = pdev_id p, ev_cmd = msg_cmd h, ev_data = msg_data h,
                ev_len = unat (msg_len h)\<rparr>]\<rparr>) \<and>
            ljca_parse h d2 = Inr (0, d2)"
proof -
  have i: "i < length (d_stubs d)" using assms(3) by (simp add: ljca_stub_find_Inr)
  have find: "ljca_stub_find (upd_stub j g d') t = ljca_stub_find d' t"
    if "\<And>s. s_type (g s) = s_type s" for d' :: "'a ljca_dev" and j g t
    by (rule ljca_stub_find_types [OF upd_stub_map_key]) (rule that)
  show ?thesis
    using assms i
    by (simp add: ljca_register_event_cb_def ljca_unregister_event_cb_def ljca_parse_def find
        ljca_stub_notify_def Let_def)
qed

end
