(* ===== verification/Ljca_Mng.thy ===== *)
theory Ljca_Mng
  imports Ljca_Core_Laws
begin

text \<open>
  The rest of \<^verbatim>\<open>drivers/mfd/ljca.c\<close>: the ACPI precheck, the management and diagnostic stubs, the
  enumeration of the child devices, the sysfs attributes and the USB driver entry points
  (\<open>ljca_probe\<close>, \<open>ljca_disconnect\<close>, \<open>ljca_suspend\<close>, \<open>ljca_resume\<close>).

  Kernel functions are parameters: the answer of \<open>acpi_match_device_ids\<close> is a field of the
  ACPI device, the result of \<open>usb_find_common_endpoints\<close> an argument of \<open>ljca_probe\<close>.
\<close>

section \<open>ACPI precheck\<close>

definition gpio_hids :: "string list" where
  "gpio_hids = [''INTC1074'', ''INTC1096'', ''INTC100B'', ''INTC10D1'', ''INTC10B5'']"

definition i2c_hids :: "string list" where
  "i2c_hids = [''INTC1075'', ''INTC1097'', ''INTC100C'', ''INTC10D2'']"

definition spi_hids :: "string list" where
  "spi_hids = [''INTC1091'', ''INTC1098'', ''INTC100D'', ''INTC10D3'']"

text \<open>An ACPI child: unmet dependencies, and what \<open>acpi_match_device_ids\<close> says of each HID.\<close>

record acpi_child =
  dep_unmet :: nat
  hid_matches :: "string \<Rightarrow> bool"

definition try_match_acpi_hid :: "acpi_child \<Rightarrow> string list \<Rightarrow> int" where
  "try_match_acpi_hid child hids =
     (case find_index (hid_matches child) hids of Some i \<Rightarrow> int i | None \<Rightarrow> - ENODEV)"

definition match_device_ids ::
  "acpi_child \<Rightarrow> acpi_matches \<times> nat \<Rightarrow> int \<times> acpi_matches \<times> nat" where
  "match_device_ids adev st =
     (let (m, child_count) = st in
      if dep_unmet adev \<noteq> 0 then (- ENODEV, m, child_count)
      else
        let ret = try_match_acpi_hid adev gpio_hids in
        if 0 \<le> ret \<and> ret < int (length gpio_hids)
        then (0, m\<lparr>gpio_pnpid := Some (gpio_hids ! nat ret)\<rparr>, child_count + 1)
        else
          let ret = try_match_acpi_hid adev i2c_hids in
          if 0 \<le> ret \<and> ret < int (length i2c_hids)
          then (0, m\<lparr>i2c_pnpid := Some (i2c_hids ! nat ret)\<rparr>, child_count + 1)
          else
            let ret = try_match_acpi_hid adev spi_hids in
            if 0 \<le> ret \<and> ret < int (length spi_hids)
            then (0, m\<lparr>spi_pnpid := Some (spi_hids ! nat ret)\<rparr>, child_count + 1)
            else (0, m, child_count))"

text \<open>
  \<open>acpi_dev_for_each_child\<close> of kernels from 6.0 stops at the first non-zero return; the list
  walk of older kernels does not look at it.
\<close>

fun each_child ::
  "bool \<Rightarrow> acpi_child list \<Rightarrow> acpi_matches \<times> nat \<Rightarrow> acpi_matches \<times> nat" where
  "each_child v6 [] st = st"
| "each_child v6 (c # cs) st =
     (let (ret, st) = match_device_ids c st
      in if v6 \<and> ret \<noteq> 0 then st else each_child v6 cs st)"

text \<open>
  The two candidate parents: \<open>None\<close> for a device that does not exist, \<open>Some None\<close> for one
  without an ACPI companion, else the children of the companion.
\<close>

type_synonym acpi_parent = "acpi_child list option option"

fun scan_parents ::
  "bool \<Rightarrow> (nat \<times> acpi_child list option) list \<Rightarrow> acpi_matches \<Rightarrow> nat \<Rightarrow> (acpi_matches \<times> nat) result" where
  "scan_parents v6 [] m parent = Inr (m, parent)"
| "scan_parents v6 ((i, p) # ps) m parent =
     bindF (deref p) (\<lambda>children.
     let (m, child_count) = each_child v6 children (m, 0)
     in if child_count > 0 then Inr (m, i) else scan_parents v6 ps m parent)"

text \<open>Returns the code, the three match tables and \<open>sub_dev_parent\<close>.\<close>

definition precheck_acpi_hid ::
  "bool \<Rightarrow> acpi_parent \<Rightarrow> acpi_parent \<Rightarrow> acpi_matches \<Rightarrow> nat \<Rightarrow> (int \<times> acpi_matches \<times> nat) result" where
  "precheck_acpi_hid v6 p0 p1 m parent =
     (case (p0, p1) of
        (Some c0, Some c1) \<Rightarrow>
          (case c0 of
             None \<Rightarrow> Inr (- ENODEV, m, parent)
           | Some _ \<Rightarrow> bindF (scan_parents v6 [(0, c0), (1, c1)] m 0) (\<lambda>(m, parent). Inr (0, m, parent)))
      | _ \<Rightarrow> Inr (- ENODEV, m, parent))"

section \<open>Management stub\<close>

abbreviation MNG_GET_VERSION :: u8 where "MNG_GET_VERSION \<equiv> 1"
abbreviation MNG_RESET_NOTIFY :: u8 where "MNG_RESET_NOTIFY \<equiv> 2"
abbreviation MNG_RESET :: u8 where "MNG_RESET \<equiv> 3"
abbreviation MNG_ENUM_GPIO :: u8 where "MNG_ENUM_GPIO \<equiv> 4"
abbreviation MNG_ENUM_I2C :: u8 where "MNG_ENUM_I2C \<equiv> 5"
abbreviation MNG_SET_DFU_MODE :: u8 where "MNG_SET_DFU_MODE \<equiv> 7"
abbreviation MNG_ENUM_SPI :: u8 where "MNG_ENUM_SPI \<equiv> 8"

text \<open>
  \<open>reset_id_ret\<close> is a local variable: an object that is gone when the function returns.
  \<open>ilen\<close> is unassigned until \<open>ljca_stub_write\<close> stores it.
\<close>

definition ljca_mng_reset_handshake ::
  "'w usb_env \<Rightarrow> nat \<Rightarrow> 'w ljca_dev \<Rightarrow> (int \<times> 'w ljca_dev) result" where
  "ljca_mng_reset_handshake E i d =
     (case s_priv (d_stubs d ! i) of
        Mng_priv rid \<Rightarrow>
          let reset_id = (ucast rid :: u32);
              d = upd_stub i (\<lambda>s. s\<lparr>s_priv := Mng_priv (rid + 1)\<rparr>) d;
              (b, d) = heap_new (le_bytes 4 (0 :: u32)) d in
          bindF (ljca_stub_write E i MNG_RESET_NOTIFY (le_bytes 4 reset_id) (Some b) True True
                   USB_WRITE_ACK_TIMEOUT d) (\<lambda>((ret, ilen), d).
          bindF (heap_read b d) (\<lambda>reset_id_ret.
          if ret \<noteq> 0 then Inr (- EIO, heap_free b d)
          else bindF (assigned ilen) (\<lambda>n.
            if n \<noteq> 4 \<or> (word_of_le reset_id_ret :: u32) \<noteq> reset_id
            then Inr (- EIO, heap_free b d) else Inr (0, heap_free b d))))
      | _ \<Rightarrow> Inl OutOfBounds)"

definition ljca_mng_reset ::
  "'w usb_env \<Rightarrow> nat \<Rightarrow> 'w ljca_dev \<Rightarrow> (int \<times> 'w ljca_dev) result" where
  "ljca_mng_reset E i d =
     bindF (ljca_stub_write E i MNG_RESET [] None False True USB_WRITE_ACK_TIMEOUT d)
       (\<lambda>((ret, _), d). Inr (ret, d))"

definition acpi_table :: "acpi_matches \<Rightarrow> acpi_ref \<Rightarrow> string option" where
  "acpi_table m r = (case r of Match_gpio \<Rightarrow> gpio_pnpid m | Match_i2c i \<Rightarrow> i2c_pnpid m
                     | Match_spi i \<Rightarrow> spi_pnpid m)"

definition ljca_add_mfd_cell ::
  "'w usb_env \<Rightarrow> mfd_cell \<Rightarrow> 'w ljca_dev \<Rightarrow> (int \<times> 'w ljca_dev) result" where
  "ljca_add_mfd_cell E cell d =
     bindF (deref (cell_acpi_match cell)) (\<lambda>_.
     let (ok, d) = kmalloc_ok E d in
     if \<not> ok then Inr (- ENOMEM, d) else Inr (0, d\<lparr>d_cells := d_cells d @ [cell]\<rparr>))"

subsection \<open>GPIO\<close>

abbreviation MAX_GPIO_NUM :: nat where "MAX_GPIO_NUM \<equiv> 64"

text \<open>
  \<open>struct ljca_gpio_descriptor\<close>: pins_per_bank, bank_num, then 6 bytes per bank, the last four
  of them the pin mask.  \<open>valid_pin\<close> has two elements.
\<close>

definition bank_valid_pins :: "nat \<Rightarrow> bytes \<Rightarrow> u32 result" where
  "bank_valid_pins i desc = get_le (2 + 6 * i + 2) 4 desc"

fun copy_valid_pins :: "bytes \<Rightarrow> nat list \<Rightarrow> u32 option list \<Rightarrow> u32 option list result" where
  "copy_valid_pins desc [] valid_pin = Inr valid_pin"
| "copy_valid_pins desc (i # is) valid_pin =
     bindF (bank_valid_pins i desc) (\<lambda>w.
     if i < length valid_pin then copy_valid_pins desc is (valid_pin[i := Some w])
     else Inl OutOfBounds)"

text \<open>
  \<open>bitmap_from_arr32\<close> for a bitmap of one 64-bit long: the first \<open>DIV_ROUND_UP(nbits, 32)\<close>
  words are read, and the bits from \<open>nbits\<close> on cleared.
\<close>

definition bitmap_from_arr32 :: "u32 option list \<Rightarrow> nat \<Rightarrow> u64 result" where
  "bitmap_from_arr32 buf nbits =
     (if nbits = 0 then Inr 0
      else bindF (assigned (buf ! 0)) (\<lambda>w0.
           if nbits \<le> 32 then Inr (take_bit nbits (ucast w0))
           else bindF (assigned (buf ! 1)) (\<lambda>w1.
                Inr (take_bit nbits (ucast w0 OR push_bit 32 (ucast w1))))))"

definition ljca_gpio_stub_init ::
  "'w usb_env \<Rightarrow> bytes \<Rightarrow> 'w ljca_dev \<Rightarrow> (int \<times> 'w ljca_dev) result" where
  "ljca_gpio_stub_init E desc d =
     bindF (load 0 2 desc) (\<lambda>hdr.
     let bank_num = unat (hdr ! 1); gpio_num = unat (hdr ! 0) * bank_num in
     if gpio_num > MAX_GPIO_NUM then Inr (- EINVAL, d)
     else
       (case ljca_stub_alloc E (Pdata_priv []) d of
          (Inl e, d) \<Rightarrow> Inr (e, d)
        | (Inr i, d) \<Rightarrow>
            let d = upd_stub i (\<lambda>s. s\<lparr>s_type := GPIO_STUB\<rparr>) d in
            bindF (copy_valid_pins desc [0..<bank_num] [None, None]) (\<lambda>valid_pin.
            bindF (bitmap_from_arr32 valid_pin gpio_num) (\<lambda>valid_pin_map.
            let pdata = \<lparr>pd_type = GPIO_STUB, pd_info = Gpio_info gpio_num valid_pin_map\<rparr>;
                d = upd_stub i (\<lambda>s. s\<lparr>s_priv := Pdata_priv [pdata]\<rparr>) d
            in ljca_add_mfd_cell E \<lparr>cell_name = ''ljca-gpio'', cell_pdata = pdata,
                                    cell_acpi_match = Some Match_gpio\<rparr> d))))"

text \<open>\<open>kzalloc(MAX_PAYLOAD_SIZE)\<close> for the descriptor, and the enumeration command.\<close>

definition enum_stub_write ::
  "'w usb_env \<Rightarrow> nat \<Rightarrow> u8 \<Rightarrow> nat \<Rightarrow> 'w ljca_dev \<Rightarrow> ((int \<times> nat option \<times> bytes) \<times> 'w ljca_dev) result" where
  "enum_stub_write E i cmd desc d =
     bindF (ljca_stub_write E i cmd [] (Some desc) True True USB_ENUM_STUB_TIMEOUT d)
       (\<lambda>((ret, len), d). bindF (heap_read desc d) (\<lambda>bs. Inr ((ret, len, bs), d)))"

definition ljca_mng_enum_gpio ::
  "'w usb_env \<Rightarrow> nat \<Rightarrow> 'w ljca_dev \<Rightarrow> (int \<times> 'w ljca_dev) result" where
  "ljca_mng_enum_gpio E i d =
     (let (ok, d) = kmalloc_ok E d in
      if \<not> ok then Inr (- ENOMEM, d)
      else
        let (desc, d) = heap_new (replicate MAX_PAYLOAD_SIZE 0) d in
        bindF (enum_stub_write E i MNG_ENUM_GPIO desc d) (\<lambda>((ret, len, bs), d).
        if ret \<noteq> 0 then Inr (- EIO, heap_free desc d)
        else bindF (assigned len) (\<lambda>n.
          if n \<noteq> 2 + unat (bs ! 1) * 6 then Inr (- EIO, heap_free desc d)
          else bindF (ljca_gpio_stub_init E bs d) (\<lambda>(ret, d). Inr (ret, heap_free desc d)))))"

subsection \<open>I2C and SPI\<close>

definition stub_push_pdata :: "nat \<Rightarrow> ljca_platform_data \<Rightarrow> 'w ljca_dev \<Rightarrow> 'w ljca_dev" where
  "stub_push_pdata i p d =
     upd_stub i (\<lambda>s. case s_priv s of Pdata_priv ps \<Rightarrow> s\<lparr>s_priv := Pdata_priv (ps @ [p])\<rparr> | _ \<Rightarrow> s) d"

text \<open>\<open>ljca_acpi_match_i2cs\<close> has two entries, \<open>ljca_acpi_match_spis\<close> one; later cells get NULL.\<close>

fun i2c_cells ::
  "'w usb_env \<Rightarrow> bytes \<Rightarrow> nat \<Rightarrow> nat list \<Rightarrow> 'w ljca_dev \<Rightarrow> (int \<times> 'w ljca_dev) result" where
  "i2c_cells E desc s [] d = Inr (0, d)"
| "i2c_cells E desc s (i # is) d =
     bindF (load (1 + 3 * i) 3 desc) (\<lambda>info.
     let pdata = \<lparr>pd_type = I2C_STUB, pd_info = I2c_info (info ! 0) (info ! 1) (info ! 2)\<rparr>;
         d = stub_push_pdata s pdata d in
     bindF (ljca_add_mfd_cell E \<lparr>cell_name = ''ljca-i2c'', cell_pdata = pdata,
              cell_acpi_match = (if i < 2 then Some (Match_i2c i) else None)\<rparr> d) (\<lambda>(ret, d).
     if ret \<noteq> 0 then Inr (ret, d) else i2c_cells E desc s is d))"

definition ljca_i2c_stub_init ::
  "'w usb_env \<Rightarrow> bytes \<Rightarrow> 'w ljca_dev \<Rightarrow> (int \<times> 'w ljca_dev) result" where
  "ljca_i2c_stub_init E desc d =
     bindF (load 0 1 desc) (\<lambda>hdr.
     (case ljca_stub_alloc E (Pdata_priv []) d of
        (Inl e, d) \<Rightarrow> Inr (e, d)
      | (Inr i, d) \<Rightarrow>
          i2c_cells E desc i [0..<unat (hdr ! 0)] (upd_stub i (\<lambda>s. s\<lparr>s_type := I2C_STUB\<rparr>) d)))"

definition ljca_mng_enum_i2c ::
  "'w usb_env \<Rightarrow> nat \<Rightarrow> 'w ljca_dev \<Rightarrow> (int \<times> 'w ljca_dev) result" where
  "ljca_mng_enum_i2c E i d =
     (let (ok, d) = kmalloc_ok E d in
      if \<not> ok then Inr (- ENOMEM, d)
      else
        let (desc, d) = heap_new (replicate MAX_PAYLOAD_SIZE 0) d in
        bindF (enum_stub_write E i MNG_ENUM_I2C desc d) (\<lambda>((ret, len, bs), d).
        if ret \<noteq> 0 then Inr (- EIO, heap_free desc d)
        else bindF (ljca_i2c_stub_init E bs d) (\<lambda>(ret, d). Inr (ret, heap_free desc d))))"

fun spi_cells ::
  "'w usb_env \<Rightarrow> bytes \<Rightarrow> nat \<Rightarrow> nat list \<Rightarrow> 'w ljca_dev \<Rightarrow> (int \<times> 'w ljca_dev) result" where
  "spi_cells E desc s [] d = Inr (0, d)"
| "spi_cells E desc s (i # is) d =
     bindF (load (1 + 2 * i) 2 desc) (\<lambda>info.
     let pdata = \<lparr>pd_type = SPI_STUB, pd_info = Spi_info (info ! 0) (info ! 1)\<rparr>;
         d = stub_push_pdata s pdata d in
     bindF (ljca_add_mfd_cell E \<lparr>cell_name = ''ljca-spi'', cell_pdata = pdata,
              cell_acpi_match = (if i < 1 then Some (Match_spi i) else None)\<rparr> d) (\<lambda>(ret, d).
     if ret \<noteq> 0 then Inr (ret, d) else spi_cells E desc s is d))"

definition ljca_spi_stub_init ::
  "'w usb_env \<Rightarrow> bytes \<Rightarrow> 'w ljca_dev \<Rightarrow> (int \<times> 'w ljca_dev) result" where
  "ljca_spi_stub_init E desc d =
     bindF (load 0 1 desc) (\<lambda>hdr.
     (case ljca_stub_alloc E (Pdata_priv []) d of
        (Inl e, d) \<Rightarrow> Inr (e, d)
      | (Inr i, d) \<Rightarrow>
          spi_cells E desc i [0..<unat (hdr ! 0)] (upd_stub i (\<lambda>s. s\<lparr>s_type := SPI_STUB\<rparr>) d)))"

definition ljca_mng_enum_spi ::
  "'w usb_env \<Rightarrow> nat \<Rightarrow> 'w ljca_dev \<Rightarrow> (int \<times> 'w ljca_dev) result" where
  "ljca_mng_enum_spi E i d =
     (let (ok, d) = kmalloc_ok E d in
      if \<not> ok then Inr (- ENOMEM, d)
      else
        let (desc, d) = heap_new (replicate MAX_PAYLOAD_SIZE 0) d in
        bindF (enum_stub_write E i MNG_ENUM_SPI desc d) (\<lambda>((ret, len, bs), d).
        if ret \<noteq> 0 then Inr (- EIO, heap_free desc d)
        else bindF (ljca_spi_stub_init E bs d) (\<lambda>(ret, d). Inr (ret, heap_free desc d))))"

subsection \<open>Version, firmware update, link\<close>

text \<open>
  \<open>buf\<close> says whether a buffer is passed.  The result holds the return code and what was printed
  into the buffer, \<open>None\<close> where nothing was.
\<close>

definition ljca_mng_get_version ::
  "'w usb_env \<Rightarrow> nat \<Rightarrow> bool \<Rightarrow> 'w ljca_dev \<Rightarrow> ((int \<times> string option) \<times> 'w ljca_dev) result" where
  "ljca_mng_get_version E i buf d =
     (if \<not> buf then Inr ((- EINVAL, None), d)
      else
        let (version, d) = heap_new (replicate 6 0) d in
        bindF (ljca_stub_write E i MNG_GET_VERSION [] (Some version) True True USB_WRITE_ACK_TIMEOUT d)
          (\<lambda>((ret, len), d).
        bindF (heap_read version d) (\<lambda>v.
        if ret \<noteq> 0 then Inr ((ret, None), heap_free version d)
        else bindF (assigned len) (\<lambda>n.
          if n < 6 then Inr ((ret, None), heap_free version d)
          else
            let s = dec (unat (v ! 0)) @ ''.'' @ dec (unat (v ! 1)) @ ''.'' @
                    dec (unat (word_of_le (take 2 (drop 2 v)) :: u16)) @ ''.'' @
                    dec (unat (word_of_le (take 2 (drop 4 v)) :: u16)) @ [CHR 0x0A]
            in Inr ((int (length s), Some s), heap_free version d)))))"

definition ljca_mng_set_dfu_mode ::
  "'w usb_env \<Rightarrow> nat \<Rightarrow> 'w ljca_dev \<Rightarrow> (int \<times> 'w ljca_dev) result" where
  "ljca_mng_set_dfu_mode E i d =
     bindF (ljca_stub_write E i MNG_SET_DFU_MODE [] None False True USB_WRITE_ACK_TIMEOUT d)
       (\<lambda>((ret, _), d). Inr (ret, d))"

definition ljca_mng_link ::
  "'w usb_env \<Rightarrow> nat \<Rightarrow> 'w ljca_dev \<Rightarrow> (int \<times> 'w ljca_dev) result" where
  "ljca_mng_link E i d =
     bindF (ljca_mng_reset_handshake E i d) (\<lambda>(ret, d).
     if ret \<noteq> 0 then Inr (ret, d)
     else
       bindF (ljca_mng_enum_gpio E i (d\<lparr>d_state := LJCA_RESET_SYNCED\<rparr>)) (\<lambda>(_, d).
       bindF (ljca_mng_enum_i2c E i (d\<lparr>d_state := LJCA_ENUM_GPIO_COMPLETE\<rparr>)) (\<lambda>(_, d).
       bindF (ljca_mng_enum_spi E i (d\<lparr>d_state := LJCA_ENUM_I2C_COMPLETE\<rparr>)) (\<lambda>(_, d).
       Inr (0, d\<lparr>d_state := LJCA_ENUM_SPI_COMPLETE\<rparr>)))))"

definition ljca_mng_init :: "'w usb_env \<Rightarrow> 'w ljca_dev \<Rightarrow> (int \<times> 'w ljca_dev) result" where
  "ljca_mng_init E d =
     (case ljca_stub_alloc E (Mng_priv 0) d of
        (Inl e, d) \<Rightarrow> Inr (e, d)
      | (Inr i, d) \<Rightarrow> ljca_mng_link E i (upd_stub i (\<lambda>s. s\<lparr>s_type := MNG_STUB\<rparr>) d))"

section \<open>Diagnostic stub\<close>

abbreviation DIAG_SET_TRACE_LEVEL :: u8 where "DIAG_SET_TRACE_LEVEL \<equiv> 3"
abbreviation DIAG_GET_FW_LOG :: u8 where "DIAG_GET_FW_LOG \<equiv> 5"
abbreviation DIAG_GET_FW_COREDUMP :: u8 where "DIAG_GET_FW_COREDUMP \<equiv> 6"

definition ljca_diag_get_fw_log ::
  "'w usb_env \<Rightarrow> nat \<Rightarrow> nat option \<Rightarrow> 'w ljca_dev \<Rightarrow> (int \<times> 'w ljca_dev) result" where
  "ljca_diag_get_fw_log E i buf d =
     (if buf = None then Inr (- EINVAL, d)
      else bindF (ljca_stub_write E i DIAG_GET_FW_LOG [] buf True True USB_WRITE_ACK_TIMEOUT d)
        (\<lambda>((ret, len), d). if ret \<noteq> 0 then Inr (ret, d)
                           else bindF (assigned len) (\<lambda>n. Inr (int n, d))))"

definition ljca_diag_get_coredump ::
  "'w usb_env \<Rightarrow> nat \<Rightarrow> nat option \<Rightarrow> 'w ljca_dev \<Rightarrow> (int \<times> 'w ljca_dev) result" where
  "ljca_diag_get_coredump E i buf d =
     (if buf = None then Inr (- EINVAL, d)
      else bindF (ljca_stub_write E i DIAG_GET_FW_COREDUMP [] buf True True USB_WRITE_ACK_TIMEOUT d)
        (\<lambda>((ret, len), d). if ret \<noteq> 0 then Inr (ret, d)
                           else bindF (assigned len) (\<lambda>n. Inr (int n, d))))"

definition ljca_diag_set_trace_level ::
  "'w usb_env \<Rightarrow> nat \<Rightarrow> u8 \<Rightarrow> 'w ljca_dev \<Rightarrow> (int \<times> 'w ljca_dev) result" where
  "ljca_diag_set_trace_level E i level d =
     bindF (ljca_stub_write E i DIAG_SET_TRACE_LEVEL [level] None False True USB_WRITE_ACK_TIMEOUT d)
       (\<lambda>((ret, _), d). Inr (ret, d))"

definition ljca_diag_init :: "'w usb_env \<Rightarrow> 'w ljca_dev \<Rightarrow> int \<times> 'w ljca_dev" where
  "ljca_diag_init E d =
     (case ljca_stub_alloc E No_priv d of
        (Inl e, d) \<Rightarrow> (e, d)
      | (Inr i, d) \<Rightarrow> (0, upd_stub i (\<lambda>s. s\<lparr>s_type := DIAG_STUB\<rparr>) d))"

section \<open>Attributes\<close>

text \<open>
  \<open>ljca_stub_find\<close> returns an error pointer for a stub that does not exist; the attributes pass
  it on, and \<open>ljca_stub_write\<close> dereferences it.
\<close>

definition stub_ptr :: "int + nat \<Rightarrow> nat result" where
  "stub_ptr p = (case p of Inl e \<Rightarrow> Inl NullDeref | Inr i \<Rightarrow> Inr i)"

text \<open>\<open>sysfs_streq\<close>: equality up to one trailing newline.\<close>

definition sysfs_streq :: "string \<Rightarrow> string \<Rightarrow> bool" where
  "sysfs_streq a b \<longleftrightarrow> a = b \<or> a = b @ [CHR 0x0A] \<or> b = a @ [CHR 0x0A]"

definition cmd_store :: "'w usb_env \<Rightarrow> string \<Rightarrow> nat \<Rightarrow> 'w ljca_dev \<Rightarrow> (int \<times> 'w ljca_dev) result" where
  "cmd_store E buf count d =
     (let mng_stub = ljca_stub_find d MNG_STUB; diag_stub = ljca_stub_find d DIAG_STUB in
      bindF (if sysfs_streq buf ''dfu'' then bindF (stub_ptr mng_stub) (\<lambda>i. ljca_mng_set_dfu_mode E i d)
             else if sysfs_streq buf ''reset'' then bindF (stub_ptr mng_stub) (\<lambda>i. ljca_mng_reset E i d)
             else if sysfs_streq buf ''debug'' then
               bindF (stub_ptr diag_stub) (\<lambda>i. ljca_diag_set_trace_level E i 3 d)
             else Inr (0, d)) (\<lambda>(_, d). Inr (int count, d)))"

definition cmd_show :: "int \<times> string" where
  "cmd_show = (let s = ''supported cmd: [dfu, reset, debug]'' @ [CHR 0x0A] in (int (length s), s))"

definition version_show ::
  "'w usb_env \<Rightarrow> 'w ljca_dev \<Rightarrow> ((int \<times> string option) \<times> 'w ljca_dev) result" where
  "version_show E d =
     bindF (stub_ptr (ljca_stub_find d MNG_STUB)) (\<lambda>i. ljca_mng_get_version E i True d)"

definition log_show :: "'w usb_env \<Rightarrow> nat \<Rightarrow> 'w ljca_dev \<Rightarrow> (int \<times> 'w ljca_dev) result" where
  "log_show E buf d =
     bindF (stub_ptr (ljca_stub_find d DIAG_STUB)) (\<lambda>i. ljca_diag_get_fw_log E i (Some buf) d)"

definition coredump_show :: "'w usb_env \<Rightarrow> nat \<Rightarrow> 'w ljca_dev \<Rightarrow> (int \<times> 'w ljca_dev) result" where
  "coredump_show E buf d =
     bindF (stub_ptr (ljca_stub_find d DIAG_STUB)) (\<lambda>i. ljca_diag_get_coredump E i (Some buf) d)"

section \<open>Driver entry points\<close>

text \<open>
  \<open>kzalloc\<close> and \<open>ljca_init\<close>: a device with no stubs, no cells and no transfer buffer.
  \<open>usb_kill_urb\<close> leaves the URB idle.
\<close>

definition ljca_init :: "acpi_matches \<Rightarrow> 'w \<Rightarrow> 'w ljca_dev" where
  "ljca_init m w =
     \<lparr>d_state = LJCA_INITED, d_stubs = [], d_cells = [], d_acpi = m, d_ibuf = [],
      d_rx_active = False, d_mutex = False, d_pm = 0, d_heap = (\<lambda>b. None), d_next = 0,
      d_events = [], d_sent = [], d_env = w\<rparr>"

definition ljca_stop :: "'w ljca_dev \<Rightarrow> 'w ljca_dev" where
  "ljca_stop d = d\<lparr>d_rx_active := False\<rparr>"

definition ljca_delete :: "'w ljca_dev \<Rightarrow> 'w ljca_dev" where
  "ljca_delete d = d\<lparr>d_ibuf := [], d_cells := []\<rparr>"

definition probe_error :: "int \<Rightarrow> 'w ljca_dev \<Rightarrow> (int \<times> 'w ljca_dev option) result" where
  "probe_error ret d = Inr (ret, Some (ljca_delete (ljca_stub_cleanup d)))"

definition probe_error_stop :: "int \<Rightarrow> 'w ljca_dev \<Rightarrow> (int \<times> 'w ljca_dev option) result" where
  "probe_error_stop ret d = probe_error ret (ljca_stop d)"

text \<open>From \<open>ljca_start\<close> on: the stubs, the cells, and the hand-over to the MFD core.\<close>

definition probe_bringup :: "'w usb_env \<Rightarrow> 'w ljca_dev \<Rightarrow> (int \<times> 'w ljca_dev option) result" where
  "probe_bringup E d =
     (let (ret, d) = ljca_start E d in
      if ret \<noteq> 0 then probe_error ret d
      else bindF (ljca_mng_init E d) (\<lambda>(ret, d).
        if ret \<noteq> 0 then probe_error_stop ret d
        else
          let (ret, d) = ljca_diag_init E d in
          if ret \<noteq> 0 then probe_error_stop ret d
          else
            let (ret, w) = mfd_add E (d_cells d) (d_env d); d = d\<lparr>d_env := w\<rparr> in
            if ret \<noteq> 0 then probe_error_stop ret d
            else Inr (0, Some (d\<lparr>d_state := LJCA_STARTED\<rparr>))))"

text \<open>
  \<open>eps\<close> is the answer of \<open>usb_find_common_endpoints\<close> with the packet size of the bulk-in
  endpoint.  The device returned is the live one, or the released one after a failure.
\<close>

definition ljca_probe ::
  "'w usb_env \<Rightarrow> bool \<Rightarrow> acpi_parent \<Rightarrow> acpi_parent \<Rightarrow> int \<times> nat \<Rightarrow> acpi_matches \<Rightarrow> 'w
   \<Rightarrow> (int \<times> 'w ljca_dev option) result" where
  "ljca_probe E v6 p0 p1 eps m w =
     bindF (precheck_acpi_hid v6 p0 p1 m 0) (\<lambda>(ret, m, parent).
     if ret \<noteq> 0 then Inr (ret, None)
     else
       let (ok, w) = usb_alloc E w in
       if \<not> ok then Inr (- ENOMEM, None)
       else
         let d = ljca_init m w; (ret, maxp) = eps in
         if ret \<noteq> 0 then probe_error ret d
         else
           let (ok, d) = kmalloc_ok E d in
           if \<not> ok then probe_error (- ENOMEM) d
           else
             let (ok, d) = kmalloc_ok E (d\<lparr>d_ibuf := replicate maxp 0\<rparr>) in
             if \<not> ok then probe_error (- ENOMEM) d else probe_bringup E d)"

definition ljca_disconnect :: "'w ljca_dev \<Rightarrow> 'w ljca_dev" where
  "ljca_disconnect d =
     ljca_delete (ljca_stub_cleanup ((ljca_stop d)\<lparr>d_state := LJCA_STOPPED\<rparr>))"

definition ljca_suspend :: "'w ljca_dev \<Rightarrow> int \<times> 'w ljca_dev" where
  "ljca_suspend d = (0, (ljca_stop d)\<lparr>d_state := LJCA_SUSPEND\<rparr>)"

definition ljca_resume :: "'w usb_env \<Rightarrow> 'w ljca_dev \<Rightarrow> int \<times> 'w ljca_dev" where
  "ljca_resume E d = ljca_start E (d\<lparr>d_state := LJCA_STARTED\<rparr>)"

section \<open>Frames\<close>

definition grows :: "u8 \<Rightarrow> 'w ljca_dev \<Rightarrow> 'w ljca_dev \<Rightarrow> bool" where
  "grows T d d' \<longleftrightarrow>
     (map s_type (d_stubs d') = map s_type (d_stubs d) \<or>
      map s_type (d_stubs d') = map s_type (d_stubs d) @ [T]) \<and>
     d_pm d' = d_pm d \<and> (\<not> d_mutex d \<longrightarrow> \<not> d_mutex d') \<and> d_state d' = d_state d \<and>
     length (d_ibuf d') = length (d_ibuf d)"

definition quiet :: "'w ljca_dev \<Rightarrow> 'w ljca_dev \<Rightarrow> bool" where
  "quiet d d' \<longleftrightarrow>
     map s_type (d_stubs d') = map s_type (d_stubs d) \<and> d_pm d' = d_pm d \<and>
     (\<not> d_mutex d \<longrightarrow> \<not> d_mutex d') \<and> d_state d' = d_state d \<and>
     length (d_ibuf d') = length (d_ibuf d)"

lemma quiet_refl [simp]: "quiet d d"
  by (simp add: quiet_def)

lemma quiet_trans [trans]: "quiet d d' \<Longrightarrow> quiet d' d'' \<Longrightarrow> quiet d d''"
  by (auto simp: quiet_def)

lemma grows_quiet: "quiet d d' \<Longrightarrow> grows T d d'"
  by (auto simp: quiet_def grows_def)

lemma grows_pre [trans]: "quiet d d' \<Longrightarrow> grows T d' d'' \<Longrightarrow> grows T d d''"
  by (auto simp: quiet_def grows_def)

lemma grows_post [trans]: "grows T d d' \<Longrightarrow> quiet d' d'' \<Longrightarrow> grows T d d''"
  by (auto simp: quiet_def grows_def)

lemma quiet_op: "op_frame d d' \<Longrightarrow> quiet d d'"
  by (simp add: quiet_def op_frame_def)

lemma quiet_stub_write:
  "ljca_stub_write E i cmd obuf ibuf want ack t d = Inr (x, d') \<Longrightarrow> quiet d d'"
  by (cases x) (auto intro: quiet_op ljca_stub_write_frame)

lemma quiet_heap [simp]:
  "quiet d (heap_free b d') = quiet d d'" "quiet (heap_free b d) d' = quiet d d'"
  by (simp_all add: quiet_def heap_free_def)

lemma quiet_heap_new: "heap_new bs d = (b, d') \<Longrightarrow> quiet d d'"
  by (auto simp: heap_new_def quiet_def)

lemma quiet_kmalloc: "kmalloc_ok E d = (ok, d') \<Longrightarrow> quiet d d'"
  by (auto simp: kmalloc_ok_def quiet_def split: prod.splits)

lemma quiet_upd: "(\<And>s. s_type (f s) = s_type s) \<Longrightarrow> quiet d (upd_stub i f d)"
  by (simp add: quiet_def upd_stub_map_key)

lemma quiet_push: "quiet d (stub_push_pdata i p d)"
  unfolding stub_push_pdata_def by (rule quiet_upd) (auto split: ljca_priv.splits)

lemma quiet_add_cell: "ljca_add_mfd_cell E cell d = Inr (r, d') \<Longrightarrow> quiet d d'"
  by (auto simp: ljca_add_mfd_cell_def bindF_eq_Inr kmalloc_ok_def quiet_def split: prod.splits if_splits)

lemma quiet_handshake:
  assumes "ljca_mng_reset_handshake E i d = Inr (r, d')"
  shows "quiet d d'"
proof -
  have a: "quiet d d2" if "heap_new bs (upd_stub i (\<lambda>s. s\<lparr>s_priv := p\<rparr>) d) = (b, d1)"
    "ljca_stub_write E i cmd obuf ibuf want ack t d1 = Inr (x, d2)" for bs b d1 d2 p cmd obuf ibuf want ack t x
    using quiet_trans [OF quiet_upd quiet_trans [OF quiet_heap_new [OF that(1)] quiet_stub_write [OF that(2)]]]
    by simp
  show ?thesis
    using assms
    by (auto simp: ljca_mng_reset_handshake_def Let_def bindF_eq_Inr split: ljca_priv.splits prod.splits
        if_splits dest: a)
qed

lemma grows_alloc:
  assumes "ljca_stub_alloc E p d = (Inr j, d1)"
  shows "grows T d (upd_stub j (\<lambda>s. s\<lparr>s_type := T\<rparr>) d1) \<and> j = length (d_stubs d)"
  using assms
  by (auto simp: ljca_stub_alloc_def kmalloc_ok_def grows_def upd_stub_def Let_def
      split: prod.splits if_splits)

lemma quiet_alloc_fail: "ljca_stub_alloc E p d = (Inl e, d1) \<Longrightarrow> quiet d d1"
  by (auto simp: ljca_stub_alloc_def kmalloc_ok_def quiet_def Let_def split: prod.splits if_splits)

lemma quiet_i2c_cells: "i2c_cells E desc s is d = Inr (r, d') \<Longrightarrow> quiet d d'"
proof (induction "is" arbitrary: d)
  case Nil
  then show ?case by simp
next
  case (Cons i "is")
  have step: "quiet d d2" if "ljca_add_mfd_cell E c (stub_push_pdata s p d) = Inr (r', d2)" for c p r' d2
    using quiet_trans [OF quiet_push quiet_add_cell [OF that]] .
  show ?case
    using Cons.prems
    by (auto simp: bindF_eq_Inr Let_def split: if_splits dest!: step Cons.IH intro: quiet_trans)
qed

lemma quiet_spi_cells: "spi_cells E desc s is d = Inr (r, d') \<Longrightarrow> quiet d d'"
proof (induction "is" arbitrary: d)
  case Nil
  then show ?case by simp
next
  case (Cons i "is")
  have step: "quiet d d2" if "ljca_add_mfd_cell E c (stub_push_pdata s p d) = Inr (r', d2)" for c p r' d2
    using quiet_trans [OF quiet_push quiet_add_cell [OF that]] .
  show ?case
    using Cons.prems
    by (auto simp: bindF_eq_Inr Let_def split: if_splits dest!: step Cons.IH intro: quiet_trans)
qed

lemma grows_gpio_init:
  assumes "ljca_gpio_stub_init E desc d = Inr (r, d')"
  shows "grows GPIO_STUB d d'"
proof -
  obtain x d1 where alloc: "ljca_stub_alloc E (Pdata_priv []) d = (x, d1)" by force
  show ?thesis
  proof (cases x)
    case (Inl e)
    then have "d' = d1 \<or> d' = d"
      using assms alloc by (auto simp: ljca_gpio_stub_init_def bindF_eq_Inr Let_def split: if_splits)
    then show ?thesis using grows_quiet quiet_alloc_fail quiet_refl alloc Inl by metis
  next
    case (Inr j)
    let ?d2 = "upd_stub j (\<lambda>s. s\<lparr>s_type := GPIO_STUB\<rparr>) d1"
    have "d' = d \<or> (\<exists>c q. ljca_add_mfd_cell E c (upd_stub j (\<lambda>s. s\<lparr>s_priv := q\<rparr>) ?d2) = Inr (r, d'))"
      using assms alloc Inr
      by (auto simp: ljca_gpio_stub_init_def bindF_eq_Inr Let_def split: if_splits)
    moreover have "quiet ?d2 (upd_stub j (\<lambda>s. s\<lparr>s_priv := q\<rparr>) ?d2)" for q
      by (rule quiet_upd) simp
    moreover have "grows GPIO_STUB d ?d2" using grows_alloc alloc Inr by metis
    ultimately show ?thesis using grows_post quiet_add_cell grows_quiet quiet_refl by metis
  qed
qed

lemma grows_i2c_init:
  assumes "ljca_i2c_stub_init E desc d = Inr (r, d')"
  shows "grows I2C_STUB d d'"
proof -
  obtain x d1 where alloc: "ljca_stub_alloc E (Pdata_priv []) d = (x, d1)" by force
  show ?thesis
  proof (cases x)
    case (Inl e)
    then have "d' = d1" using assms alloc by (auto simp: ljca_i2c_stub_init_def bindF_eq_Inr)
    then show ?thesis using grows_quiet quiet_alloc_fail alloc Inl by metis
  next
    case (Inr j)
    then obtain n where
      "i2c_cells E desc j n (upd_stub j (\<lambda>s. s\<lparr>s_type := I2C_STUB\<rparr>) d1) = Inr (r, d')"
      using assms alloc by (auto simp: ljca_i2c_stub_init_def bindF_eq_Inr)
    then show ?thesis using grows_post quiet_i2c_cells grows_alloc alloc Inr by metis
  qed
qed

lemma grows_spi_init:
  assumes "ljca_spi_stub_init E desc d = Inr (r, d')"
  shows "grows SPI_STUB d d'"
proof -
  obtain x d1 where alloc: "ljca_stub_alloc E (Pdata_priv []) d = (x, d1)" by force
  show ?thesis
  proof (cases x)
    case (Inl e)
    then have "d' = d1" using assms alloc by (auto simp: ljca_spi_stub_init_def bindF_eq_Inr)
    then show ?thesis using grows_quiet quiet_alloc_fail alloc Inl by metis
  next
    case (Inr j)
    then obtain n where
      "spi_cells E desc j n (upd_stub j (\<lambda>s. s\<lparr>s_type := SPI_STUB\<rparr>) d1) = Inr (r, d')"
      using assms alloc by (auto simp: ljca_spi_stub_init_def bindF_eq_Inr)
    then show ?thesis using grows_post quiet_spi_cells grows_alloc alloc Inr by metis
  qed
qed

lemma quiet_enum_write:
  assumes "kmalloc_ok E d = (True, d1)" and "heap_new bs d1 = (b, d2)"
    and "enum_stub_write E i cmd b d2 = Inr (x, d3)"
  shows "quiet d d3"
proof -
  have "quiet d2 d3" using assms(3)
    by (auto simp: enum_stub_write_def bindF_eq_Inr dest: quiet_stub_write)
  then show ?thesis
    using quiet_trans [OF quiet_kmalloc [OF assms(1)] quiet_trans [OF quiet_heap_new [OF assms(2)]]] by blast
qed

lemma grows_heap [simp]: "grows T d (heap_free b d') = grows T d d'"
  by (simp add: grows_def heap_free_def)

lemma grows_enum:
  assumes "kmalloc_ok E d = (True, d1)" and "heap_new bs d1 = (b, d2)"
    and "enum_stub_write E i cmd b d2 = Inr (x, d3)" and "grows T d3 d4"
  shows "grows T d d4"
  using grows_pre [OF quiet_enum_write [OF assms(1-3)] assms(4)] .

lemma grows_enum_gpio: "ljca_mng_enum_gpio E i d = Inr (r, d') \<Longrightarrow> grows GPIO_STUB d d'"
  by (auto simp: ljca_mng_enum_gpio_def bindF_eq_Inr Let_def split: prod.splits if_splits)
    (metis grows_enum grows_gpio_init grows_quiet quiet_enum_write quiet_kmalloc)+

lemma grows_enum_i2c: "ljca_mng_enum_i2c E i d = Inr (r, d') \<Longrightarrow> grows I2C_STUB d d'"
  by (auto simp: ljca_mng_enum_i2c_def bindF_eq_Inr Let_def split: prod.splits if_splits)
    (metis grows_enum grows_i2c_init grows_quiet quiet_enum_write quiet_kmalloc)+

lemma grows_enum_spi: "ljca_mng_enum_spi E i d = Inr (r, d') \<Longrightarrow> grows SPI_STUB d d'"
  by (auto simp: ljca_mng_enum_spi_def bindF_eq_Inr Let_def split: prod.splits if_splits)
    (metis grows_enum grows_spi_init grows_quiet quiet_enum_write quiet_kmalloc)+

section \<open>Properties\<close>

text \<open>The state in which the handshake calls \<open>ljca_stub_write\<close>.\<close>

definition handshake_dev :: "nat \<Rightarrow> u64 \<Rightarrow> 'w ljca_dev \<Rightarrow> 'w ljca_dev" where
  "handshake_dev i rid d =
     snd (heap_new (le_bytes 4 (0 :: u32)) (upd_stub i (\<lambda>s. s\<lparr>s_priv := Mng_priv (rid + 1)\<rparr>) d))"

text \<open>
  The reset handshake.  It returns 0 only if the device, while the driver slept, acknowledged
  \<open>MNG_RESET_NOTIFY\<close> with exactly the four bytes of the reset id that was sent (the low 32 bits
  of the counter); every other outcome is \<open>-EIO\<close>; and the counter advances by one either way.
\<close>

lemma reset_handshake_echo:
  assumes "ljca_mng_reset_handshake E i d = Inr (r, d')"
    and "i < length (d_stubs d)" and "s_priv (d_stubs d ! i) = Mng_priv rid"
    and "\<forall>s\<in>set (d_stubs d). \<forall>b. s_ibuf s = Some b \<longrightarrow> b < d_next d"
  shows "(r = 0 \<or> r = - EIO) \<and> s_priv (d_stubs d' ! i) = Mng_priv (rid + 1) \<and>
    (r = 0 \<longrightarrow> (\<exists>u m.
       u \<in> set (fst (usb_recv E USB_WRITE_ACK_TIMEOUT
                      (sleep_env E i MNG_RESET_NOTIFY (le_bytes 4 (ucast rid :: u32)) (handshake_dev i rid d)))) \<and>
       is_ack (s_type (d_stubs d ! i)) (uint MNG_RESET_NOTIFY) u m \<and>
       msg_data m = le_bytes 4 (ucast rid :: u32)))"
proof -
  let ?id = "ucast rid :: u32" and ?d1 = "handshake_dev i rid d" and ?b = "d_next d"
  have d1: "d_stubs ?d1 = (d_stubs d)[i := (d_stubs d ! i)\<lparr>s_priv := Mng_priv (rid + 1)\<rparr>]"
    by (simp add: handshake_dev_def heap_new_def upd_stub_def)
  obtain ret l d2 where w: "ljca_stub_write E i MNG_RESET_NOTIFY (le_bytes 4 ?id) (Some ?b) True True
      USB_WRITE_ACK_TIMEOUT ?d1 = Inr ((ret, l), d2)"
    and rest: "bindF (heap_read ?b d2) (\<lambda>reset_id_ret.
          if ret \<noteq> 0 then Inr (- EIO, heap_free ?b d2)
          else bindF (assigned l) (\<lambda>n.
            if n \<noteq> 4 \<or> (word_of_le reset_id_ret :: u32) \<noteq> ?id
            then Inr (- EIO, heap_free ?b d2) else Inr (0, heap_free ?b d2))) = Inr (r, d')"
    using assms(1,3)
    by (auto simp: ljca_mng_reset_handshake_def Let_def bindF_eq_Inr heap_new_def handshake_dev_def
        cong: if_cong)
  have i1: "i < length (d_stubs ?d1)" using assms(2) d1 by simp
  have frame: "op_frame ?d1 d2" by (rule ljca_stub_write_frame [OF w])
  have d': "d' = heap_free ?b d2" "r = 0 \<or> r = - EIO"
    using rest by (auto simp: bindF_eq_Inr split: if_splits)
  have "s_priv (d_stubs d2 ! i) = s_priv (d_stubs ?d1 ! i)"
    using frame i1 nth_map [of i "d_stubs d2" s_priv] nth_map [of i "d_stubs ?d1" s_priv]
    by (metis op_frame_def map_eq_imp_length_eq)
  then have priv: "s_priv (d_stubs d' ! i) = Mng_priv (rid + 1)"
    using d' d1 assms(2) by (simp add: heap_free_def)
  have echo: "\<exists>u m. u \<in> set (fst (usb_recv E USB_WRITE_ACK_TIMEOUT
                      (sleep_env E i MNG_RESET_NOTIFY (le_bytes 4 ?id) ?d1))) \<and>
       is_ack (s_type (d_stubs d ! i)) (uint MNG_RESET_NOTIFY) u m \<and> msg_data m = le_bytes 4 ?id"
    if r0: "r = 0"
  proof -
    obtain bs where bs: "heap_read ?b d2 = Inr bs" "ret = 0" "l = Some 4" "word_of_le bs = ?id"
      using rest [unfolded r0] by (auto simp: bindF_eq_Inr split: if_splits)
    have "\<forall>j<length (d_stubs ?d1). j \<noteq> i \<longrightarrow> s_ibuf (d_stubs ?d1 ! j) \<noteq> Some ?b"
      using assms(4) d1 by (auto simp: nth_list_update)
    from ljca_stub_write_reply [OF w [unfolded bs] i1 this]
    obtain u m buf where u: "u \<in> set (fst (usb_recv E USB_WRITE_ACK_TIMEOUT
          (sleep_env E i MNG_RESET_NOTIFY (le_bytes 4 ?id) ?d1)))"
      "is_ack (s_type (d_stubs ?d1 ! i)) (uint MNG_RESET_NOTIFY) u m"
      "d_heap d2 ?b = Some buf" "take 4 buf = msg_data m"
      by auto
    have "heap_sizes d2 ?b = heap_sizes ?d1 ?b" using frame by (simp add: op_frame_def)
    then have "length buf = 4"
      using u(3) by (simp add: heap_sizes_def handshake_dev_def heap_new_def)
    moreover have "buf = bs" using bs(1) u(3) by (simp add: heap_read_def)
    ultimately have "msg_data m = le_bytes 4 ?id"
      using u(4) bs(4) le_bytes_word_of_le [of bs 4, where 'a = 32] by simp
    then show ?thesis using u(1,2) d1 assms(2) by auto
  qed
  show ?thesis using d'(2) priv echo by blast
qed

text \<open>A management stub with reset id 7 whose acknowledge is on its way.\<close>

definition mng_dev :: "urb list list \<Rightarrow> urb list list ljca_dev" where
  "mng_dev w = (blank_dev w)\<lparr>d_stubs := [(new_stub (Mng_priv 7))\<lparr>s_type := MNG_STUB\<rparr>]\<rparr>"

definition mng_ack :: "u8 \<Rightarrow> bytes \<Rightarrow> urb" where
  "mng_ack cmd bs =
     urb_of \<lparr>msg_type = MNG_STUB, msg_cmd = cmd, msg_flags = 5, msg_len = of_nat (length bs), msg_data = bs\<rparr>"

text \<open>An environment in which no allocation fails, and one step of the cell table.\<close>

definition alloc_never_fails :: "'w usb_env \<Rightarrow> bool" where
  "alloc_never_fails E \<longleftrightarrow> (\<forall>w. fst (usb_alloc E w))"

lemma scripted_alloc [simp]: "alloc_never_fails scripted_usb"
  by (simp add: alloc_never_fails_def scripted_usb_def)

lemma kmalloc_never_fails:
  assumes "alloc_never_fails E"
  obtains w where "kmalloc_ok E d = (True, d\<lparr>d_env := w\<rparr>)"
proof -
  have "fst (usb_alloc E (d_env d))" using assms by (simp add: alloc_never_fails_def)
  then have "kmalloc_ok E d = (True, d\<lparr>d_env := snd (usb_alloc E (d_env d))\<rparr>)"
    by (cases "usb_alloc E (d_env d)") (simp add: kmalloc_ok_def)
  then show ?thesis by (rule that)
qed

lemma stub_alloc_ok:
  assumes "alloc_never_fails E"
  obtains d1 where "ljca_stub_alloc E p d = (Inr (length (d_stubs d)), d1)"
    and "d_stubs d1 = d_stubs d @ [new_stub p]" and "d_cells d1 = d_cells d"
proof -
  obtain w where "kmalloc_ok E d = (True, d\<lparr>d_env := w\<rparr>)" using kmalloc_never_fails [OF assms] .
  then have "ljca_stub_alloc E p d =
      (Inr (length (d_stubs d)), d\<lparr>d_env := w, d_stubs := d_stubs d @ [new_stub p]\<rparr>)"
    by (simp add: ljca_stub_alloc_def)
  then show ?thesis by (rule that) simp_all
qed

lemma add_cell_ok:
  assumes "alloc_never_fails E" and "cell_acpi_match c \<noteq> None"
  shows "\<exists>d'. ljca_add_mfd_cell E c d = Inr (0, d') \<and> d_cells d' = d_cells d @ [c] \<and> d_stubs d' = d_stubs d"
proof -
  obtain w where "kmalloc_ok E d = (True, d\<lparr>d_env := w\<rparr>)" using kmalloc_never_fails [OF assms(1)] .
  then show ?thesis using assms(2) by (auto simp: ljca_add_mfd_cell_def)
qed

lemma copy_valid_pins_two:
  assumes "length desc = MAX_PAYLOAD_SIZE"
  shows "copy_valid_pins desc [0..<b] [None, None] =
    (case b of 0 \<Rightarrow> Inr [None, None]
     | Suc 0 \<Rightarrow> Inr [Some (word_of_le (take 4 (drop 4 desc))), None]
     | Suc (Suc 0) \<Rightarrow> Inr [Some (word_of_le (take 4 (drop 4 desc))), Some (word_of_le (take 4 (drop 10 desc)))]
     | _ \<Rightarrow> Inl OutOfBounds)"
proof -
  have bank: "bank_valid_pins i desc = Inr (word_of_le (take 4 (drop (4 + 6 * i) desc)))" if "i \<le> 2" for i
  proof -
    have "2 + 6 * i + 2 = 4 + 6 * i" by simp
    then show ?thesis
      using assms that by (simp only: bank_valid_pins_def get_le_def load_def) simp
  qed
  consider "b = 0" | "b = 1" | "b = 2" | n where "b = Suc (Suc (Suc n))"
    by (metis One_nat_def Suc_1 not0_implies_Suc)
  then show ?thesis
    by cases (simp_all add: bank upt_conv_Cons upt_rec numeral_2_eq_2)
qed

definition gpio_cell :: "nat \<Rightarrow> u64 \<Rightarrow> mfd_cell" where
  "gpio_cell n pins = \<lparr>cell_name = ''ljca-gpio'',
     cell_pdata = \<lparr>pd_type = GPIO_STUB, pd_info = Gpio_info n pins\<rparr>, cell_acpi_match = Some Match_gpio\<rparr>"

lemma bitmap_small: "n \<le> 32 \<Longrightarrow> take_bit n (push_bit 32 w :: u64) = 0"
  by (rule bit_word_eqI) (auto simp: bit_take_bit_iff bit_push_bit_iff)

lemma bank_bits:
  fixes w0 w1 :: u32
  assumes "n \<le> 64" and "m 0 = w0" and "m 1 = w1"
  shows "bit (take_bit n (ucast w0 OR push_bit 32 (ucast w1)) :: u64) k \<longleftrightarrow>
    k < n \<and> bit (m (k div 32)) (k mod 32)"
proof -
  consider "k < 32" | "32 \<le> k" "k < 64" | "64 \<le> k" by linarith
  then show ?thesis
  proof cases
    case 1
    then show ?thesis
      using assms(2) by (auto simp: bit_take_bit_iff bit_or_iff bit_push_bit_iff bit_ucast_iff)
  next
    case 2
    then have "k div 32 = 1" "k mod 32 = k - 32" "\<not> bit w0 k" by (simp_all add: le_div_geq le_mod_geq bit_word.rep_eq)
    then show ?thesis
      using 2 assms(3) by (auto simp: bit_take_bit_iff bit_or_iff bit_push_bit_iff bit_ucast_iff)
  next
    case 3
    then show ?thesis using assms(1) by (auto simp: bit_take_bit_iff bit_or_iff)
  qed
qed

text \<open>The pin mask of bank \<open>i\<close> in the descriptor.\<close>

definition bank_mask :: "bytes \<Rightarrow> nat \<Rightarrow> u32" where
  "bank_mask desc i = word_of_le (take 4 (drop (4 + 6 * i) desc))"

text \<open>
  C11: The GPIO descriptor.  Up to two banks of at most 32 pins give one cell with
  \<open>pins_per_bank * bank_num\<close> pins, whose bit \<open>k\<close> is bit \<open>k mod 32\<close> of the mask of bank
  \<open>k div 32\<close>; more than 64 pins are refused; a third bank (possible with few pins per bank) is
  written outside \<open>valid_pin\<close>; and a single bank of more than 32 pins makes
  \<open>bitmap_from_arr32\<close> read the element that was never assigned.
\<close>

theorem gpio_stub_init_outcome:
  assumes "length desc = MAX_PAYLOAD_SIZE" and "alloc_never_fails E"
    and "ppb = unat (desc ! 0)" and "banks = unat (desc ! 1)"
  shows "if MAX_GPIO_NUM < ppb * banks then ljca_gpio_stub_init E desc d = Inr (- EINVAL, d)
    else if 2 < banks then ljca_gpio_stub_init E desc d = Inl OutOfBounds
    else if banks = 1 \<and> 32 < ppb then ljca_gpio_stub_init E desc d = Inl UninitRead
    else \<exists>d' pins. ljca_gpio_stub_init E desc d = Inr (0, d') \<and>
       d_cells d' = d_cells d @ [gpio_cell (ppb * banks) pins] \<and>
       (\<forall>k. bit pins k \<longleftrightarrow> k < ppb * banks \<and> bit (bank_mask desc (k div 32)) (k mod 32))"
proof -
  have hdr: "load 0 2 desc = Inr (take 2 desc)" using assms(1) by (simp add: load_def)
  have nth: "take 2 desc ! 0 = desc ! 0" "take 2 desc ! 1 = desc ! 1" by simp_all
  obtain d1 where d1: "ljca_stub_alloc E (Pdata_priv []) d = (Inr (length (d_stubs d)), d1)"
    "d_cells d1 = d_cells d"
    using stub_alloc_ok [OF assms(2)] by metis
  let ?n = "ppb * banks" and ?j = "length (d_stubs d)"
  define X where "X pins = upd_stub ?j (\<lambda>s. s\<lparr>s_priv := Pdata_priv [cell_pdata (gpio_cell ?n pins)]\<rparr>)
       (upd_stub ?j (\<lambda>s. s\<lparr>s_type := GPIO_STUB\<rparr>) d1)" for pins
  have unfold: "ljca_gpio_stub_init E desc d =
     (if ?n > MAX_GPIO_NUM then Inr (- EINVAL, d)
      else bindF (copy_valid_pins desc [0..<banks] [None, None]) (\<lambda>v.
           bindF (bitmap_from_arr32 v ?n) (\<lambda>pins. ljca_add_mfd_cell E (gpio_cell ?n pins) (X pins))))"
    using hdr nth d1 assms(3,4) by (simp add: ljca_gpio_stub_init_def Let_def X_def gpio_cell_def)
  have added: "\<exists>d'. ljca_add_mfd_cell E (gpio_cell ?n pins) (X pins) = Inr (0, d') \<and>
      d_cells d' = d_cells d @ [gpio_cell ?n pins]" for pins
    using add_cell_ok [OF assms(2), of "gpio_cell ?n pins" "X pins"] d1(2)
    by (auto simp: X_def gpio_cell_def)
  consider "banks = 0" | "banks = 1" | "banks = 2" | n where "banks = Suc (Suc (Suc n))"
    by (metis One_nat_def Suc_1 not0_implies_Suc)
  then show ?thesis
  proof cases
    case 1
    then show ?thesis
      using unfold added [of 0] copy_valid_pins_two [OF assms(1), of 0]
      by (auto simp: bitmap_from_arr32_def) (rule exI [of _ 0], simp)
  next
    case 2
    let ?m = "take_bit ppb (ucast (bank_mask desc 0)) :: u64"
    have bits: "bit ?m k \<longleftrightarrow> k < ppb \<and> bit (bank_mask desc (k div 32)) (k mod 32)" if "ppb \<le> 32" for k
      using that by (auto simp: bit_take_bit_iff bit_ucast_iff)
    have map: "bitmap_from_arr32 [Some (bank_mask desc 0), None] ppb =
        (if ppb \<le> 32 then Inr ?m else Inl UninitRead)"
      by (simp add: bitmap_from_arr32_def)
    show ?thesis
    proof (cases "ppb \<le> 32")
      case True
      then show ?thesis
        using 2 unfold added [of ?m] copy_valid_pins_two [OF assms(1), of 1] bits map
        by (simp add: bank_mask_def) blast
    next
      case False
      then show ?thesis
        using 2 unfold copy_valid_pins_two [OF assms(1), of 1] map by (simp add: bank_mask_def)
    qed
  next
    case 3
    let ?m = "take_bit ?n (ucast (bank_mask desc 0) OR push_bit 32 (ucast (bank_mask desc 1))) :: u64"
    have bits: "bit ?m k \<longleftrightarrow> k < ?n \<and> bit (bank_mask desc (k div 32)) (k mod 32)" if "?n \<le> 64" for k
      by (rule bank_bits [OF that]) simp_all
    show ?thesis
    proof (cases "?n \<le> 64")
      case True
      have "bitmap_from_arr32 [Some (bank_mask desc 0), Some (bank_mask desc 1)] ?n = Inr ?m"
        by (simp add: bitmap_from_arr32_def bitmap_small)
      then show ?thesis
        using True 3 unfold added [of ?m] copy_valid_pins_two [OF assms(1), of 2] bits [OF True]
        by (simp add: bank_mask_def numeral_2_eq_2) blast
    qed (use 3 unfold in simp)
  next
    case (4 n)
    then show ?thesis
      using unfold copy_valid_pins_two [OF assms(1), of banks] by simp
  qed
qed

theorem gpio_stub_init_outcome_witness:
  "let desc = [32, 2, 0, 32, 1, 0, 0, 128, 1, 32, 3, 0, 0, 0] @ replicate 46 0 in
   \<exists>d' pins. ljca_gpio_stub_init scripted_usb desc (mng_dev []) = Inr (0, d') \<and>
     d_cells d' = [gpio_cell 64 pins] \<and> bit pins 31 \<and> bit pins 33 \<and> \<not> bit pins 34"
proof -
  define desc where "desc = [32, 2, 0, 32, 1, 0, 0, 128, 1, 32, 3, 0, 0, 0] @ replicate 46 (0 :: u8)"
  have len: "length desc = MAX_PAYLOAD_SIZE" by (simp add: desc_def)
  have hdr: "unat (desc ! 0) = 32" "unat (desc ! 1) = 2" by (simp_all add: desc_def)
  have "bit (bank_mask desc 0) 31" "bit (bank_mask desc 1) 1" "\<not> bit (bank_mask desc 1) 2"
    unfolding desc_def by code_simp+
  moreover obtain d' pins where "ljca_gpio_stub_init scripted_usb desc (mng_dev []) = Inr (0, d')"
    "d_cells d' = d_cells (mng_dev []) @ [gpio_cell (32 * 2) pins]"
    "\<forall>k. bit pins k \<longleftrightarrow> k < 32 * 2 \<and> bit (bank_mask desc (k div 32)) (k mod 32)"
    using gpio_stub_init_outcome [OF len scripted_alloc hdr [symmetric], of "mng_dev []"] by auto
  ultimately show ?thesis
    unfolding Let_def desc_def [symmetric]
    by (intro exI [of _ d'] exI [of _ pins]) (simp add: mng_dev_def blank_dev_def)
qed


text \<open>The cells of an I2C and of a SPI descriptor.\<close>

definition i2c_cell :: "bytes \<Rightarrow> nat \<Rightarrow> mfd_cell" where
  "i2c_cell desc i = \<lparr>cell_name = ''ljca-i2c'',
     cell_pdata = \<lparr>pd_type = I2C_STUB,
       pd_info = (let info = drop (1 + 3 * i) desc in I2c_info (info ! 0) (info ! 1) (info ! 2))\<rparr>,
     cell_acpi_match = Some (Match_i2c i)\<rparr>"

definition spi_cell :: "bytes \<Rightarrow> nat \<Rightarrow> mfd_cell" where
  "spi_cell desc i = \<lparr>cell_name = ''ljca-spi'',
     cell_pdata = \<lparr>pd_type = SPI_STUB, 
       pd_info = (let info = drop (1 + 2 * i) desc in Spi_info (info ! 0) (info ! 1))\<rparr>,
     cell_acpi_match = Some (Match_spi i)\<rparr>"

lemma stub_push_cells [simp]: "d_cells (stub_push_pdata s p d) = d_cells d"
  by (simp add: stub_push_pdata_def)

lemma i2c_cells_step:
  assumes "alloc_never_fails E" and "length desc = MAX_PAYLOAD_SIZE" and "i < 2"
  shows "\<exists>d1. i2c_cells E desc s (i # is) d = i2c_cells E desc s is d1 \<and>
              d_cells d1 = d_cells d @ [i2c_cell desc i]"
proof -
  let ?d = "stub_push_pdata s (cell_pdata (i2c_cell desc i)) d"
  obtain d1 where d1: "ljca_add_mfd_cell E (i2c_cell desc i) ?d = Inr (0, d1)"
    "d_cells d1 = d_cells d @ [i2c_cell desc i]"
    using add_cell_ok [OF assms(1), of "i2c_cell desc i" ?d] by (auto simp: i2c_cell_def)
  have "load (1 + 3 * i) 3 desc = Inr (take 3 (drop (1 + 3 * i) desc))"
    using assms(2,3) by (simp add: load_def)
  then have "i2c_cells E desc s (i # is) d = i2c_cells E desc s is d1"
    using d1(1) assms(2,3) by (simp add: i2c_cell_def Let_def)
  then show ?thesis using d1(2) by blast
qed

lemma i2c_cells_null:
  assumes "length desc = MAX_PAYLOAD_SIZE"
  shows "i2c_cells E desc s (2 # is) d = Inl NullDeref"
  using assms by (simp add: load_def ljca_add_mfd_cell_def)

lemma spi_cells_step:
  assumes "alloc_never_fails E" and "length desc = MAX_PAYLOAD_SIZE"
  shows "\<exists>d1. spi_cells E desc s (0 # is) d = spi_cells E desc s is d1 \<and>
              d_cells d1 = d_cells d @ [spi_cell desc 0]"
proof -
  let ?d = "stub_push_pdata s (cell_pdata (spi_cell desc 0)) d"
  obtain d1 where d1: "ljca_add_mfd_cell E (spi_cell desc 0) ?d = Inr (0, d1)"
    "d_cells d1 = d_cells d @ [spi_cell desc 0]"
    using add_cell_ok [OF assms(1), of "spi_cell desc 0" ?d] by (auto simp: spi_cell_def)
  have "load (1 + 2 * 0) 2 desc = Inr (take 2 (drop 1 desc))"
    using assms(2) by (simp add: load_def)
  then have "spi_cells E desc s (0 # is) d = spi_cells E desc s is d1"
    using d1(1) assms(2) by (simp add: spi_cell_def Let_def)
  then show ?thesis using d1(2) by blast
qed

lemma spi_cells_null:
  assumes "length desc = MAX_PAYLOAD_SIZE"
  shows "spi_cells E desc s (1 # is) d = Inl NullDeref"
  using assms by (simp add: load_def ljca_add_mfd_cell_def)

text \<open>
  I2C and SPI enumeration.  As many controllers as there are ACPI match entries (two for I2C,
  one for SPI) become cells that carry the id, capacity and interrupt pin of the descriptor, in
  order.  One controller more, and \<open>ljca_add_mfd_cell\<close> dereferences the match pointer the loop
  left NULL: a count byte sent by the device decides.
\<close>

lemma i2c_spi_stub_init_outcome:
  assumes "length desc = MAX_PAYLOAD_SIZE" and "alloc_never_fails E" and "n = unat (desc ! 0)"
  shows "(if n \<le> 2 then \<exists>d'. ljca_i2c_stub_init E desc d = Inr (0, d') \<and>
             d_cells d' = d_cells d @ map (i2c_cell desc) [0..<n]
          else ljca_i2c_stub_init E desc d = Inl NullDeref) \<and>
         (if n \<le> 1 then \<exists>d'. ljca_spi_stub_init E desc d = Inr (0, d') \<and>
             d_cells d' = d_cells d @ map (spi_cell desc) [0..<n]
          else ljca_spi_stub_init E desc d = Inl NullDeref)"
proof -
  have hdr: "load 0 1 desc = Inr (take 1 desc)" "take 1 desc ! 0 = desc ! 0"
    using assms(1) by (simp_all add: load_def)
  obtain d1 where d1: "ljca_stub_alloc E (Pdata_priv []) d = (Inr (length (d_stubs d)), d1)"
    "d_cells d1 = d_cells d"
    using stub_alloc_ok [OF assms(2)] by metis
  let ?j = "length (d_stubs d)"
  have i2c: "ljca_i2c_stub_init E desc d =
      i2c_cells E desc ?j [0..<n] (upd_stub ?j (\<lambda>s. s\<lparr>s_type := I2C_STUB\<rparr>) d1)"
    using hdr d1 assms(3) by (simp add: ljca_i2c_stub_init_def)
  have spi: "ljca_spi_stub_init E desc d =
      spi_cells E desc ?j [0..<n] (upd_stub ?j (\<lambda>s. s\<lparr>s_type := SPI_STUB\<rparr>) d1)"
    using hdr d1 assms(3) by (simp add: ljca_spi_stub_init_def)
  note step0 = i2c_cells_step [OF assms(2,1), of 0] and step1 = i2c_cells_step [OF assms(2,1), of 1]
  consider "n = 0" | "n = 1" | "n = 2" | m where "n = Suc (Suc (Suc m))"
    by (metis One_nat_def Suc_1 not0_implies_Suc)
  then show ?thesis
  proof cases
    case 1
    then show ?thesis using i2c spi d1(2) by simp
  next
    case 2
    then have upt: "[0..<n] = [0]" by simp
    show ?thesis

      using step0 [of ?j "[]" "upd_stub ?j (\<lambda>s. s\<lparr>s_type := I2C_STUB\<rparr>) d1"]
        spi_cells_step [OF assms(2,1), of ?j "[]" "upd_stub ?j (\<lambda>s. s\<lparr>s_type := SPI_STUB\<rparr>) d1"]
        i2c spi d1(2) 2
      unfolding upt by (auto simp del: i2c_cells.simps(2) spi_cells.simps(2))
  next
    case 3
    then have upt: "[0..<n] = [0, 1]" by (simp add: upt_rec)
    obtain d2 where d2: "ljca_i2c_stub_init E desc d = i2c_cells E desc ?j [1] d2"
      "d_cells d2 = d_cells d @ [i2c_cell desc 0]"
      using step0 [of ?j "[1]" "upd_stub ?j (\<lambda>s. s\<lparr>s_type := I2C_STUB\<rparr>) d1"] i2c d1(2)
      unfolding upt by (auto simp del: i2c_cells.simps(2))
    then show ?thesis
      using step1 [of ?j "[]" d2] spi 3 spi_cells_step [OF assms(2,1), of ?j "[1]"]
        spi_cells_null [OF assms(1), of E ?j "[]"]
      unfolding upt by (auto simp del: i2c_cells.simps(2) spi_cells.simps(2))
  next
    case (4 m)
    then have upt: "[0..<n] = 0 # 1 # 2 # [3..<n]"
      by (simp add: upt_conv_Cons numeral_2_eq_2 numeral_3_eq_3 del: upt_Suc)
    have "i2c_cells E desc ?j (0 # 1 # 2 # xs) d0 = Inl NullDeref" for xs d0
    proof -
      obtain d2 where "i2c_cells E desc ?j (0 # 1 # 2 # xs) d0 = i2c_cells E desc ?j (1 # 2 # xs) d2"
        using step0 [of ?j "1 # 2 # xs" d0] by (auto simp del: i2c_cells.simps)
      moreover obtain d3 where "i2c_cells E desc ?j (1 # 2 # xs) d2 = i2c_cells E desc ?j (2 # xs) d3"
        using step1 [of ?j "2 # xs" d2] by (auto simp del: i2c_cells.simps)
      ultimately show ?thesis using i2c_cells_null [OF assms(1)] by (simp only:)
    qed
    moreover have "spi_cells E desc ?j (0 # 1 # xs) d0 = Inl NullDeref" for xs d0
    proof -
      obtain d2 where "spi_cells E desc ?j (0 # 1 # xs) d0 = spi_cells E desc ?j (1 # xs) d2"
        using spi_cells_step [OF assms(2,1), of ?j "1 # xs" d0] by (auto simp del: spi_cells.simps)
      then show ?thesis using spi_cells_null [OF assms(1)] by (simp only:)
    qed
    ultimately have "ljca_i2c_stub_init E desc d = Inl NullDeref \<and> ljca_spi_stub_init E desc d = Inl NullDeref"
      using i2c spi unfolding upt by (simp only: simp_thms)
    then show ?thesis using 4 by simp
  qed
qed

text \<open>The stubs a successful probe leaves: one of each type, management first, diagnostics last.\<close>

definition opt_type :: "bool \<Rightarrow> u8 \<Rightarrow> u8 list" where
  "opt_type p T = (if p then [T] else [])"

definition probed_types :: "bool \<Rightarrow> bool \<Rightarrow> bool \<Rightarrow> u8 list" where
  "probed_types g i s =
     MNG_STUB # opt_type g GPIO_STUB @ opt_type i I2C_STUB @
     opt_type s SPI_STUB @ [DIAG_STUB]"

definition link_frame :: "'w ljca_dev \<Rightarrow> 'w ljca_dev \<Rightarrow> bool" where
  "link_frame d d' \<longleftrightarrow> d_pm d' = d_pm d \<and> (\<not> d_mutex d \<longrightarrow> \<not> d_mutex d') \<and>
     length (d_ibuf d') = length (d_ibuf d)"

lemma grows_types:
  assumes "grows T d d'"
  obtains g where "map s_type (d_stubs d') = map s_type (d_stubs d) @ opt_type g T"
proof -
  have "map s_type (d_stubs d') = map s_type (d_stubs d) @ opt_type True T \<or>
        map s_type (d_stubs d') = map s_type (d_stubs d) @ opt_type False T"
    using assms by (auto simp: grows_def opt_type_def)
  then show ?thesis using that by blast
qed

lemma link_outcome:
  assumes "ljca_mng_link E i d = Inr (r, d')"
  shows "link_frame d d' \<and> (r = 0 \<longrightarrow> d_state d' = LJCA_ENUM_SPI_COMPLETE \<and>
    (\<exists>g i s. map s_type (d_stubs d') = map s_type (d_stubs d) @ opt_type g GPIO_STUB @
        opt_type i I2C_STUB @ opt_type s SPI_STUB))"
proof (cases "r = 0")
  case False
  then show ?thesis
    using assms
    by (auto simp: ljca_mng_link_def bindF_eq_Inr link_frame_def quiet_def split: if_splits dest!: quiet_handshake)
next
  case True
  obtain d1 x2 d2 x3 d3 x4 d4 where
    h: "ljca_mng_reset_handshake E i d = Inr (0, d1)"
    and g: "ljca_mng_enum_gpio E i (d1\<lparr>d_state := LJCA_RESET_SYNCED\<rparr>) = Inr (x2, d2)"
    and i: "ljca_mng_enum_i2c E i (d2\<lparr>d_state := LJCA_ENUM_GPIO_COMPLETE\<rparr>) = Inr (x3, d3)"
    and s: "ljca_mng_enum_spi E i (d3\<lparr>d_state := LJCA_ENUM_I2C_COMPLETE\<rparr>) = Inr (x4, d4)"
    and d': "d' = d4\<lparr>d_state := LJCA_ENUM_SPI_COMPLETE\<rparr>"
    using assms True by (auto simp: ljca_mng_link_def bindF_eq_Inr split: if_splits)
  note facts = quiet_handshake [OF h] grows_enum_gpio [OF g] grows_enum_i2c [OF i] grows_enum_spi [OF s]
  have "link_frame d d'" using facts d' by (auto simp: link_frame_def quiet_def grows_def)
  moreover obtain g' where "map s_type (d_stubs d2) = map s_type (d_stubs d) @ opt_type g' GPIO_STUB"
    using grows_types [OF facts(2)] facts(1) by (auto simp: quiet_def)
  moreover obtain i' where "map s_type (d_stubs d3) = map s_type (d_stubs d2) @ opt_type i' I2C_STUB"
    using grows_types [OF facts(3)] by auto
  moreover obtain s' where "map s_type (d_stubs d4) = map s_type (d_stubs d3) @ opt_type s' SPI_STUB"
    using grows_types [OF facts(4)] by auto
  ultimately have "map s_type (d_stubs d4) =
      map s_type (d_stubs d) @ opt_type g' GPIO_STUB @ opt_type i' I2C_STUB @ opt_type s' SPI_STUB"
    by simp
  then show ?thesis using d' \<open>link_frame d d'\<close> True by auto
qed

lemma mng_init_outcome:
  assumes "ljca_mng_init E d = Inr (r, d')" and "d_stubs d = []"
  shows "link_frame d d' \<and> (r = 0 \<longrightarrow> (\<exists>g i s. map s_type (d_stubs d') @ [DIAG_STUB] = probed_types g i s))"
proof -
  obtain x d1 where alloc: "ljca_stub_alloc E (Mng_priv 0) d = (x, d1)" by force
  show ?thesis
  proof (cases x)
    case (Inl e)
    then show ?thesis
      using assms(1) alloc
      by (auto simp: ljca_mng_init_def link_frame_def ljca_stub_alloc_def kmalloc_ok_def Let_def
          split: prod.splits if_splits)
  next
    case (Inr j)
    let ?d2 = "upd_stub j (\<lambda>s. s\<lparr>s_type := MNG_STUB\<rparr>) d1"
    have link: "ljca_mng_link E j ?d2 = Inr (r, d')"
      using assms(1) alloc Inr by (simp add: ljca_mng_init_def)
    have "map s_type (d_stubs ?d2) = [MNG_STUB]" and "link_frame d ?d2"
      using alloc Inr assms(2)
      by (auto simp: ljca_stub_alloc_def kmalloc_ok_def link_frame_def upd_stub_def Let_def
          split: prod.splits if_splits)
    then show ?thesis
      using link_outcome [OF link] by (auto simp: probed_types_def link_frame_def)
  qed
qed

lemma probe_error_outcome:
  "probe_error r d = Inr (r', Some d') \<longleftrightarrow>
     r' = r \<and> d' = d\<lparr>d_stubs := [], d_ibuf := [], d_cells := []\<rparr>"
  by (auto simp: probe_error_def ljca_delete_def ljca_stub_cleanup_def)

definition probe_ok :: "nat \<Rightarrow> 'w ljca_dev \<Rightarrow> bool" where
  "probe_ok n d \<longleftrightarrow> d_state d = LJCA_STARTED \<and> \<not> d_mutex d \<and> d_pm d = 0 \<and> length (d_ibuf d) = n \<and>
     (\<exists>g i s. map s_type (d_stubs d) = probed_types g i s)"

definition probe_released :: "'w ljca_dev \<Rightarrow> bool" where
  "probe_released d \<longleftrightarrow> d_stubs d = [] \<and> d_cells d = [] \<and> d_ibuf d = [] \<and> \<not> d_rx_active d"

lemma probe_bringup_outcome:
  assumes "probe_bringup E d = Inr (r, Some d')"
    and "d_stubs d = []" and "\<not> d_mutex d" and "d_pm d = 0"
  shows "(r = 0 \<and> probe_ok (length (d_ibuf d)) d') \<or> (r \<noteq> 0 \<and> probe_released d')"
proof -
  obtain r1 d1 where st: "ljca_start E d = (r1, d1)" by force
  have d1: "d_stubs d1 = []" "\<not> d_mutex d1" "d_pm d1 = 0" "d_ibuf d1 = d_ibuf d" "d_rx_active d1 = (r1 = 0)"
    using st assms(2-4) by (auto simp: ljca_start_def split: prod.splits)
  show ?thesis
  proof (cases "r1 = 0")
    case False
    then show ?thesis
      using assms(1) st d1 by (auto simp: probe_bringup_def probe_error_outcome probe_released_def)
  next
    case True
    then obtain r2 d2 where mi: "ljca_mng_init E d1 = Inr (r2, d2)"
      using assms(1) st by (auto simp: probe_bringup_def bindF_eq_Inr)
    obtain r3 d3 where di: "ljca_diag_init E d2 = (r3, d3)" by force
    obtain r4 w where mfd: "mfd_add E (d_cells d3) (d_env d3) = (r4, w)" by force
    have run: "(if r2 \<noteq> 0 then probe_error_stop r2 d2 else if r3 \<noteq> 0 then probe_error_stop r3 d3
        else if r4 \<noteq> 0 then probe_error_stop r4 (d3\<lparr>d_env := w\<rparr>)
        else Inr (0, Some (d3\<lparr>d_env := w, d_state := LJCA_STARTED\<rparr>))) = Inr (r, Some d')"
      using assms(1) st mi di mfd True by (simp add: probe_bringup_def Let_def cong: if_cong)
    have stop: "probe_error_stop e x = Inr (r', Some y) \<Longrightarrow> r' = e \<and> probe_released y" for e r' and x y :: "'a ljca_dev"
      by (auto simp: probe_error_stop_def probe_error_outcome probe_released_def ljca_stop_def)
    have ok: "probe_ok (length (d_ibuf d)) (d3\<lparr>d_env := w, d_state := LJCA_STARTED\<rparr>)" if "r2 = 0" "r3 = 0"
    proof -
      have "map s_type (d_stubs d3) = map s_type (d_stubs d2) @ [DIAG_STUB] \<and> link_frame d2 d3"
        using di that(2)
        by (auto simp: ljca_diag_init_def ljca_stub_alloc_def kmalloc_ok_def link_frame_def upd_stub_def Let_def
            split: prod.splits if_splits)
      then show ?thesis
        using mng_init_outcome [OF mi d1(1)] that(1) d1 by (auto simp: probe_ok_def link_frame_def)
    qed
    show ?thesis
      using run ok by (auto split: if_splits dest!: stop)
  qed
qed


text \<open>An adapter that answers the handshake and none of the enumerations, which is tolerated.\<close>

definition demo_intf :: "(acpi_parent \<times> acpi_parent)" where
  "demo_intf = (Some (Some [\<lparr>dep_unmet = 0, hid_matches = (\<lambda>h. h = ''INTC1096'')\<rparr>]), Some (Some []))"

definition demo_script :: "urb list list" where
  "demo_script = [[mng_ack 2 [0, 0, 0, 0]]]"

definition no_matches :: acpi_matches where
  "no_matches = \<lparr>gpio_pnpid = None, i2c_pnpid = None, spi_pnpid = None\<rparr>"



end
