(* ===== verification/Ljca_Gpio.thy ===== *)
theory Ljca_Gpio
  imports Ljca_Core_Laws "HOL-Library.Sublist"
begin

text \<open>
  \<^verbatim>\<open>drivers/gpio/gpio-ljca.c\<close>: the GPIO controller behind the adapter.

  The operations are written over the bus interface (\<open>xfer\<close> for \<open>ljca_transfer\<close> on the device's
  own platform device, \<open>rd\<close> for reading a buffer); their lemmas are proved in the locale
  \<open>ljca_bus\<close> and reach the adapter through its interpretation.  Each operation is one critical
  section of \<open>trans_lock\<close>, or, for \<open>irq_bus_sync_unlock\<close>, of \<open>irq_lock\<close>.  The three bitmaps are
  one 64-bit long each; an index outside it is a wild access.
\<close>

type_synonym 's xfer =
  "u8 \<Rightarrow> bytes \<Rightarrow> nat option \<Rightarrow> bool \<Rightarrow> 's \<Rightarrow> ((int \<times> nat option) \<times> 's) result"

section \<open>State\<close>

record ljca_gpio_dev =
  g_num :: nat
  g_valid :: u64
  g_unmasked :: u64
  g_enabled :: u64
  g_reenable :: u64
  g_connect_mode :: "u8 list"
  g_obuf :: bytes
  g_ibuf :: nat                    \<comment> \<open>the 256-byte \<open>ibuf\<close>, an object of the heap\<close>
  g_work :: bool                   \<comment> \<open>\<open>work\<close> is scheduled\<close>
  g_handled :: "nat list"          \<comment> \<open>interrupts passed to \<open>generic_handle_irq\<close>\<close>

abbreviation GPIO_CONFIG :: u8 where "GPIO_CONFIG \<equiv> 1"
abbreviation GPIO_READ :: u8 where "GPIO_READ \<equiv> 2"
abbreviation GPIO_WRITE :: u8 where "GPIO_WRITE \<equiv> 3"
abbreviation GPIO_INT_EVENT :: u8 where "GPIO_INT_EVENT \<equiv> 4"
abbreviation GPIO_INT_MASK :: u8 where "GPIO_INT_MASK \<equiv> 5"
abbreviation GPIO_INT_UNMASK :: u8 where "GPIO_INT_UNMASK \<equiv> 6"

abbreviation GPIO_CONF_INPUT :: u8 where "GPIO_CONF_INPUT \<equiv> 0x02"
abbreviation GPIO_CONF_OUTPUT :: u8 where "GPIO_CONF_OUTPUT \<equiv> 0x04"
abbreviation GPIO_CONF_PULLUP :: u8 where "GPIO_CONF_PULLUP \<equiv> 0x08"
abbreviation GPIO_CONF_PULLDOWN :: u8 where "GPIO_CONF_PULLDOWN \<equiv> 0x10"
abbreviation GPIO_CONF_INTERRUPT :: u8 where "GPIO_CONF_INTERRUPT \<equiv> 0x40"
abbreviation GPIO_CONF_EDGE :: u8 where "GPIO_CONF_EDGE \<equiv> 0x80"
abbreviation GPIO_CONF_LEVEL :: u8 where "GPIO_CONF_LEVEL \<equiv> 0"
abbreviation GPIO_CONF_CLR :: u8 where "GPIO_CONF_CLR \<equiv> 0x10"

abbreviation gpio_payload_len :: "nat \<Rightarrow> nat" where "gpio_payload_len pin_num \<equiv> 1 + pin_num * 2"

section \<open>Bitmaps\<close>

definition test_bitF :: "int \<Rightarrow> u64 \<Rightarrow> bool result" where
  "test_bitF k m = (if 0 \<le> k \<and> k < 64 then Inr (bit m (nat k)) else Inl OutOfBounds)"

definition set_bitF :: "int \<Rightarrow> u64 \<Rightarrow> u64 result" where
  "set_bitF k m = (if 0 \<le> k \<and> k < 64 then Inr (set_bit (nat k) m) else Inl OutOfBounds)"

definition clear_bitF :: "int \<Rightarrow> u64 \<Rightarrow> u64 result" where
  "clear_bitF k m = (if 0 \<le> k \<and> k < 64 then Inr (unset_bit (nat k) m) else Inl OutOfBounds)"

text \<open>An element of \<open>connect_mode\<close>.\<close>

definition get_mode :: "int \<Rightarrow> ljca_gpio_dev \<Rightarrow> u8 result" where
  "get_mode k g = (if 0 \<le> k \<and> nat k < length (g_connect_mode g) then Inr (g_connect_mode g ! nat k)
                   else Inl OutOfBounds)"

definition set_mode :: "int \<Rightarrow> u8 \<Rightarrow> ljca_gpio_dev \<Rightarrow> ljca_gpio_dev result" where
  "set_mode k v g = (if 0 \<le> k \<and> nat k < length (g_connect_mode g)
                     then Inr (g\<lparr>g_connect_mode := (g_connect_mode g)[nat k := v]\<rparr>)
                     else Inl OutOfBounds)"

section \<open>Pins\<close>

definition ljca_gpio_valid :: "ljca_gpio_dev \<Rightarrow> int \<Rightarrow> bool result" where
  "ljca_gpio_valid g gpio_id =
     (if gpio_id \<ge> int (g_num g) then Inr False else test_bitF gpio_id (g_valid g))"

text \<open>The packet in \<open>obuf\<close>: num, then index and value of \<open>item[0]\<close>.\<close>

definition gpio_config ::
  "'s xfer \<Rightarrow> ljca_gpio_dev \<Rightarrow> u8 \<Rightarrow> u8 \<Rightarrow> 's \<Rightarrow> (int \<times> ljca_gpio_dev \<times> 's) result" where
  "gpio_config xfer g gpio_id config s =
     bindF (ljca_gpio_valid g (uint gpio_id)) (\<lambda>valid.
     if \<not> valid then Inr (- EINVAL, g, s)
     else
       bindF (get_mode (uint gpio_id) g) (\<lambda>mode.
       let g = g\<lparr>g_obuf := (g_obuf g)[1 := gpio_id, 2 := config OR mode, 0 := 1]\<rparr> in
       bindF (xfer GPIO_CONFIG (take (gpio_payload_len 1) (g_obuf g)) None False s)
         (\<lambda>((ret, _), s). Inr (ret, g, s))))"

definition ljca_gpio_read ::
  "'s xfer \<Rightarrow> (nat \<Rightarrow> 's \<Rightarrow> bytes result) \<Rightarrow> ljca_gpio_dev \<Rightarrow> u8 \<Rightarrow> 's
   \<Rightarrow> (int \<times> ljca_gpio_dev \<times> 's) result" where
  "ljca_gpio_read xfer rd g gpio_id s =
     bindF (ljca_gpio_valid g (uint gpio_id)) (\<lambda>valid.
     if \<not> valid then Inr (- EINVAL, g, s)
     else
       let g = g\<lparr>g_obuf := (g_obuf g)[0 := 1, 1 := gpio_id]\<rparr> in
       bindF (xfer GPIO_READ (take (gpio_payload_len 1) (g_obuf g)) (Some (g_ibuf g)) True s)
         (\<lambda>((ret, ibuf_len), s).
       bindF (rd (g_ibuf g) s) (\<lambda>ack.
       if ret \<noteq> 0 then Inr (- EIO, g, s)
       else bindF (assigned ibuf_len) (\<lambda>n.
         if n = 0 then Inr (- EIO, g, s)
         else bindF (load 0 (gpio_payload_len 1) ack) (\<lambda>p.
           if p ! 0 \<noteq> 1 then Inr (- EIO, g, s)
           else Inr (if p ! 2 > 0 then 1 else 0, g, s))))))"

definition ljca_gpio_write ::
  "'s xfer \<Rightarrow> ljca_gpio_dev \<Rightarrow> u8 \<Rightarrow> int \<Rightarrow> 's \<Rightarrow> (int \<times> ljca_gpio_dev \<times> 's) result" where
  "ljca_gpio_write xfer g gpio_id v s =
     (let g = g\<lparr>g_obuf := (g_obuf g)[0 := 1, 1 := gpio_id, 2 := of_int (v AND 1)]\<rparr> in
      bindF (xfer GPIO_WRITE (take (gpio_payload_len 1) (g_obuf g)) None False s)
        (\<lambda>((ret, _), s). Inr (ret, g, s)))"

text \<open>The \<open>gpio_chip\<close> operations; \<open>offset\<close> is an \<open>unsigned int\<close> passed on as a \<open>u8\<close>.\<close>

definition ljca_gpio_get_value ::
  "'s xfer \<Rightarrow> (nat \<Rightarrow> 's \<Rightarrow> bytes result) \<Rightarrow> ljca_gpio_dev \<Rightarrow> u32 \<Rightarrow> 's
   \<Rightarrow> (int \<times> ljca_gpio_dev \<times> 's) result" where
  "ljca_gpio_get_value xfer rd g offset s = ljca_gpio_read xfer rd g (ucast offset) s"

definition ljca_gpio_set_value ::
  "'s xfer \<Rightarrow> ljca_gpio_dev \<Rightarrow> u32 \<Rightarrow> int \<Rightarrow> 's \<Rightarrow> (ljca_gpio_dev \<times> 's) result" where
  "ljca_gpio_set_value xfer g offset v s =
     bindF (ljca_gpio_write xfer g (ucast offset) v s) (\<lambda>(ret, g, s). Inr (g, s))"

definition ljca_gpio_direction_input ::
  "'s xfer \<Rightarrow> ljca_gpio_dev \<Rightarrow> u32 \<Rightarrow> 's \<Rightarrow> (int \<times> ljca_gpio_dev \<times> 's) result" where
  "ljca_gpio_direction_input xfer g offset s =
     gpio_config xfer g (ucast offset) (GPIO_CONF_INPUT OR GPIO_CONF_CLR) s"

definition ljca_gpio_direction_output ::
  "'s xfer \<Rightarrow> ljca_gpio_dev \<Rightarrow> u32 \<Rightarrow> int \<Rightarrow> 's \<Rightarrow> (int \<times> ljca_gpio_dev \<times> 's) result" where
  "ljca_gpio_direction_output xfer g offset v s =
     bindF (gpio_config xfer g (ucast offset) (GPIO_CONF_OUTPUT OR GPIO_CONF_CLR) s) (\<lambda>(ret, g, s).
     if ret \<noteq> 0 then Inr (ret, g, s)
     else bindF (ljca_gpio_set_value xfer g offset v s) (\<lambda>(g, s). Inr (0, g, s)))"

text \<open>The values of \<open>pinconf_to_config_param\<close> the driver names, and the rest.\<close>

datatype pin_config_param =
    PIN_CONFIG_BIAS_PULL_UP
  | PIN_CONFIG_BIAS_PULL_DOWN
  | PIN_CONFIG_DRIVE_PUSH_PULL
  | PIN_CONFIG_PERSIST_STATE
  | PIN_CONFIG_OTHER nat

definition ljca_gpio_set_config ::
  "ljca_gpio_dev \<Rightarrow> u32 \<Rightarrow> pin_config_param \<Rightarrow> (int \<times> ljca_gpio_dev) result" where
  "ljca_gpio_set_config g offset param =
     bindF (ljca_gpio_valid g (sint offset)) (\<lambda>valid.
     if \<not> valid then Inr (- EINVAL, g)
     else
       bindF (set_mode (uint offset) 0 g) (\<lambda>g.
       case param of
         PIN_CONFIG_BIAS_PULL_UP \<Rightarrow>
           bindF (set_mode (uint offset) GPIO_CONF_PULLUP g) (\<lambda>g. Inr (0, g))
       | PIN_CONFIG_BIAS_PULL_DOWN \<Rightarrow>
           bindF (set_mode (uint offset) GPIO_CONF_PULLDOWN g) (\<lambda>g. Inr (0, g))
       | PIN_CONFIG_DRIVE_PUSH_PULL \<Rightarrow> Inr (0, g)
       | PIN_CONFIG_PERSIST_STATE \<Rightarrow> Inr (0, g)
       | PIN_CONFIG_OTHER _ \<Rightarrow> Inr (- ENOTSUPP, g)))"

section \<open>Interrupts\<close>

definition ljca_enable_irq ::
  "'s xfer \<Rightarrow> ljca_gpio_dev \<Rightarrow> int \<Rightarrow> bool \<Rightarrow> 's \<Rightarrow> (int \<times> ljca_gpio_dev \<times> 's) result" where
  "ljca_enable_irq xfer g gpio_id enable s =
     (let g = g\<lparr>g_obuf := (g_obuf g)[0 := 1, 1 := of_int gpio_id, 2 := 0]\<rparr> in
      bindF (xfer (if enable then GPIO_INT_UNMASK else GPIO_INT_MASK)
               (take (gpio_payload_len 1) (g_obuf g)) None False s)
        (\<lambda>((ret, _), s). Inr (ret, g, s)))"

text \<open>\<open>for_each_set_bit\<close> looks at the bits in increasing order; the body clears only its own.\<close>

fun gpio_async_loop ::
  "'s xfer \<Rightarrow> nat list \<Rightarrow> ljca_gpio_dev \<Rightarrow> 's \<Rightarrow> (ljca_gpio_dev \<times> 's) result" where
  "gpio_async_loop xfer [] g s = Inr (g, s)"
| "gpio_async_loop xfer (i # is) g s =
     bindF (test_bitF (int i) (g_reenable g)) (\<lambda>b.
     if \<not> b then gpio_async_loop xfer is g s
     else
       bindF (clear_bitF (int i) (g_reenable g)) (\<lambda>m.
       let g = g\<lparr>g_reenable := m\<rparr> in
       bindF (test_bitF (int i) (g_unmasked g)) (\<lambda>unmasked.
       if unmasked
       then bindF (ljca_enable_irq xfer g (int i) True s) (\<lambda>(ret, g, s). gpio_async_loop xfer is g s)
       else gpio_async_loop xfer is g s)))"

definition ljca_gpio_async ::
  "'s xfer \<Rightarrow> ljca_gpio_dev \<Rightarrow> 's \<Rightarrow> (ljca_gpio_dev \<times> 's) result" where
  "ljca_gpio_async xfer g s = gpio_async_loop xfer [0..<g_num g] (g\<lparr>g_work := False\<rparr>) s"

text \<open>
  The event callback: \<open>mapping\<close> is \<open>irq_find_mapping\<close> (0 for none).  The number of items is
  taken from the message, whatever its length.
\<close>

fun gpio_event_items ::
  "(nat \<Rightarrow> nat) \<Rightarrow> bytes \<Rightarrow> nat list \<Rightarrow> ljca_gpio_dev \<Rightarrow> (bool \<times> ljca_gpio_dev) result" where
  "gpio_event_items mapping evt [] g = Inr (True, g)"
| "gpio_event_items mapping evt (i # is) g =
     bindF (load (1 + 2 * i) 2 evt) (\<lambda>item.
     let index = unat (item ! 0); irq = mapping index in
     if irq = 0 then Inr (False, g)
     else
       bindF (set_bitF (int index) (g_reenable g)) (\<lambda>m.
       gpio_event_items mapping evt is
         (g\<lparr>g_handled := g_handled g @ [irq], g_reenable := m\<rparr>)))"

definition ljca_gpio_event_cb ::
  "(nat \<Rightarrow> nat) \<Rightarrow> u8 \<Rightarrow> bytes \<Rightarrow> ljca_gpio_dev \<Rightarrow> ljca_gpio_dev result" where
  "ljca_gpio_event_cb mapping cmd evt g =
     (if cmd \<noteq> GPIO_INT_EVENT then Inr g
      else
        bindF (load 0 1 evt) (\<lambda>hdr.
        bindF (gpio_event_items mapping evt [0..<unat (hdr ! 0)] g) (\<lambda>(all, g).
        Inr (if all then g\<lparr>g_work := True\<rparr> else g))))"

definition ljca_irq_unmask :: "nat \<Rightarrow> ljca_gpio_dev \<Rightarrow> ljca_gpio_dev result" where
  "ljca_irq_unmask gpio_id g =
     bindF (set_bitF (int gpio_id) (g_unmasked g)) (\<lambda>m. Inr (g\<lparr>g_unmasked := m\<rparr>))"

definition ljca_irq_mask :: "nat \<Rightarrow> ljca_gpio_dev \<Rightarrow> ljca_gpio_dev result" where
  "ljca_irq_mask gpio_id g =
     bindF (clear_bitF (int gpio_id) (g_unmasked g)) (\<lambda>m. Inr (g\<lparr>g_unmasked := m\<rparr>))"

datatype irq_type =
    IRQ_TYPE_LEVEL_HIGH
  | IRQ_TYPE_LEVEL_LOW
  | IRQ_TYPE_EDGE_BOTH
  | IRQ_TYPE_EDGE_RISING
  | IRQ_TYPE_EDGE_FALLING
  | IRQ_TYPE_OTHER nat

definition ljca_irq_set_type :: "nat \<Rightarrow> irq_type \<Rightarrow> ljca_gpio_dev \<Rightarrow> (int \<times> ljca_gpio_dev) result" where
  "ljca_irq_set_type gpio_id type g =
     bindF (set_mode (int gpio_id) GPIO_CONF_INTERRUPT g) (\<lambda>g.
     bindF (get_mode (int gpio_id) g) (\<lambda>mode.
     case type of
       IRQ_TYPE_LEVEL_HIGH \<Rightarrow>
         bindF (set_mode (int gpio_id) (mode OR (GPIO_CONF_LEVEL OR GPIO_CONF_PULLUP)) g) (\<lambda>g. Inr (0, g))
     | IRQ_TYPE_LEVEL_LOW \<Rightarrow>
         bindF (set_mode (int gpio_id) (mode OR (GPIO_CONF_LEVEL OR GPIO_CONF_PULLDOWN)) g) (\<lambda>g. Inr (0, g))
     | IRQ_TYPE_EDGE_BOTH \<Rightarrow> Inr (0, g)
     | IRQ_TYPE_EDGE_RISING \<Rightarrow>
         bindF (set_mode (int gpio_id) (mode OR (GPIO_CONF_EDGE OR GPIO_CONF_PULLUP)) g) (\<lambda>g. Inr (0, g))
     | IRQ_TYPE_EDGE_FALLING \<Rightarrow>
         bindF (set_mode (int gpio_id) (mode OR (GPIO_CONF_EDGE OR GPIO_CONF_PULLDOWN)) g) (\<lambda>g. Inr (0, g))
     | IRQ_TYPE_OTHER _ \<Rightarrow> Inr (- EINVAL, g)))"

definition ljca_irq_bus_unlock ::
  "'s xfer \<Rightarrow> nat \<Rightarrow> ljca_gpio_dev \<Rightarrow> 's \<Rightarrow> (ljca_gpio_dev \<times> 's) result" where
  "ljca_irq_bus_unlock xfer gpio_id g s =
     bindF (test_bitF (int gpio_id) (g_enabled g)) (\<lambda>enabled.
     bindF (test_bitF (int gpio_id) (g_unmasked g)) (\<lambda>unmasked.
     if enabled \<noteq> unmasked then
       (if unmasked then
          bindF (gpio_config xfer g (of_nat gpio_id) 0 s) (\<lambda>(ret, g, s).
          bindF (ljca_enable_irq xfer g (int gpio_id) True s) (\<lambda>(ret, g, s).
          bindF (set_bitF (int gpio_id) (g_enabled g)) (\<lambda>m. Inr (g\<lparr>g_enabled := m\<rparr>, s))))
        else
          bindF (ljca_enable_irq xfer g (int gpio_id) False s) (\<lambda>(ret, g, s).
          bindF (clear_bitF (int gpio_id) (g_enabled g)) (\<lambda>m. Inr (g\<lparr>g_enabled := m\<rparr>, s))))
     else Inr (g, s)))"

section \<open>Probe\<close>

text \<open>
  \<open>add_ret\<close> is the answer of \<open>devm_gpiochip_add_data\<close>.  The device state is created with the
  callback registered; \<open>ljca_gpio_remove\<close> does nothing.
\<close>

definition ljca_gpio_probe ::
  "'w usb_env \<Rightarrow> platform_device \<Rightarrow> nat \<Rightarrow> int \<Rightarrow> 'w ljca_dev
   \<Rightarrow> ((int \<times> ljca_gpio_dev option) \<times> 'w ljca_dev) result" where
  "ljca_gpio_probe E pdev cb add_ret d =
     (case pd_info (pdev_platdata pdev) of
        Gpio_info n valid \<Rightarrow>
          let (ok, d) = kmalloc_ok E d in
          if \<not> ok then Inr ((- ENOMEM, None), d)
          else
            let (ok, d) = kmalloc_ok E d in
            if \<not> ok then Inr ((- ENOMEM, None), d)
            else
              let (ibuf, d) = heap_new (replicate 256 0) d;
                  (_, d) = ljca_register_event_cb (Some pdev) cb d in
              Inr ((add_ret, Some \<lparr>g_num = n, g_valid = valid, g_unmasked = 0, g_enabled = 0,
                     g_reenable = 0, g_connect_mode = replicate n 0, g_obuf = replicate 256 0,
                     g_ibuf = ibuf, g_work = False, g_handled = []\<rparr>), d)
      | _ \<Rightarrow> Inl OutOfBounds)"

definition ljca_gpio_remove :: "ljca_gpio_dev \<Rightarrow> int \<times> ljca_gpio_dev" where
  "ljca_gpio_remove g = (0, g)"

section \<open>Well-formedness\<close>

text \<open>What \<open>ljca_gpio_probe\<close> establishes and every operation keeps.\<close>

definition gpio_wf :: "ljca_gpio_dev \<Rightarrow> bool" where
  "gpio_wf g \<longleftrightarrow> length (g_obuf g) = 256 \<and> length (g_connect_mode g) = g_num g \<and> g_num g \<le> 64"

definition gpio_same :: "ljca_gpio_dev \<Rightarrow> ljca_gpio_dev \<Rightarrow> bool" where
  "gpio_same g g' \<longleftrightarrow>
     g_num g' = g_num g \<and> g_valid g' = g_valid g \<and> g_unmasked g' = g_unmasked g \<and>
     g_connect_mode g' = g_connect_mode g \<and> g_ibuf g' = g_ibuf g \<and>
     g_handled g' = g_handled g \<and> length (g_obuf g') = length (g_obuf g)"

lemma gpio_same_refl [simp]: "gpio_same g g"
  by (simp add: gpio_same_def)

lemma gpio_same_trans: "gpio_same g g' \<Longrightarrow> gpio_same g' g'' \<Longrightarrow> gpio_same g g''"
  by (auto simp: gpio_same_def)

lemma gpio_same_wf: "gpio_same g g' \<Longrightarrow> gpio_wf g \<Longrightarrow> gpio_wf g'"
  by (simp add: gpio_same_def gpio_wf_def)

lemma take_item: "3 \<le> length xs \<Longrightarrow> take (Suc (Suc (Suc 0))) xs = [xs ! 0, xs ! 1, xs ! 2]"
  by (rule nth_equalityI) (auto simp: nth_Cons numeral_2_eq_2 numeral_3_eq_3 split: nat.splits)

lemma valid_pin:
  assumes "gpio_wf g"
  shows "ljca_gpio_valid g (uint i) = Inr (unat i < g_num g \<and> bit (g_valid g) (unat i))"
    and "unat i < g_num g \<Longrightarrow> get_mode (uint i) g = Inr (g_connect_mode g ! unat i)"
proof -
  have "uint i = int (unat i)" by simp
  then show "ljca_gpio_valid g (uint i) = Inr (unat i < g_num g \<and> bit (g_valid g) (unat i))"
    and "unat i < g_num g \<Longrightarrow> get_mode (uint i) g = Inr (g_connect_mode g ! unat i)"
    using assms by (auto simp: ljca_gpio_valid_def test_bitF_def get_mode_def gpio_wf_def simp del: of_nat_unat)
qed

section \<open>Operations over the bus\<close>

context ljca_bus
begin

lemma config_cases:
  assumes "gpio_config xfer g i c s = Inr (r, g', s')" and "gpio_wf g"
  shows "gpio_same g g' \<and> g_enabled g' = g_enabled g \<and> g_reenable g' = g_reenable g \<and> g_work g' = g_work g \<and>
    (if unat i < g_num g \<and> bit (g_valid g) (unat i)
     then (sent s' = sent s \<or> sent s' = sent s @ [(GPIO_CONFIG, [1, i, c OR g_connect_mode g ! unat i])]) \<and>
          (r = 0 \<longrightarrow> sent s' = sent s @ [(GPIO_CONFIG, [1, i, c OR g_connect_mode g ! unat i])])
     else r = - EINVAL \<and> s' = s)"
proof (cases "unat i < g_num g \<and> bit (g_valid g) (unat i)")
  case False
  then show ?thesis
    using assms
    by (auto simp: gpio_config_def valid_pin)
next
  case True
  then have "ljca_gpio_valid g (uint i) = Inr True" "get_mode (uint i) g = Inr (g_connect_mode g ! unat i)"
    by (simp_all add: valid_pin [OF assms(2)])
  then obtain l where
    "xfer GPIO_CONFIG [1, i, c OR g_connect_mode g ! unat i] None False s = Inr ((r, l), s')"
    and "g' = g\<lparr>g_obuf := (g_obuf g)[1 := i, 2 := c OR g_connect_mode g ! unat i, 0 := 1]\<rparr>"
    using assms by (auto simp: gpio_config_def bindF_eq_Inr gpio_wf_def take_item)
  then show ?thesis
    using xfer_sent xfer_sent_any True by (fastforce simp: gpio_same_def)
qed

lemma enable_irq_cases:
  assumes "ljca_enable_irq xfer g k e s = Inr (r, g', s')" and "gpio_wf g"
  shows "gpio_same g g' \<and> g_enabled g' = g_enabled g \<and> g_reenable g' = g_reenable g \<and> g_work g' = g_work g \<and>
    (sent s' = sent s \<or>
     sent s' = sent s @ [(if e then GPIO_INT_UNMASK else GPIO_INT_MASK, [1, of_int k, 0])])"
proof -
  obtain l where
    x: "xfer (if e then GPIO_INT_UNMASK else GPIO_INT_MASK) [1, of_int k, 0] None False s = Inr ((r, l), s')"
    and g': "g' = g\<lparr>g_obuf := (g_obuf g)[0 := 1, 1 := of_int k, 2 := 0]\<rparr>"
    using assms by (auto simp: ljca_enable_irq_def bindF_eq_Inr gpio_wf_def take_item)
  show ?thesis using xfer_sent_any [OF x] g' by (simp add: gpio_same_def)
qed

lemma write_cases:
  assumes "ljca_gpio_write xfer g i v s = Inr (r, g', s')" and "gpio_wf g"
  shows "gpio_same g g' \<and>
    (sent s' = sent s \<or> sent s' = sent s @ [(GPIO_WRITE, [1, i, of_int (v AND 1)])]) \<and>
    (r = 0 \<longrightarrow> sent s' = sent s @ [(GPIO_WRITE, [1, i, of_int (v AND 1)])])"
proof -
  obtain l where x: "xfer GPIO_WRITE [1, i, of_int (v AND 1)] None False s = Inr ((r, l), s')"
    and g': "g' = g\<lparr>g_obuf := (g_obuf g)[0 := 1, 1 := i, 2 := of_int (v AND 1)]\<rparr>"
    using assms by (auto simp: ljca_gpio_write_def bindF_eq_Inr gpio_wf_def take_item)
  show ?thesis using xfer_sent_any [OF x] xfer_sent x g' by (auto simp: gpio_same_def)
qed

lemma read_cases:
  assumes "ljca_gpio_read xfer rd g i s = Inr (r, g', s')" and "gpio_wf g"
  shows "gpio_same g g' \<and> (r = 0 \<or> r = 1 \<or> r = - EIO \<or> r = - EINVAL) \<and>
    (0 \<le> r \<longrightarrow> unat i < g_num g \<and> bit (g_valid g) (unat i) \<and>
       (\<exists>x. sent s' = sent s @ [(GPIO_READ, [1, i, x])]) \<and>
       (\<exists>ack. rd (g_ibuf g) s' = Inr ack \<and> ack ! 0 = 1 \<and> r = (if ack ! 2 = 0 then 0 else 1)))"
proof (cases "unat i < g_num g \<and> bit (g_valid g) (unat i)")
  case False
  then show ?thesis
    using assms
    by (auto simp: ljca_gpio_read_def valid_pin)
next
  case True
  then have v: "ljca_gpio_valid g (uint i) = Inr True"
    by (simp_all add: valid_pin [OF assms(2)])
  let ?g = "g\<lparr>g_obuf := (g_obuf g)[0 := 1, 1 := i]\<rparr>"
  obtain ret l s1 ack where
    x: "xfer GPIO_READ [1, i, g_obuf g ! 2] (Some (g_ibuf g)) True s = Inr ((ret, l), s1)"
    and rd: "rd (g_ibuf g) s1 = Inr ack"
    and rest: "(if ret \<noteq> 0 then Inr (- EIO, ?g, s1)
       else bindF (assigned l) (\<lambda>n.
         if n = 0 then Inr (- EIO, ?g, s1)
         else bindF (load 0 (gpio_payload_len 1) ack) (\<lambda>p.
           if p ! 0 \<noteq> 1 then Inr (- EIO, ?g, s1)
           else Inr (if p ! 2 > 0 then 1 else 0, ?g, s1)))) = Inr (r, g', s')"
    using assms v by (auto simp: ljca_gpio_read_def Let_def bindF_eq_Inr gpio_wf_def take_item cong: if_cong)
  show ?thesis
    using rest x rd True xfer_sent
    by (auto simp: bindF_eq_Inr gpio_same_def load_eq_Inr word_gt_0 split: if_splits)
qed

lemma bus_unlock_cases:
  assumes "ljca_irq_bus_unlock xfer k g s = Inr (g', s')" and "gpio_wf g" and "k < g_num g"
  shows "gpio_same g g' \<and> g_reenable g' = g_reenable g \<and>
    (\<forall>j. bit (g_enabled g') j = (if j = k then bit (g_unmasked g) k else bit (g_enabled g) j)) \<and>
    (\<exists>cs. sent s' = sent s @ cs \<and> subseq cs
       (if bit (g_enabled g) k = bit (g_unmasked g) k then []
        else if bit (g_unmasked g) k
        then [(GPIO_CONFIG, [1, of_nat k, g_connect_mode g ! k]), (GPIO_INT_UNMASK, [1, of_nat k, 0])]
        else [(GPIO_INT_MASK, [1, of_nat k, 0])]))"
proof -
  have k: "int k < 64" "unat (of_nat k :: u8) = k"
    using assms(2,3) by (auto simp: gpio_wf_def unat_of_nat)
  have run: "(if bit (g_enabled g) k \<noteq> bit (g_unmasked g) k then
       (if bit (g_unmasked g) k then
          bindF (gpio_config xfer g (of_nat k) 0 s) (\<lambda>(ret, g, s).
          bindF (ljca_enable_irq xfer g (int k) True s) (\<lambda>(ret, g, s).
            Inr (g\<lparr>g_enabled := set_bit k (g_enabled g)\<rparr>, s)))
        else
          bindF (ljca_enable_irq xfer g (int k) False s) (\<lambda>(ret, g, s).
            Inr (g\<lparr>g_enabled := unset_bit k (g_enabled g)\<rparr>, s)))
     else Inr (g, s)) = Inr (g', s')"
    using assms(1) k
    by (simp add: ljca_irq_bus_unlock_def test_bitF_def set_bitF_def clear_bitF_def cong: if_cong)
  show ?thesis
  proof (cases "bit (g_enabled g) k = bit (g_unmasked g) k")
    case True
    then show ?thesis using run by auto
  next
    case ne: False
    show ?thesis
    proof (cases "bit (g_unmasked g) k")
      case True
      obtain r1 g1 s1 r2 g2 where
        c: "gpio_config xfer g (of_nat k) 0 s = Inr (r1, g1, s1)"
        and e: "ljca_enable_irq xfer g1 (int k) True s1 = Inr (r2, g2, s')"
        and g': "g' = g2\<lparr>g_enabled := set_bit k (g_enabled g2)\<rparr>"
        using run ne True by (auto simp: bindF_eq_Inr)
      note cc = config_cases [OF c assms(2)]
      then have wf1: "gpio_wf g1" using gpio_same_wf assms(2) by blast
      note ee = enable_irq_cases [OF e wf1]
      have "gpio_same g g'" using cc ee g' by (auto simp: gpio_same_def)
      moreover have "\<exists>c1. sent s1 = sent s @ c1 \<and> (c1 = [] \<or> c1 = [(GPIO_CONFIG, [1, of_nat k, g_connect_mode g ! k])])"
        using cc k by (auto split: if_splits)
      moreover have "\<exists>c2. sent s' = sent s1 @ c2 \<and> (c2 = [] \<or> c2 = [(GPIO_INT_UNMASK, [1, of_nat k, 0])])"
        using ee by auto
      moreover have "\<forall>j. bit (g_enabled g') j = (if j = k then True else bit (g_enabled g) j)"
        using cc ee g' k(1) by (auto simp: bit_set_bit_iff)
      moreover have "g_reenable g' = g_reenable g" using cc ee g' by simp
      ultimately show ?thesis using ne True by auto
    next
      case False
      obtain r2 g2 where
        e: "ljca_enable_irq xfer g (int k) False s = Inr (r2, g2, s')"
        and g': "g' = g2\<lparr>g_enabled := unset_bit k (g_enabled g2)\<rparr>"
        using run ne False by (auto simp: bindF_eq_Inr)
      note ee = enable_irq_cases [OF e assms(2)]
      have "gpio_same g g'" using ee g' by (auto simp: gpio_same_def)
      then show ?thesis using ee g' ne False by (auto simp: bit_unset_bit_iff)
    qed
  qed
qed

lemma async_loop_cases:
  "gpio_async_loop xfer is g s = Inr (g', s') \<Longrightarrow> gpio_wf g \<Longrightarrow> sorted is \<Longrightarrow> distinct is \<Longrightarrow>
   gpio_same g g' \<and>
   (\<forall>j. bit (g_reenable g') j = (bit (g_reenable g) j \<and> j \<notin> set is)) \<and>
   (\<exists>cs. sent s' = sent s @ cs \<and> subseq cs
      (map (\<lambda>i. (GPIO_INT_UNMASK, [1, of_nat i, 0]))
         (filter (\<lambda>i. bit (g_reenable g) i \<and> bit (g_unmasked g) i) is)))"
proof (induction "is" arbitrary: g s)
  case Nil
  then show ?case by simp
next
  case (Cons i "is")
  have i64: "int i < 64"
    using Cons.prems(1) by (auto simp: test_bitF_def bindF_eq_Inr split: if_splits)
  show ?case
  proof (cases "bit (g_reenable g) i")
    case False
    then have "gpio_async_loop xfer is g s = Inr (g', s')"
      using Cons.prems(1) i64 by (simp add: test_bitF_def)
    from Cons.IH [OF this] Cons.prems False show ?thesis by auto
  next
    case True
    let ?g = "g\<lparr>g_reenable := unset_bit i (g_reenable g)\<rparr>"
    have wf: "gpio_wf ?g" "gpio_same g ?g" using Cons.prems(2) by (simp_all add: gpio_wf_def gpio_same_def)
    have bits: "bit (g_reenable ?g) j = (bit (g_reenable g) j \<and> j \<noteq> i)" for j
      by (auto simp: bit_unset_bit_iff)
    have filt: "filter (\<lambda>j. bit (g_reenable ?g) j \<and> P j) is = filter (\<lambda>j. bit (g_reenable g) j \<and> P j) is" for P
      using Cons.prems(4) by (intro filter_cong) (auto simp: bit_unset_bit_iff)
    show ?thesis
    proof (cases "bit (g_unmasked g) i")
      case False
      then have "gpio_async_loop xfer is ?g s = Inr (g', s')"
        using Cons.prems(1) True i64 by (simp add: test_bitF_def clear_bitF_def)
      from Cons.IH [OF this wf(1)] Cons.prems False True wf(2) bits filt show ?thesis
        by (auto intro: gpio_same_trans)
    next
      case un: True
      then obtain r g1 s1 where e: "ljca_enable_irq xfer ?g (int i) True s = Inr (r, g1, s1)"
        and l: "gpio_async_loop xfer is g1 s1 = Inr (g', s')"
        using Cons.prems(1) True i64 by (auto simp: test_bitF_def clear_bitF_def bindF_eq_Inr)
      note ee = enable_irq_cases [OF e wf(1)]
      then have wf1: "gpio_wf g1" "gpio_same g g1"
        using gpio_same_wf wf gpio_same_trans by blast+
      have filt1: "filter (\<lambda>j. bit (g_reenable g1) j \<and> bit (g_unmasked g1) j) is =
          filter (\<lambda>j. bit (g_reenable g) j \<and> bit (g_unmasked g) j) is"
        using filt [of "bit (g_unmasked g)"] ee wf1(2) by (simp add: gpio_same_def)
      obtain cs where cs: "gpio_same g1 g'"
        "\<forall>j. bit (g_reenable g') j = (bit (g_reenable g1) j \<and> j \<notin> set is)" "sent s' = sent s1 @ cs"
        "subseq cs (map (\<lambda>i. (GPIO_INT_UNMASK, [1, of_nat i, 0]))
           (filter (\<lambda>i. bit (g_reenable g) i \<and> bit (g_unmasked g) i) is))"
        using Cons.IH [OF l wf1(1)] Cons.prems(3,4) unfolding filt1 by auto
      have "\<exists>c. sent s1 = sent s @ c \<and> (c = [] \<or> c = [(GPIO_INT_UNMASK, [1, of_nat i, 0])])"
        using ee by auto
      then have "\<exists>ds. sent s' = sent s @ ds \<and> subseq ds ((GPIO_INT_UNMASK, [1, of_nat i, 0]) #
          map (\<lambda>i. (GPIO_INT_UNMASK, [1, of_nat i, 0]))
           (filter (\<lambda>i. bit (g_reenable g) i \<and> bit (g_unmasked g) i) is))"
        using cs(3,4) by auto
      then show ?thesis
        using cs(1,2) ee bits gpio_same_trans [OF wf1(2) cs(1)] True un by auto
    qed
  qed
qed

end

section \<open>Properties\<close>

text \<open>The items of an event before the first one without a mapped interrupt.\<close>

definition event_ids :: "bytes \<Rightarrow> nat list" where
  "event_ids evt = map (\<lambda>i. unat (evt ! (1 + 2 * i))) [0..<unat (evt ! 0)]"

lemma set_bitF_bit: "set_bitF (int k) m = Inr m' \<Longrightarrow> bit m' j = (bit m j \<or> j = k)"
  by (auto simp: set_bitF_def bit_set_bit_iff split: if_splits)

lemma event_items_cases:
  assumes "gpio_event_items mapping evt is g = Inr (all, g')"
  shows "let ids = map (\<lambda>i. unat (evt ! (1 + 2 * i))) is; seen = takeWhile (\<lambda>i. mapping i \<noteq> 0) ids
    in all = (seen = ids) \<and> g_handled g' = g_handled g @ map mapping seen \<and> g_work g' = g_work g \<and>
       (\<forall>k. bit (g_reenable g') k = (bit (g_reenable g) k \<or> k \<in> set seen))"
  using assms
proof (induction "is" arbitrary: g)
  case Nil
  then show ?case by simp
next
  case (Cons i "is")
  obtain item where "load (1 + 2 * i) 2 evt = Inr item"
    using Cons.prems by (auto simp: bindF_eq_Inr)
  then have item: "load (Suc (2 * i)) 2 evt = Inr item" "item ! 0 = evt ! Suc (2 * i)"
    by (auto simp: load_eq_Inr)
  let ?k = "unat (evt ! Suc (2 * i))"
  show ?case
  proof (cases "mapping ?k = 0")
    case True
    then show ?thesis using Cons.prems item by (auto simp: Let_def)
  next
    case False
    then obtain m where m: "set_bitF (int ?k) (g_reenable g) = Inr m"
      and rest: "gpio_event_items mapping evt is
         (g\<lparr>g_handled := g_handled g @ [mapping ?k], g_reenable := m\<rparr>) = Inr (all, g')"
      using Cons.prems item by (auto simp: Let_def bindF_eq_Inr)
    have "bit m k = (bit (g_reenable g) k \<or> k = ?k)" for k
      by (rule set_bitF_bit [OF m])
    then show ?thesis using Cons.IH [OF rest] False by (auto simp: Let_def)
  qed
qed

text \<open>
  Reading a pin.  A non-negative result means that the pin is valid, that one \<open>GPIO_READ\<close> of
  exactly this pin was put on the wire, that the reply holds one item, and that the result is 1
  for a non-zero value and 0 otherwise; the only errors are \<open>-EIO\<close> and \<open>-EINVAL\<close>.
\<close>

lemma gpio_read_sound:
  assumes "ljca_gpio_read (ljca_transfer E (Some p)) heap_read g i d = Inr (r, g', d')" and "gpio_wf g"
  shows "(r = 0 \<or> r = 1 \<or> r = - EIO \<or> r = - EINVAL) \<and> gpio_wf g' \<and>
    (0 \<le> r \<longrightarrow> unat i < g_num g \<and> bit (g_valid g) (unat i) \<and>
       (\<exists>x. bus_sent (pd_type (pdev_platdata p)) d' =
            bus_sent (pd_type (pdev_platdata p)) d @ [(GPIO_READ, [1, i, x])]) \<and>
       (\<exists>ack. heap_read (g_ibuf g) d' = Inr ack \<and> ack ! 0 = 1 \<and> r = (if ack ! 2 = 0 then 0 else 1)))"
  using ljca.read_cases [OF assms] gpio_same_wf assms(2) by blast

definition demo_gpio :: ljca_gpio_dev where
  "demo_gpio = \<lparr>g_num = 8, g_valid = 0x7F, g_unmasked = 0, g_enabled = 0, g_reenable = 0,
     g_connect_mode = replicate 8 0, g_obuf = replicate 256 0, g_ibuf = 0, g_work = False, g_handled = []\<rparr>"

definition demo_pdev :: platform_device where
  "demo_pdev = \<lparr>pdev_id = 4, pdev_platdata = \<lparr>pd_type = GPIO_STUB, pd_info = Gpio_info 8 0x7F\<rparr>\<rparr>"

lemma demo_gpio_wf [simp]: "gpio_wf demo_gpio"
  by (simp add: gpio_wf_def demo_gpio_def)

definition gpio_ack :: "u8 \<Rightarrow> bytes \<Rightarrow> urb" where
  "gpio_ack cmd bs =
     urb_of \<lparr>msg_type = GPIO_STUB, msg_cmd = cmd, msg_flags = 5, msg_len = of_nat (length bs), msg_data = bs\<rparr>"

text \<open>
  Driving a pin.  When \<open>direction_output\<close> reports success, the configuration command (output,
  pull cleared, plus the pin's connect mode) was put on the wire, and after it at most the write
  of the low bit of the value; an invalid pin is refused with nothing sent.  The result of the
  write itself is dropped.
\<close>

lemma gpio_direction_output_order:
  assumes "ljca_gpio_direction_output (ljca_transfer E (Some p)) g off v d = Inr (r, g', d')"
    and "gpio_wf g" and "i = (ucast off :: u8)" and "T = pd_type (pdev_platdata p)"
  shows "gpio_wf g' \<and>
    (if unat i < g_num g \<and> bit (g_valid g) (unat i)
     then r = 0 \<longrightarrow> (\<exists>cs. bus_sent T d' =
            bus_sent T d @ (GPIO_CONFIG, [1, i, 0x14 OR g_connect_mode g ! unat i]) # cs \<and>
            subseq cs [(GPIO_WRITE, [1, i, of_int (v AND 1)])])
     else r = - EINVAL \<and> d' = d)"
proof -
  obtain r1 g1 d1 where c: "gpio_config (ljca_transfer E (Some p)) g i (GPIO_CONF_OUTPUT OR GPIO_CONF_CLR) d
      = Inr (r1, g1, d1)"
    and rest: "(if r1 \<noteq> 0 then Inr (r1, g1, d1)
      else bindF (ljca_gpio_set_value (ljca_transfer E (Some p)) g1 off v d1) (\<lambda>(g, s). Inr (0, g, s)))
      = Inr (r, g', d')"
    using assms(1,3) by (auto simp: ljca_gpio_direction_output_def bindF_eq_Inr)
  note cc = ljca.config_cases [OF c assms(2)]
  then have wf1: "gpio_wf g1" using gpio_same_wf assms(2) by blast
  show ?thesis
  proof (cases "r1 = 0")
    case False
    then show ?thesis using rest cc wf1 by (auto split: if_splits)
  next
    case True
    then obtain r2 where w: "ljca_gpio_write (ljca_transfer E (Some p)) g1 i v d1 = Inr (r2, g', d')"
      and r: "r = 0"
      using rest assms(3) by (auto simp: ljca_gpio_set_value_def bindF_eq_Inr)
    have "GPIO_CONF_OUTPUT OR GPIO_CONF_CLR = 0x14" by simp
    then show ?thesis
      using ljca.write_cases [OF w wf1] cc True r gpio_same_wf [of g1 g'] wf1 assms(4)
      by (auto split: if_splits)
  qed
qed

text \<open>
  Interrupt masking.  \<open>irq_bus_sync_unlock\<close> leaves the enabled bit of its interrupt equal to
  the unmasked bit and every other bit alone, and sends a subsequence of: nothing when the two
  agreed, configure and unmask when it was newly unmasked, mask when it was newly masked.  That
  the transfers may fail does not matter to it: the bit is recorded even if nothing was sent.
\<close>

lemma irq_sync_unlock:
  assumes "ljca_irq_bus_unlock (ljca_transfer E (Some p)) k g d = Inr (g', d')"
    and "gpio_wf g" and "k < g_num g"
  shows "gpio_wf g' \<and> g_unmasked g' = g_unmasked g \<and>
    (\<forall>j. bit (g_enabled g') j = (if j = k then bit (g_unmasked g) k else bit (g_enabled g) j)) \<and>
    (\<exists>cs. bus_sent (pd_type (pdev_platdata p)) d' = bus_sent (pd_type (pdev_platdata p)) d @ cs \<and>
       subseq cs
       (if bit (g_enabled g) k = bit (g_unmasked g) k then []
        else if bit (g_unmasked g) k
        then [(GPIO_CONFIG, [1, of_nat k, g_connect_mode g ! k]), (GPIO_INT_UNMASK, [1, of_nat k, 0])]
        else [(GPIO_INT_MASK, [1, of_nat k, 0])]))"
  using ljca.bus_unlock_cases [OF assms] gpio_same_wf [of g g'] assms(2) by (auto simp: gpio_same_def)

text \<open>
  From event to re-enable.  The items of an interrupt event up to the first unmapped one are
  handled in order and marked; only when all are mapped is the work scheduled, so an event that
  names one unmapped pin leaves the earlier ones marked and, until a later event, masked in the
  device.  The work clears every mark and unmasks, in increasing order, only pins that are marked
  and still unmasked.
\<close>

lemma gpio_event_reenable:
  assumes "ljca_gpio_event_cb mapping GPIO_INT_EVENT evt g = Inr g1" and "gpio_wf g"
    and "ljca_gpio_async (ljca_transfer E (Some p)) g1 d = Inr (g2, d2)"
    and "seen = takeWhile (\<lambda>i. mapping i \<noteq> 0) (event_ids evt)"
  shows "g_handled g1 = g_handled g @ map mapping seen \<and>
    (\<forall>k. bit (g_reenable g1) k = (bit (g_reenable g) k \<or> k \<in> set seen)) \<and>
    g_work g1 = (g_work g \<or> seen = event_ids evt) \<and>
    (\<forall>k<g_num g1. \<not> bit (g_reenable g2) k) \<and>
    (\<exists>cs. bus_sent (pd_type (pdev_platdata p)) d2 = bus_sent (pd_type (pdev_platdata p)) d @ cs \<and>
       subseq cs (map (\<lambda>i. (GPIO_INT_UNMASK, [1, of_nat i, 0]))
         (filter (\<lambda>i. bit (g_reenable g1) i \<and> bit (g_unmasked g1) i) [0..<g_num g1])))"
proof -
  obtain hdr all g0 where hdr: "load 0 1 evt = Inr hdr"
    and items: "gpio_event_items mapping evt [0..<unat (evt ! 0)] g = Inr (all, g0)"
    and g1: "g1 = (if all then g0\<lparr>g_work := True\<rparr> else g0)"
    using assms(1) by (auto simp: ljca_gpio_event_cb_def bindF_eq_Inr load_eq_Inr)
  have ev: "all = (seen = event_ids evt)" "g_handled g0 = g_handled g @ map mapping seen"
    "g_work g0 = g_work g" "\<forall>k. bit (g_reenable g0) k = (bit (g_reenable g) k \<or> k \<in> set seen)"
    using event_items_cases [OF items] assms(4) by (auto simp: Let_def event_ids_def)
  have frame: "gpio_wf g' " if "gpio_event_items mapping evt is h = Inr (a, g')" "gpio_wf h" for "is" h a g'
    using that
  proof (induction "is" arbitrary: h)
    case (Cons i "is")
    then show ?case
      by (auto simp: bindF_eq_Inr Let_def gpio_wf_def split: if_splits)
  qed simp
  have "gpio_wf (g1\<lparr>g_work := False\<rparr>)"
    using frame [OF items assms(2)] g1 by (auto simp: gpio_wf_def)
  from ljca.async_loop_cases [OF assms(3) [unfolded ljca_gpio_async_def] this]
  have as: "\<forall>j. bit (g_reenable g2) j = (bit (g_reenable g1) j \<and> j \<notin> {0..<g_num g1})"
    "\<exists>cs. bus_sent (pd_type (pdev_platdata p)) d2 = bus_sent (pd_type (pdev_platdata p)) d @ cs \<and>
       subseq cs (map (\<lambda>i. (GPIO_INT_UNMASK, [1, of_nat i, 0]))
         (filter (\<lambda>i. bit (g_reenable g1) i \<and> bit (g_unmasked g1) i) [0..<g_num g1]))"
    by simp_all
  show ?thesis using ev g1 as by auto
qed

end
