(* ===== verification/Ljca_I2c.thy ===== *)
theory Ljca_I2c
  imports Ljca_Gpio
begin

text \<open>
  \<^verbatim>\<open>drivers/i2c/busses/i2c-ljca.c\<close>: the I2C controller behind the adapter.

  As for GPIO the operations are written over the bus interface.  \<open>obuf\<close> keeps its contents
  between commands (only the three header bytes are cleared), so the byte after the header of a
  read command is whatever the previous command left there; the model keeps it.
\<close>

section \<open>State\<close>

text \<open>
  An ACPI device as the driver sees it: the HID, the UID, and \<open>acpi_dev_hid_uid_match\<close>.
\<close>

record acpi_dev =
  ad_tag :: nat
  ad_hid :: string
  ad_uid :: "string option"
  ad_hid_uid_match :: "string \<Rightarrow> string \<Rightarrow> bool"

record ljca_i2c_dev =
  i_id :: u8
  i_obuf :: bytes
  i_ibuf :: nat
  i_companion :: "acpi_dev option"      \<comment> \<open>of the adapter's device\<close>
  i_deps_cleared :: bool                \<comment> \<open>\<open>acpi_dev_clear_dependencies\<close> was called on it\<close>

abbreviation I2C_INIT :: u8 where "I2C_INIT \<equiv> 1"
abbreviation I2C_START :: u8 where "I2C_START \<equiv> 3"
abbreviation I2C_STOP :: u8 where "I2C_STOP \<equiv> 4"
abbreviation I2C_READ :: u8 where "I2C_READ \<equiv> 5"
abbreviation I2C_WRITE :: u8 where "I2C_WRITE \<equiv> 6"

abbreviation LJCA_I2C_MAX_XFER_SIZE :: int where "LJCA_I2C_MAX_XFER_SIZE \<equiv> 256"
abbreviation I2C_PACKET_SIZE :: nat where "I2C_PACKET_SIZE \<equiv> 3"
abbreviation LJCA_I2C_BUF_SIZE :: nat where "LJCA_I2C_BUF_SIZE \<equiv> 259"
abbreviation I2C_FLAG_FREQ_400K :: u8 where "I2C_FLAG_FREQ_400K \<equiv> 2"

datatype i2c_address_mode = I2C_ADDRESS_MODE_7BIT | I2C_ADDRESS_MODE_10BIT
datatype xfer_type = READ_XFER_TYPE | WRITE_XFER_TYPE

section \<open>Commands\<close>

definition ljca_i2c_format_slave_addr :: "u8 \<Rightarrow> i2c_address_mode \<Rightarrow> u8" where
  "ljca_i2c_format_slave_addr slave_addr mode =
     (if mode = I2C_ADDRESS_MODE_7BIT then push_bit 1 slave_addr else 0xFF)"

text \<open>\<open>struct i2c_rw_packet\<close> in \<open>obuf\<close>: id, 16-bit length, data.\<close>

definition i2c_fill :: "u16 \<Rightarrow> bytes \<Rightarrow> ljca_i2c_dev \<Rightarrow> ljca_i2c_dev result" where
  "i2c_fill len data v =
     bindF (store 0 (i_id v # le_bytes 2 len @ data) (i_obuf v)) (\<lambda>ob. Inr (v\<lparr>i_obuf := ob\<rparr>))"

text \<open>The length (signed 16 bit) and the id of the reply in \<open>ibuf\<close>.\<close>

definition i2c_reply :: "bytes \<Rightarrow> (int \<times> u8) result" where
  "i2c_reply ibuf =
     bindF (load 0 I2C_PACKET_SIZE ibuf) (\<lambda>h. Inr (sint (word_of_le (drop 1 h) :: u16), h ! 0))"

definition ljca_i2c_init ::
  "'s xfer \<Rightarrow> ljca_i2c_dev \<Rightarrow> 's \<Rightarrow> (int \<times> ljca_i2c_dev \<times> 's) result" where
  "ljca_i2c_init xfer v s =
     bindF (i2c_fill 1 [I2C_FLAG_FREQ_400K] v) (\<lambda>v.
     bindF (xfer I2C_INIT (take (I2C_PACKET_SIZE + 1) (i_obuf v)) None False s)
       (\<lambda>((ret, _), s). Inr (ret, v, s)))"

definition ljca_i2c_start ::
  "'s xfer \<Rightarrow> (nat \<Rightarrow> 's \<Rightarrow> bytes result) \<Rightarrow> ljca_i2c_dev \<Rightarrow> u8 \<Rightarrow> xfer_type \<Rightarrow> 's
   \<Rightarrow> (int \<times> ljca_i2c_dev \<times> 's) result" where
  "ljca_i2c_start xfer rd v slave_addr type s =
     (let addr = ljca_i2c_format_slave_addr slave_addr I2C_ADDRESS_MODE_7BIT OR
                 (if type = READ_XFER_TYPE then 1 else 0) in
      bindF (i2c_fill 1 [addr] v) (\<lambda>v.
      bindF (xfer I2C_START (take (I2C_PACKET_SIZE + 1) (i_obuf v)) (Some (i_ibuf v)) True s)
        (\<lambda>((ret, ibuf_len), s).
      if ret \<noteq> 0 then Inr (- EIO, v, s)
      else bindF (assigned ibuf_len) (\<lambda>n.
        if n < I2C_PACKET_SIZE then Inr (- EIO, v, s)
        else bindF (rd (i_ibuf v) s) (\<lambda>ibuf. bindF (i2c_reply ibuf) (\<lambda>(len, id).
          if len < 0 \<or> id \<noteq> i_id v then Inr (- EIO, v, s) else Inr (0, v, s)))))))"

definition ljca_i2c_stop ::
  "'s xfer \<Rightarrow> (nat \<Rightarrow> 's \<Rightarrow> bytes result) \<Rightarrow> ljca_i2c_dev \<Rightarrow> u8 \<Rightarrow> 's
   \<Rightarrow> (int \<times> ljca_i2c_dev \<times> 's) result" where
  "ljca_i2c_stop xfer rd v slave_addr s =
     bindF (i2c_fill 1 [0] v) (\<lambda>v.
     bindF (xfer I2C_STOP (take (I2C_PACKET_SIZE + 1) (i_obuf v)) (Some (i_ibuf v)) True s)
       (\<lambda>((ret, ibuf_len), s).
     if ret \<noteq> 0 then Inr (- EIO, v, s)
     else bindF (assigned ibuf_len) (\<lambda>n.
       if n < I2C_PACKET_SIZE then Inr (- EIO, v, s)
       else bindF (rd (i_ibuf v) s) (\<lambda>ibuf. bindF (i2c_reply ibuf) (\<lambda>(len, id).
         if len < 0 \<or> id \<noteq> i_id v then Inr (- EIO, v, s) else Inr (0, v, s))))))"

text \<open>The caller's buffer is \<open>None\<close> for NULL; copying no bytes does not touch it.\<close>

definition memcpy_to :: "bytes option \<Rightarrow> bytes \<Rightarrow> bytes option result" where
  "memcpy_to dst src =
     (if src = [] then Inr dst
      else bindF (deref dst) (\<lambda>buf. bindF (store 0 src buf) (\<lambda>buf. Inr (Some buf))))"

definition ljca_i2c_pure_read ::
  "'s xfer \<Rightarrow> (nat \<Rightarrow> 's \<Rightarrow> bytes result) \<Rightarrow> ljca_i2c_dev \<Rightarrow> bytes option \<Rightarrow> int \<Rightarrow> 's
   \<Rightarrow> ((int \<times> bytes option) \<times> ljca_i2c_dev \<times> 's) result" where
  "ljca_i2c_pure_read xfer rd v data len s =
     (if len > LJCA_I2C_MAX_XFER_SIZE then Inr ((- EINVAL, data), v, s)
      else
        bindF (i2c_fill (of_int len) [] v) (\<lambda>v.
        bindF (xfer I2C_READ (take (I2C_PACKET_SIZE + 1) (i_obuf v)) (Some (i_ibuf v)) True s)
          (\<lambda>((ret, ibuf_len), s).
        if ret \<noteq> 0 then Inr ((ret, data), v, s)
        else bindF (assigned ibuf_len) (\<lambda>n.
          if n < I2C_PACKET_SIZE then Inr ((- EIO, data), v, s)
          else bindF (rd (i_ibuf v) s) (\<lambda>ibuf. bindF (i2c_reply ibuf) (\<lambda>(rlen, id).
            if rlen \<noteq> len \<or> id \<noteq> i_id v then Inr ((- EIO, data), v, s)
            else bindF (load I2C_PACKET_SIZE (nat len) ibuf) (\<lambda>src.
                 bindF (memcpy_to data src) (\<lambda>data. Inr ((0, data), v, s)))))))))"

definition ljca_i2c_read ::
  "'s xfer \<Rightarrow> (nat \<Rightarrow> 's \<Rightarrow> bytes result) \<Rightarrow> ljca_i2c_dev \<Rightarrow> u8 \<Rightarrow> bytes option \<Rightarrow> u8 \<Rightarrow> 's
   \<Rightarrow> ((int \<times> bytes option) \<times> ljca_i2c_dev \<times> 's) result" where
  "ljca_i2c_read xfer rd v slave_addr data len s =
     bindF (ljca_i2c_start xfer rd v slave_addr READ_XFER_TYPE s) (\<lambda>(ret, v, s).
     if ret \<noteq> 0 then Inr ((ret, data), v, s)
     else
       bindF (ljca_i2c_pure_read xfer rd v data (uint len) s) (\<lambda>((ret, data), v, s).
       if ret \<noteq> 0 then Inr ((ret, data), v, s)
       else bindF (ljca_i2c_stop xfer rd v slave_addr s) (\<lambda>(ret, v, s). Inr ((ret, data), v, s))))"

definition ljca_i2c_pure_write ::
  "'s xfer \<Rightarrow> (nat \<Rightarrow> 's \<Rightarrow> bytes result) \<Rightarrow> ljca_i2c_dev \<Rightarrow> bytes \<Rightarrow> u8 \<Rightarrow> 's
   \<Rightarrow> (int \<times> ljca_i2c_dev \<times> 's) result" where
  "ljca_i2c_pure_write xfer rd v data len s =
     (if uint len > LJCA_I2C_MAX_XFER_SIZE then Inr (- EINVAL, v, s)
      else
        bindF (load 0 (unat len) data) (\<lambda>src.
        bindF (i2c_fill (ucast len) src v) (\<lambda>v.
        bindF (xfer I2C_WRITE (take (I2C_PACKET_SIZE + unat len) (i_obuf v)) (Some (i_ibuf v)) True s)
          (\<lambda>((ret, ibuf_len), s).
        if ret \<noteq> 0 then Inr (- EIO, v, s)
        else bindF (assigned ibuf_len) (\<lambda>n.
          if n < I2C_PACKET_SIZE then Inr (- EIO, v, s)
          else bindF (rd (i_ibuf v) s) (\<lambda>ibuf. bindF (i2c_reply ibuf) (\<lambda>(rlen, id).
            if rlen \<noteq> uint len \<or> id \<noteq> i_id v then Inr (- EIO, v, s) else Inr (0, v, s))))))))"

definition ljca_i2c_write ::
  "'s xfer \<Rightarrow> (nat \<Rightarrow> 's \<Rightarrow> bytes result) \<Rightarrow> ljca_i2c_dev \<Rightarrow> u8 \<Rightarrow> bytes option \<Rightarrow> u8 \<Rightarrow> 's
   \<Rightarrow> (int \<times> ljca_i2c_dev \<times> 's) result" where
  "ljca_i2c_write xfer rd v slave_addr data len s =
     (case data of
        None \<Rightarrow> Inr (- EINVAL, v, s)
      | Some buf \<Rightarrow>
          bindF (ljca_i2c_start xfer rd v slave_addr WRITE_XFER_TYPE s) (\<lambda>(ret, v, s).
          if ret \<noteq> 0 then Inr (ret, v, s)
          else
            bindF (ljca_i2c_pure_write xfer rd v buf len s) (\<lambda>(ret, v, s).
            if ret \<noteq> 0 then Inr (ret, v, s) else ljca_i2c_stop xfer rd v slave_addr s)))"

section \<open>Transfers\<close>

record i2c_msg =
  m_addr :: u16
  m_rd :: bool            \<comment> \<open>\<open>flags & I2C_M_RD\<close>\<close>
  m_len :: u16
  m_buf :: "bytes option"

text \<open>
  The address and the length of a message are 16-bit, the parameters 8-bit.  The result holds
  the messages with the buffers that have been filled.
\<close>

fun i2c_xfer_loop ::
  "'s xfer \<Rightarrow> (nat \<Rightarrow> 's \<Rightarrow> bytes result) \<Rightarrow> ljca_i2c_dev \<Rightarrow> i2c_msg list \<Rightarrow> 's
   \<Rightarrow> ((int \<times> i2c_msg list) \<times> ljca_i2c_dev \<times> 's) result" where
  "i2c_xfer_loop xfer rd v [] s = Inr ((0, []), v, s)"
| "i2c_xfer_loop xfer rd v (m # ms) s =
     bindF (if m_rd m
            then bindF (ljca_i2c_read xfer rd v (ucast (m_addr m)) (m_buf m) (ucast (m_len m)) s)
                   (\<lambda>((ret, data), v, s). Inr ((ret, m\<lparr>m_buf := data\<rparr>), v, s))
            else bindF (ljca_i2c_write xfer rd v (ucast (m_addr m)) (m_buf m) (ucast (m_len m)) s)
                   (\<lambda>(ret, v, s). Inr ((ret, m), v, s)))
       (\<lambda>((ret, m), v, s).
       if ret \<noteq> 0 then Inr ((ret, m # ms), v, s)
       else bindF (i2c_xfer_loop xfer rd v ms s) (\<lambda>((ret, ms), v, s). Inr ((ret, m # ms), v, s)))"

definition ljca_i2c_xfer ::
  "'s xfer \<Rightarrow> (nat \<Rightarrow> 's \<Rightarrow> bytes result) \<Rightarrow> ljca_i2c_dev option \<Rightarrow> i2c_msg list \<Rightarrow> 's
   \<Rightarrow> ((int \<times> i2c_msg list) \<times> ljca_i2c_dev option \<times> 's) result" where
  "ljca_i2c_xfer xfer rd adapdata msgs s =
     (case adapdata of
        None \<Rightarrow> Inr ((- EINVAL, msgs), None, s)
      | Some v \<Rightarrow>
          bindF (i2c_xfer_loop xfer rd v msgs s) (\<lambda>((ret, ms), v, s).
          Inr ((if ret \<noteq> 0 then ret else int (length msgs), ms), Some v, s)))"

text \<open>The bits of the i2c core's functionality mask, and what the adapter tells it of its limits.\<close>

definition ljca_i2c_func :: "u32 \<Rightarrow> u32 \<Rightarrow> u32" where
  "ljca_i2c_func I2C_FUNC_I2C I2C_FUNC_SMBUS_EMUL = I2C_FUNC_I2C OR I2C_FUNC_SMBUS_EMUL"

record i2c_adapter_quirks =
  max_read_len :: u16
  max_write_len :: u16

definition ljca_i2c_quirks :: i2c_adapter_quirks where
  "ljca_i2c_quirks = \<lparr>max_read_len = of_int LJCA_I2C_MAX_XFER_SIZE, max_write_len = of_int LJCA_I2C_MAX_XFER_SIZE\<rparr>"

section \<open>ACPI binding and probe\<close>

text \<open>\<open>snprintf\<close> into 2 and 5 bytes.\<close>

definition i2c_uid2 :: "u8 \<Rightarrow> string" where
  "i2c_uid2 cid = take 1 (dec (unat cid))"

definition i2c_uid2_v2 :: "u8 \<Rightarrow> string" where
  "i2c_uid2_v2 cid = take 4 (''VIC'' @ dec (unat cid))"

definition i2c_match_device_ids :: "string \<Rightarrow> string \<Rightarrow> string \<Rightarrow> acpi_dev \<Rightarrow> bool" where
  "i2c_match_device_ids hid1 uid2 uid2_v2 adev \<longleftrightarrow>
     ad_hid_uid_match adev hid1 uid2 \<or> ad_hid_uid_match adev hid1 uid2_v2"

text \<open>
  The companion set on the adapter; \<open>None\<close> in the outer option when \<open>ACPI_COMPANION_SET\<close> is
  not reached.
\<close>

definition try_bind_acpi ::
  "bool \<Rightarrow> acpi_dev option \<Rightarrow> acpi_dev list option \<Rightarrow> u8 \<Rightarrow> acpi_dev option option" where
  "try_bind_acpi v6 cur parent cid =
     (case cur of
        None \<Rightarrow> None
      | Some c \<Rightarrow>
          if ad_uid c = None \<or> ad_uid c = Some (i2c_uid2 cid) \<or> ad_uid c = Some (i2c_uid2_v2 cid)
          then Some (Some c)
          else
            (case parent of
               None \<Rightarrow> None
             | Some children \<Rightarrow>
                 (case find_index (i2c_match_device_ids (ad_hid c) (i2c_uid2 cid) (i2c_uid2_v2 cid)) children of
                    Some i \<Rightarrow> Some (Some (children ! i))
                  | None \<Rightarrow> if v6 then Some None else None)))"

text \<open>
  \<open>add_ret\<close> is the answer of \<open>i2c_add_adapter\<close>; \<open>v5_17\<close> and \<open>v6\<close> say which kernel the module
  is built for.
\<close>

definition ljca_i2c_probe ::
  "'w usb_env \<Rightarrow> bool \<Rightarrow> bool \<Rightarrow> acpi_dev option \<Rightarrow> acpi_dev list option \<Rightarrow> platform_device \<Rightarrow> int
   \<Rightarrow> 'w ljca_dev \<Rightarrow> ((int \<times> ljca_i2c_dev option) \<times> 'w ljca_dev) result" where
  "ljca_i2c_probe E v5_17 v6 cur parent pdev add_ret d =
     (case pd_info (pdev_platdata pdev) of
        I2c_info cid _ _ \<Rightarrow>
          let (ok, d) = kmalloc_ok E d in
          if \<not> ok then Inr ((- ENOMEM, None), d)
          else
            let (ibuf, d) = heap_new (replicate LJCA_I2C_BUF_SIZE 0) d;
                companion = (case try_bind_acpi v6 cur parent cid of Some c \<Rightarrow> c | None \<Rightarrow> None);
                v = \<lparr>i_id = cid, i_obuf = replicate LJCA_I2C_BUF_SIZE 0, i_ibuf = ibuf,
                     i_companion = companion, i_deps_cleared = False\<rparr> in
            bindF (ljca_i2c_init (ljca_transfer E (Some pdev)) v d) (\<lambda>(ret, v, d).
            if ret \<noteq> 0 then Inr ((- EIO, Some v), d)
            else if add_ret \<noteq> 0 then Inr ((add_ret, Some v), d)
            else Inr ((0, Some (v\<lparr>i_deps_cleared := (v5_17 \<and> i_companion v \<noteq> None)\<rparr>)), d))
      | _ \<Rightarrow> Inl OutOfBounds)"

text \<open>\<open>i2c_del_adapter\<close> is the core's.\<close>

definition ljca_i2c_remove :: "(ljca_i2c_dev \<Rightarrow> 'c \<Rightarrow> 'c) \<Rightarrow> ljca_i2c_dev \<Rightarrow> 'c \<Rightarrow> int \<times> 'c" where
  "ljca_i2c_remove i2c_del_adapter v core = (0, i2c_del_adapter v core)"

section \<open>Commands over the bus\<close>

definition i2c_same :: "ljca_i2c_dev \<Rightarrow> ljca_i2c_dev \<Rightarrow> bool" where
  "i2c_same v v' \<longleftrightarrow> i_id v' = i_id v \<and> i_ibuf v' = i_ibuf v \<and> length (i_obuf v') = length (i_obuf v)"

abbreviation i2c_wf :: "ljca_i2c_dev \<Rightarrow> bool" where
  "i2c_wf v \<equiv> length (i_obuf v) = LJCA_I2C_BUF_SIZE"

lemma i2c_same_refl [simp]: "i2c_same v v"
  by (simp add: i2c_same_def)

lemma i2c_same_trans: "i2c_same v v' \<Longrightarrow> i2c_same v' v'' \<Longrightarrow> i2c_same v v''"
  by (simp add: i2c_same_def)

lemma i2c_fill_Inr:
  assumes "i2c_fill len data v = Inr v'"
  shows "i2c_same v v' \<and> take (I2C_PACKET_SIZE + length data) (i_obuf v') = i_id v # le_bytes 2 len @ data"
proof -
  let ?src = "i_id v # le_bytes 2 len @ data"
  have v': "length ?src \<le> length (i_obuf v)" "v' = v\<lparr>i_obuf := ?src @ drop (length ?src) (i_obuf v)\<rparr>"
    using assms by (auto simp: i2c_fill_def bindF_eq_Inr store_eq_Inr)
  have n: "I2C_PACKET_SIZE + length data = length ?src" by simp
  have "take (length ?src) (i_obuf v') = ?src" unfolding v'(2) by simp
  then show ?thesis using v' unfolding n by (simp add: i2c_same_def)
qed

definition start_packet :: "ljca_i2c_dev \<Rightarrow> u8 \<Rightarrow> xfer_type \<Rightarrow> u8 \<times> bytes" where
  "start_packet v a type =
     (I2C_START, i_id v # le_bytes 2 (1 :: u16) @ [push_bit 1 a OR (if type = READ_XFER_TYPE then 1 else 0)])"

definition stop_packet :: "ljca_i2c_dev \<Rightarrow> u8 \<times> bytes" where
  "stop_packet v = (I2C_STOP, i_id v # le_bytes 2 (1 :: u16) @ [0])"

context ljca_bus
begin

lemma i2c_start_cases:
  assumes "ljca_i2c_start xfer rd v a type s = Inr (r, v', s')"
  shows "i2c_same v v' \<and> (r = 0 \<or> r = - EIO) \<and>
    (sent s' = sent s \<or> sent s' = sent s @ [start_packet v a type]) \<and>
    (r = 0 \<longrightarrow> sent s' = sent s @ [start_packet v a type])"
proof -
  let ?addr = "push_bit 1 a OR (if type = READ_XFER_TYPE then 1 else 0)"
  obtain v1 ret l s1 where f: "i2c_fill 1 [?addr] v = Inr v1"
    and x: "xfer I2C_START (take (I2C_PACKET_SIZE + 1) (i_obuf v1)) (Some (i_ibuf v1)) True s = Inr ((ret, l), s1)"
    and out: "v' = v1" "s' = s1" "r = 0 \<or> r = - EIO" "r = 0 \<longrightarrow> ret = 0"
    using assms
    by (auto simp: ljca_i2c_start_def ljca_i2c_format_slave_addr_def bindF_eq_Inr split: if_splits)
  have p: "(I2C_START, take (I2C_PACKET_SIZE + 1) (i_obuf v1)) = start_packet v a type" and "i2c_same v v1"
    using i2c_fill_Inr [OF f] by (simp_all add: start_packet_def)
  then show ?thesis
    using out x xfer_sent_any [OF x] xfer_sent by (auto simp flip: p)
qed

lemma i2c_stop_cases:
  assumes "ljca_i2c_stop xfer rd v a s = Inr (r, v', s')"
  shows "i2c_same v v' \<and> (r = 0 \<or> r = - EIO) \<and>
    (sent s' = sent s \<or> sent s' = sent s @ [stop_packet v]) \<and>
    (r = 0 \<longrightarrow> sent s' = sent s @ [stop_packet v])"
proof -
  obtain v1 ret l s1 where f: "i2c_fill 1 [0] v = Inr v1"
    and x: "xfer I2C_STOP (take (I2C_PACKET_SIZE + 1) (i_obuf v1)) (Some (i_ibuf v1)) True s = Inr ((ret, l), s1)"
    and out: "v' = v1" "s' = s1" "r = 0 \<or> r = - EIO" "r = 0 \<longrightarrow> ret = 0"
    using assms by (auto simp: ljca_i2c_stop_def bindF_eq_Inr split: if_splits)
  have p: "(I2C_STOP, take (I2C_PACKET_SIZE + 1) (i_obuf v1)) = stop_packet v" and "i2c_same v v1"
    using i2c_fill_Inr [OF f] by (simp_all add: stop_packet_def)
  then show ?thesis
    using out x xfer_sent_any [OF x] xfer_sent by (auto simp flip: p)
qed

text \<open>The reply of a command of which a length byte and an id are checked.\<close>

lemma i2c_pure_write_cases:
  assumes "ljca_i2c_pure_write xfer rd v data len s = Inr (r, v', s')"
  shows "i2c_same v v' \<and> (r = 0 \<or> r = - EIO) \<and>
    (sent s' = sent s \<or>
     sent s' = sent s @ [(I2C_WRITE, i_id v # le_bytes 2 (ucast len :: u16) @ take (unat len) data)]) \<and>
    (57 < unat len \<longrightarrow> r = - EIO \<and> s' = s) \<and>
    (r = 0 \<longrightarrow> unat len \<le> 57 \<and> unat len \<le> length data \<and>
      sent s' = sent s @ [(I2C_WRITE, i_id v # le_bytes 2 (ucast len :: u16) @ take (unat len) data)])"
proof -
  have "uint len \<le> LJCA_I2C_MAX_XFER_SIZE" using uint_bounded [of len] by simp
  then obtain v1 ret l s1 where ld: "load 0 (unat len) data = Inr (take (unat len) data)" "unat len \<le> length data"
    and f: "i2c_fill (ucast len) (take (unat len) data) v = Inr v1"
    and x: "xfer I2C_WRITE (take (I2C_PACKET_SIZE + unat len) (i_obuf v1)) (Some (i_ibuf v1)) True s
      = Inr ((ret, l), s1)"
    and out: "v' = v1" "s' = s1" "r = 0 \<or> r = - EIO" "r = 0 \<longrightarrow> ret = 0" "ret \<noteq> 0 \<longrightarrow> r = - EIO"
    using assms by (auto simp: ljca_i2c_pure_write_def bindF_eq_Inr load_eq_Inr split: if_splits)
  have p: "take (I2C_PACKET_SIZE + unat len) (i_obuf v1) =
      i_id v # le_bytes 2 (ucast len :: u16) @ take (unat len) data" and same: "i2c_same v v1"
    using i2c_fill_Inr [OF f] ld by simp_all
  have long: "ret \<noteq> 0 \<and> s1 = s" if "57 < unat len"
  proof -
    have "LJCA_MAX_PAYLOAD < length (take (I2C_PACKET_SIZE + unat len) (i_obuf v1))"
      using p ld that by simp
    from xfer_too_long [OF this, of I2C_WRITE "Some (i_ibuf v1)" True s] x show ?thesis by auto
  qed
  let ?w = "(I2C_WRITE, i_id v # le_bytes 2 (ucast len :: u16) @ take (unat len) data)"
  have any: "sent s1 = sent s \<or> sent s1 = sent s @ [?w]" using xfer_sent_any [OF x] unfolding p .
  have ok: "sent s1 = sent s @ [?w]" if "ret = 0" using xfer_sent [of I2C_WRITE] x p that by simp
  show ?thesis
    using out(3-5) any ok ld(2) same long unfolding out(1,2) by (cases "r = 0"; cases "57 < unat len") simp_all
qed

lemma i2c_pure_read_cases:
  assumes "ljca_i2c_pure_read xfer rd v data len s = Inr ((r, data'), v', s')" and "0 \<le> len" and "i2c_wf v"
  shows "i2c_same v v' \<and> (r \<noteq> 0 \<longrightarrow> data' = data) \<and>
    (\<exists>cs. sent s' = sent s @ cs \<and>
       (cs = [] \<or> (\<exists>x. cs = [(I2C_READ, i_id v # le_bytes 2 (of_int len :: u16) @ [x])]))) \<and>
    (r = 0 \<longrightarrow> (\<exists>x. sent s' = sent s @ [(I2C_READ, i_id v # le_bytes 2 (of_int len :: u16) @ [x])]) \<and>
       (\<exists>ibuf. rd (i_ibuf v) s' = Inr ibuf \<and> ibuf ! 0 = i_id v \<and>
          load I2C_PACKET_SIZE (nat len) ibuf = Inr (take (nat len) (drop I2C_PACKET_SIZE ibuf)) \<and>
          memcpy_to data (take (nat len) (drop I2C_PACKET_SIZE ibuf)) = Inr data'))"
proof (cases "len > LJCA_I2C_MAX_XFER_SIZE")
  case True
  then show ?thesis using assms by (auto simp: ljca_i2c_pure_read_def)
next
  case False
  then obtain v1 ret l s1 where f: "i2c_fill (of_int len) [] v = Inr v1"
    and x: "xfer I2C_READ (take (I2C_PACKET_SIZE + 1) (i_obuf v1)) (Some (i_ibuf v1)) True s = Inr ((ret, l), s1)"
    and out: "v' = v1" "s' = s1" "r = 0 \<longrightarrow> ret = 0" "r \<noteq> 0 \<longrightarrow> data' = data"
    and copied: "r = 0 \<longrightarrow> (\<exists>ibuf. rd (i_ibuf v1) s' = Inr ibuf \<and> ibuf ! 0 = i_id v1 \<and>
          load I2C_PACKET_SIZE (nat len) ibuf = Inr (take (nat len) (drop I2C_PACKET_SIZE ibuf)) \<and>
          memcpy_to data (take (nat len) (drop I2C_PACKET_SIZE ibuf)) = Inr data')"
    using assms(1)
    by (auto simp: ljca_i2c_pure_read_def bindF_eq_Inr i2c_reply_def load_eq_Inr split: if_splits)
  have same: "i2c_same v v1" and "take I2C_PACKET_SIZE (i_obuf v1) = i_id v # le_bytes 2 (of_int len :: u16)"
    using i2c_fill_Inr [OF f] by simp_all
  then have p: "take (I2C_PACKET_SIZE + 1) (i_obuf v1) = i_id v # le_bytes 2 (of_int len :: u16) @ [i_obuf v1 ! 3]"
    using assms(3) take_Suc_conv_app_nth [of 3 "i_obuf v1"] by (simp add: i2c_same_def)
  show ?thesis
    using out copied same x xfer_sent_any [OF x] xfer_sent unfolding p
    by (auto simp: i2c_same_def)
qed

end

text \<open>The commands of a whole message.\<close>

definition write_packet :: "ljca_i2c_dev \<Rightarrow> u8 \<Rightarrow> bytes \<Rightarrow> u8 \<times> bytes" where
  "write_packet v len data = (I2C_WRITE, i_id v # le_bytes 2 (ucast len :: u16) @ take (unat len) data)"

definition read_packet :: "ljca_i2c_dev \<Rightarrow> u8 \<Rightarrow> u8 \<Rightarrow> u8 \<times> bytes" where
  "read_packet v len x = (I2C_READ, i_id v # le_bytes 2 (ucast len :: u16) @ [x])"

lemma i2c_same_packets:
  "i2c_same v v' \<Longrightarrow> start_packet v' a t = start_packet v a t \<and> stop_packet v' = stop_packet v \<and>
     write_packet v' n d = write_packet v n d \<and> read_packet v' n x = read_packet v n x"
  by (simp add: i2c_same_def start_packet_def stop_packet_def write_packet_def read_packet_def)

context ljca_bus
begin

lemma i2c_write_cases:
  assumes "ljca_i2c_write xfer rd v a (Some buf) len s = Inr (r, v', s')"
  shows "i2c_same v v' \<and>
    (if r = 0 then unat len \<le> 57 \<and> unat len \<le> length buf \<and>
       sent s' = sent s @ [start_packet v a WRITE_XFER_TYPE, write_packet v len buf, stop_packet v]
     else r = - EIO \<and> (57 < unat len \<longrightarrow> sent s' = sent s \<or> sent s' = sent s @ [start_packet v a WRITE_XFER_TYPE]))"
proof -
  obtain r1 v1 s1 where st: "ljca_i2c_start xfer rd v a WRITE_XFER_TYPE s = Inr (r1, v1, s1)"
    and rest: "(if r1 \<noteq> 0 then Inr (r1, v1, s1)
          else bindF (ljca_i2c_pure_write xfer rd v1 buf len s1) (\<lambda>(ret, v, s).
            if ret \<noteq> 0 then Inr (ret, v, s) else ljca_i2c_stop xfer rd v a s)) = Inr (r, v', s')"
    using assms by (auto simp: ljca_i2c_write_def bindF_eq_Inr)
  note a1 = i2c_start_cases [OF st]
  show ?thesis
  proof (cases "r1 = 0")
    case False
    then show ?thesis using rest a1 by auto
  next
    case True
    then obtain r2 v2 s2 where w: "ljca_i2c_pure_write xfer rd v1 buf len s1 = Inr (r2, v2, s2)"
      and rest2: "(if r2 \<noteq> 0 then Inr (r2, v2, s2) else ljca_i2c_stop xfer rd v2 a s2) = Inr (r, v', s')"
      using rest by (auto simp: bindF_eq_Inr)
    note a2 = i2c_pure_write_cases [OF w, folded write_packet_def]
    have same: "i2c_same v v2" using a1 a2 i2c_same_trans by blast
    show ?thesis
    proof (cases "r2 = 0")
      case False
      then show ?thesis using rest2 a1 a2 True same by auto
    next
      case r2: True
      then have sp: "ljca_i2c_stop xfer rd v2 a s2 = Inr (r, v', s')" using rest2 by simp
      note a3 = i2c_stop_cases [OF sp]
      have "i2c_same v v'" using same a3 i2c_same_trans by blast
      moreover have "unat len \<le> 57 \<and> unat len \<le> length buf" using a2 r2 by blast
      moreover have "sent s2 = sent s @ [start_packet v a WRITE_XFER_TYPE, write_packet v len buf]"
        using a1 a2 True r2 i2c_same_packets [of v v1] by (simp add: write_packet_def)
      moreover have "stop_packet v2 = stop_packet v" using i2c_same_packets [OF same] by blast
      ultimately show ?thesis using a3 by auto
    qed
  qed
qed

lemma i2c_read_cases:
  assumes "ljca_i2c_read xfer rd v a data len s = Inr ((0, data'), v', s')" and "i2c_wf v"
  shows "(\<exists>x. sent s' = sent s @ [start_packet v a READ_XFER_TYPE, read_packet v len x, stop_packet v]) \<and>
    (\<exists>src. length src = unat len \<and> memcpy_to data src = Inr data')"
proof -
  obtain v1 s1 v2 s2 where st: "ljca_i2c_start xfer rd v a READ_XFER_TYPE s = Inr (0, v1, s1)"
    and rd: "ljca_i2c_pure_read xfer rd v1 data (uint len) s1 = Inr ((0, data'), v2, s2)"
    and sp: "ljca_i2c_stop xfer rd v2 a s2 = Inr (0, v', s')"
    using assms(1) by (auto simp: ljca_i2c_read_def bindF_eq_Inr split: if_splits)
  note a1 = i2c_start_cases [OF st]
  have wf1: "i2c_wf v1" using a1 assms(2) by (simp add: i2c_same_def)
  have "0 \<le> uint len" by simp
  note a2 = i2c_pure_read_cases [OF rd this wf1]
  obtain x where x: "sent s2 = sent s1 @ [(I2C_READ, i_id v1 # le_bytes 2 (of_int (uint len) :: u16) @ [x])]"
    using a2 by blast
  have "i_id v1 = i_id v" using a1 by (simp add: i2c_same_def)
  then have "sent s2 = sent s1 @ [read_packet v len x]"
    using x by (simp add: read_packet_def)
  moreover have "i2c_same v v2" using a1 a2 i2c_same_trans by blast
  then have "stop_packet v2 = stop_packet v" using i2c_same_packets by blast
  ultimately have "sent s' = sent s @ [start_packet v a READ_XFER_TYPE, read_packet v len x, stop_packet v]"
    using a1 i2c_stop_cases [OF sp] by simp
  moreover obtain ibuf where "load I2C_PACKET_SIZE (nat (uint len)) ibuf =
        Inr (take (nat (uint len)) (drop I2C_PACKET_SIZE ibuf))"
      "memcpy_to data (take (nat (uint len)) (drop I2C_PACKET_SIZE ibuf)) = Inr data'"
    using a2 by blast
  then have "\<exists>src. length src = unat len \<and> memcpy_to data src = Inr data'"
    by (intro exI [of _ "take (nat (uint len)) (drop I2C_PACKET_SIZE ibuf)"]) (auto dest: load_length)
  ultimately show ?thesis by blast
qed

end

section \<open>Properties\<close>

text \<open>
  C14: Writing a message.  Success means that exactly start, write and stop were sent, in this
  order, with the address shifted left, the length and the bytes of the caller.  A message of more
  than 57 bytes never succeeds although the adapter advertises 256: the payload is refused by the
  core, the caller sees \<open>-EIO\<close>, and the start already sent is not followed by a stop.
\<close>

theorem i2c_write_protocol:
  assumes "ljca_i2c_write (ljca_transfer E (Some p)) heap_read v a (Some buf) len d = Inr (r, v', d')"
    and "T = pd_type (pdev_platdata p)"
  shows "if r = 0 then unat len \<le> 57 \<and> unat len \<le> length buf \<and>
       bus_sent T d' = bus_sent T d @ [(I2C_START, [i_id v, 1, 0, push_bit 1 a]),
          (I2C_WRITE, i_id v # le_bytes 2 (ucast len :: u16) @ take (unat len) buf),
          (I2C_STOP, [i_id v, 1, 0, 0])]
     else r = - EIO \<and> (57 < unat len \<longrightarrow>
       bus_sent T d' = bus_sent T d \<or> bus_sent T d' = bus_sent T d @ [(I2C_START, [i_id v, 1, 0, push_bit 1 a])])"
proof -
  have one: "le_bytes 2 (1 :: u16) = [1, 0]" by code_simp
  show ?thesis
    using ljca.i2c_write_cases [OF assms(1)] assms(2)
    by (auto simp: start_packet_def stop_packet_def write_packet_def one split: if_splits)
qed

definition demo_i2c :: ljca_i2c_dev where
  "demo_i2c = \<lparr>i_id = 1, i_obuf = replicate LJCA_I2C_BUF_SIZE 0, i_ibuf = 0, i_companion = None, i_deps_cleared = False\<rparr>"

definition i2c_demo_pdev :: platform_device where
  "i2c_demo_pdev = \<lparr>pdev_id = 5, pdev_platdata = \<lparr>pd_type = GPIO_STUB, pd_info = I2c_info 1 0 0\<rparr>\<rparr>"

theorem i2c_write_protocol_witness:
  "\<exists>v' d'. ljca_i2c_write (ljca_transfer scripted_usb (Some i2c_demo_pdev)) heap_read demo_i2c 0x10 (Some [7, 8]) 2
       (demo_dev [[gpio_ack 3 [1, 0, 0]], [gpio_ack 6 [1, 2, 0]], [gpio_ack 4 [1, 0, 0]]]) = Inr (0, v', d') \<and>
     bus_sent GPIO_STUB d' = [(I2C_START, [1, 1, 0, 0x20]), (I2C_WRITE, [1, 2, 0, 7, 8]), (I2C_STOP, [1, 1, 0, 0])]"
proof -
  let ?d = "demo_dev [[gpio_ack 3 [1, 0, 0]], [gpio_ack 6 [1, 2, 0]], [gpio_ack 4 [1, 0, 0]]]"
  have "value_of (ljca_i2c_write (ljca_transfer scripted_usb (Some i2c_demo_pdev)) heap_read demo_i2c 0x10
      (Some [7, 8]) 2 ?d) = Inr 0"
    by code_simp
  then obtain v' d' where
    run: "ljca_i2c_write (ljca_transfer scripted_usb (Some i2c_demo_pdev)) heap_read demo_i2c 0x10
      (Some [7, 8]) 2 ?d = Inr (0, v', d')"
    by (auto simp: value_of_Inr)
  have "bus_sent GPIO_STUB ?d = []" by (simp add: bus_sent_def demo_dev_def blank_dev_def)
  moreover have "le_bytes 2 (ucast (2 :: u8) :: u16) = [2, 0]" by code_simp
  moreover have "push_bit 1 (0x10 :: u8) = 0x20" by code_simp
  ultimately show ?thesis
    using i2c_write_protocol [OF run refl] run by (simp add: i2c_demo_pdev_def demo_i2c_def)
qed

text \<open>
  Reading a message.  Success means that exactly start (with the read bit), read and stop
  were sent, and that \<open>len\<close> bytes were stored at the start of the caller's buffer, the rest of
  which is unchanged.
\<close>

lemma i2c_read_protocol:
  assumes "ljca_i2c_read (ljca_transfer E (Some p)) heap_read v a (Some buf) len d = Inr ((0, data'), v', d')"
    and "i2c_wf v" and "T = pd_type (pdev_platdata p)"
  shows "(\<exists>x. bus_sent T d' = bus_sent T d @ [(I2C_START, [i_id v, 1, 0, push_bit 1 a OR 1]),
          (I2C_READ, i_id v # le_bytes 2 (ucast len :: u16) @ [x]), (I2C_STOP, [i_id v, 1, 0, 0])]) \<and>
    (\<exists>src. length src = unat len \<and> unat len \<le> length buf \<and> data' = Some (src @ drop (unat len) buf))"
proof -
  have one: "le_bytes 2 (1 :: u16) = [1, 0]" by code_simp
  obtain x src where "bus_sent T d' = bus_sent T d @ [start_packet v a READ_XFER_TYPE, read_packet v len x, stop_packet v]"
    and src: "length src = unat len" "memcpy_to (Some buf) src = Inr data'"
    using ljca.i2c_read_cases [OF assms(1,2)] assms(3) by blast
  moreover have "unat len \<le> length buf \<and> data' = Some (src @ drop (unat len) buf)"
    using src by (auto simp: memcpy_to_def bindF_eq_Inr store_eq_Inr split: if_splits)
  ultimately show ?thesis
    using src(1) by (auto simp: start_packet_def stop_packet_def read_packet_def one)
qed

text \<open>
  The 16-bit length of a message is passed on as 8 bits.  A read whose length is a multiple of
  256 (which the advertised limit allows) returns success without storing a byte: the read command
  asks for 0 bytes.
\<close>

lemma i2c_length_truncated:
  assumes "i2c_xfer_loop (ljca_transfer E (Some p)) heap_read v [m] d = Inr ((0, ms), v', d')"
    and "m_rd m" and "i2c_wf v" and "(256 :: nat) dvd unat (m_len m)"
  shows "map m_buf ms = [m_buf m] \<and>
    (\<exists>x. (I2C_READ, [i_id v, 0, 0, x]) \<in> set (bus_sent (pd_type (pdev_platdata p)) d'))"
proof -
  have "unat (ucast (m_len m) :: u8) = unat (m_len m) mod 256"
    by (simp add: unsigned_ucast_eq take_bit_eq_mod)
  then have zero: "(ucast (m_len m) :: u8) = 0"
    using assms(4) by (metis dvd_imp_mod_0 unat_eq_zero)
  obtain data where run: "ljca_i2c_read (ljca_transfer E (Some p)) heap_read v (ucast (m_addr m)) (m_buf m) 0 d
      = Inr ((0, data), v', d')" and ms: "ms = [m\<lparr>m_buf := data\<rparr>]"
    using assms(1,2) zero by (auto simp: bindF_eq_Inr split: if_splits)
  obtain x src where "bus_sent (pd_type (pdev_platdata p)) d' = bus_sent (pd_type (pdev_platdata p)) d @
        [start_packet v (ucast (m_addr m)) READ_XFER_TYPE, read_packet v 0 x, stop_packet v]"
    and src: "length src = unat (0 :: u8)" "memcpy_to (m_buf m) src = Inr data"
    using ljca.i2c_read_cases [OF run assms(3)] by blast
  moreover have "le_bytes 2 (0 :: u16) = [0, 0]" by code_simp
  moreover have "data = m_buf m" using src by (simp add: memcpy_to_def)
  ultimately show ?thesis using ms by (auto simp: read_packet_def)
qed

text \<open>
  The advertised write limit is wider than a packet: no write message of 58 to 255 bytes, all of which the
  quirks admit, is ever carried out; it fails with \<open>-EIO\<close> and at most the start condition has been sent.
\<close>

lemma i2c_quirks_exceed_packet:
  assumes "i2c_xfer_loop (ljca_transfer E (Some p)) heap_read v [m] d = Inr ((r, ms), v', d')"
    and "\<not> m_rd m" and "m_buf m = Some buf" and "57 < unat (m_len m)" and "unat (m_len m) < 256"
  shows "m_len m \<le> max_write_len ljca_i2c_quirks \<and> r = - EIO \<and>
    (bus_sent (pd_type (pdev_platdata p)) d' = bus_sent (pd_type (pdev_platdata p)) d \<or>
     bus_sent (pd_type (pdev_platdata p)) d' = bus_sent (pd_type (pdev_platdata p)) d @
       [start_packet v (ucast (m_addr m)) WRITE_XFER_TYPE])"
proof -
  have "unat (ucast (m_len m) :: u8) = unat (m_len m) mod 256" by (simp add: unsigned_ucast_eq take_bit_eq_mod)
  then have n: "unat (ucast (m_len m) :: u8) = unat (m_len m)" using assms(5) by simp
  obtain r0 v0 d0 where w: "ljca_i2c_write (ljca_transfer E (Some p)) heap_read v (ucast (m_addr m)) (Some buf) (ucast (m_len m)) d
      = Inr (r0, v0, d0)" and out: "r = r0" "d' = d0"
    using assms(1-3) by (auto simp: bindF_eq_Inr split: if_splits)
  have "m_len m \<le> max_write_len ljca_i2c_quirks" using assms(5) by (simp add: ljca_i2c_quirks_def word_le_nat_alt)
  then show ?thesis using ljca.i2c_write_cases [OF w] assms(4) n out by (auto split: if_splits)
qed

end
