(* ===== verification/Ljca_Spi.thy ===== *)
theory Ljca_Spi
  imports Ljca_Gpio
begin

text \<open>
  \<^verbatim>\<open>drivers/spi/spi-ljca.c\<close>: the SPI controller behind the adapter.

  A pointer into a caller's buffer is the list of bytes from it to the end of the buffer.  The
  first byte of a transfer packet is the bit field \<open>id : 6, cmpl : 1, index : 1\<close>, laid out from
  the least significant bit.
\<close>

section \<open>State\<close>

record ljca_spi_dev =
  sp_id :: u8              \<comment> \<open>\<open>ctr_info->id\<close>\<close>
  sp_speed :: u8
  sp_mode :: u8
  sp_obuf :: bytes
  sp_ibuf :: nat

abbreviation LJCA_SPI_INIT :: u8 where "LJCA_SPI_INIT \<equiv> 1"
abbreviation LJCA_SPI_READ :: u8 where "LJCA_SPI_READ \<equiv> 2"
abbreviation LJCA_SPI_WRITE :: u8 where "LJCA_SPI_WRITE \<equiv> 3"
abbreviation LJCA_SPI_WRITEREAD :: u8 where "LJCA_SPI_WRITEREAD \<equiv> 4"
abbreviation LJCA_SPI_DEINIT :: u8 where "LJCA_SPI_DEINIT \<equiv> 5"

abbreviation LJCA_SPI_BUS_MAX_HZ :: u32 where "LJCA_SPI_BUS_MAX_HZ \<equiv> 48000000"
abbreviation LJCA_SPI_BUS_SPEED_MIN :: int where "LJCA_SPI_BUS_SPEED_MIN \<equiv> 4"
abbreviation LJCA_SPI_BUF_SIZE :: nat where "LJCA_SPI_BUF_SIZE \<equiv> 60"
abbreviation LJCA_SPI_MAX_XFER_SIZE :: nat where "LJCA_SPI_MAX_XFER_SIZE \<equiv> 58"
abbreviation SPI_CPHA :: int where "SPI_CPHA \<equiv> 1"
abbreviation SPI_CPOL :: int where "SPI_CPOL \<equiv> 2"

section \<open>Packets\<close>

definition spi_indicator :: "u8 \<Rightarrow> int \<Rightarrow> int \<Rightarrow> u8" where
  "spi_indicator index i complete =
     (of_int i AND 0x3F) OR push_bit 6 (of_int complete AND 1) OR push_bit 7 (index AND 1)"

text \<open>Result: the return code and the buffer behind \<open>r_data\<close>.\<close>

definition ljca_spi_read_write ::
  "'s xfer \<Rightarrow> (nat \<Rightarrow> 's \<Rightarrow> bytes result) \<Rightarrow> ljca_spi_dev \<Rightarrow> bytes option \<Rightarrow> bytes option \<Rightarrow> nat \<Rightarrow> int
   \<Rightarrow> int \<Rightarrow> u8 \<Rightarrow> 's \<Rightarrow> ((int \<times> bytes option) \<times> ljca_spi_dev \<times> 's) result" where
  "ljca_spi_read_write xfer rd v w_data r_data len i complete cmd s =
     bindF (if cmd = LJCA_SPI_READ then Inr (2 :: u8, le_bytes 2 (of_nat len :: u16))
            else bindF (deref w_data) (\<lambda>w. bindF (load 0 len w) (\<lambda>d. Inr (of_nat len, d))))
       (\<lambda>(w_len, d).
     bindF (store 0 (spi_indicator (sp_id v) i complete # w_len # d) (sp_obuf v)) (\<lambda>ob.
     let v = v\<lparr>sp_obuf := ob\<rparr> in
     bindF (xfer cmd (take (nat (2 + sint w_len)) ob) (Some (sp_ibuf v)) True s) (\<lambda>((ret, ibuf_len), s).
     if ret \<noteq> 0 then Inr ((ret, r_data), v, s)
     else
       bindF (assigned ibuf_len) (\<lambda>n.
       bindF (rd (sp_ibuf v) s) (\<lambda>ibuf.
       bindF (load 0 2 ibuf) (\<lambda>h.
       let r_len = sint (h ! 1) in
       if n < 2 \<or> r_len \<le> 0 then Inr ((- EIO, r_data), v, s)
       else
         (case r_data of
            None \<Rightarrow> Inr ((0, None), v, s)
          | Some r \<Rightarrow>
              bindF (load 2 (nat r_len) ibuf) (\<lambda>src.
              bindF (store 0 src r) (\<lambda>r. Inr ((0, Some r), v, s))))))))))"

definition ljca_spi_init ::
  "'s xfer \<Rightarrow> ljca_spi_dev \<Rightarrow> int \<Rightarrow> int \<Rightarrow> 's \<Rightarrow> (int \<times> ljca_spi_dev \<times> 's) result" where
  "ljca_spi_init xfer v dv mode s =
     (if uint (sp_mode v) = mode \<and> uint (sp_speed v) = dv then Inr (0, v, s)
      else
        let polarity = (if mode AND SPI_CPOL \<noteq> 0 then 1 else 0);
            phrase = (if mode AND SPI_CPHA \<noteq> 0 then 1 else 0) in
        bindF (xfer LJCA_SPI_INIT [sp_id v, of_int dv, polarity OR push_bit 1 phrase] None False s)
          (\<lambda>((ret, _), s).
        if ret \<noteq> 0 then Inr (ret, v, s)
        else Inr (0, v\<lparr>sp_mode := of_int mode, sp_speed := of_int dv\<rparr>, s)))"

definition ljca_spi_deinit :: "'s xfer \<Rightarrow> ljca_spi_dev \<Rightarrow> 's \<Rightarrow> (int \<times> 's) result" where
  "ljca_spi_deinit xfer v s =
     bindF (xfer LJCA_SPI_DEINIT [sp_id v, 0, 0] None False s) (\<lambda>((ret, _), s). Inr (ret, s))"

section \<open>Transfers\<close>

text \<open>One fragment at \<open>offset\<close>; the received bytes go to the same offset of \<open>rx\<close>.\<close>

definition spi_fragment ::
  "'s xfer \<Rightarrow> (nat \<Rightarrow> 's \<Rightarrow> bytes result) \<Rightarrow> ljca_spi_dev \<Rightarrow> bytes option \<Rightarrow> bytes option \<Rightarrow> nat \<Rightarrow> nat
   \<Rightarrow> int \<Rightarrow> int \<Rightarrow> 's \<Rightarrow> ((int \<times> bytes option) \<times> ljca_spi_dev \<times> 's) result" where
  "spi_fragment xfer rd v tx rx offset cur_len i complete s =
     (let back = (\<lambda>((ret, r), v, s). Inr ((ret, map_option ((@) (the (map_option (take offset) rx))) r), v, s)) in
      case (tx, rx) of
        (Some t, Some r) \<Rightarrow>
          bindF (ljca_spi_read_write xfer rd v (Some (drop offset t)) (Some (drop offset r)) cur_len i
                   complete LJCA_SPI_WRITEREAD s) back
      | (Some t, None) \<Rightarrow>
          ljca_spi_read_write xfer rd v (Some (drop offset t)) None cur_len i complete LJCA_SPI_WRITE s
      | (None, Some r) \<Rightarrow>
          bindF (ljca_spi_read_write xfer rd v None (Some (drop offset r)) cur_len i complete
                   LJCA_SPI_READ s) back
      | (None, None) \<Rightarrow> Inr ((- EINVAL, rx), v, s))"

function spi_transfer_loop ::
  "'s xfer \<Rightarrow> (nat \<Rightarrow> 's \<Rightarrow> bytes result) \<Rightarrow> ljca_spi_dev \<Rightarrow> bytes option \<Rightarrow> bytes option \<Rightarrow> nat \<Rightarrow> nat
   \<Rightarrow> int \<Rightarrow> int \<Rightarrow> 's \<Rightarrow> ((int \<times> bytes option) \<times> ljca_spi_dev \<times> 's) result" where
  "spi_transfer_loop xfer rd v tx rx offset remaining i complete s =
     (if remaining = 0 then Inr ((0, rx), v, s)
      else
        let (cur_len, complete) =
              (if remaining > LJCA_SPI_MAX_XFER_SIZE then (LJCA_SPI_MAX_XFER_SIZE, complete)
               else (remaining, 1)) in
        bindF (spi_fragment xfer rd v tx rx offset cur_len i complete s) (\<lambda>((ret, rx), v, s).
        if ret \<noteq> 0 then Inr ((ret, rx), v, s)
        else spi_transfer_loop xfer rd v tx rx (offset + cur_len) (remaining - cur_len) (i + 1) complete s))"
  by pat_completeness auto

termination
  by (relation "measure (\<lambda>(xfer, rd, v, tx, rx, offset, remaining, i, complete, s). remaining)")
    (auto split: if_splits)

declare spi_transfer_loop.simps [simp del]

definition ljca_spi_transfer ::
  "'s xfer \<Rightarrow> (nat \<Rightarrow> 's \<Rightarrow> bytes result) \<Rightarrow> ljca_spi_dev \<Rightarrow> bytes option \<Rightarrow> bytes option \<Rightarrow> u16 \<Rightarrow> 's
   \<Rightarrow> ((int \<times> bytes option) \<times> ljca_spi_dev \<times> 's) result" where
  "ljca_spi_transfer xfer rd v tx rx len s = spi_transfer_loop xfer rd v tx rx 0 (unat len) 0 0 s"

text \<open>The clock code: \<open>DIV_ROUND_UP(max_speed_hz, speed_hz) / 2 - 1\<close> in 32-bit arithmetic.\<close>

definition spi_div :: "u32 \<Rightarrow> int result" where
  "spi_div speed_hz =
     (if speed_hz = 0 then Inl DivideByZero
      else
        let dv = sint ((LJCA_SPI_BUS_MAX_HZ + speed_hz - 1) div speed_hz div 2 - 1)
        in Inr (if dv > LJCA_SPI_BUS_SPEED_MIN then LJCA_SPI_BUS_SPEED_MIN else dv))"

record spi_xfer =
  x_tx :: "bytes option"
  x_rx :: "bytes option"
  x_len :: u32
  x_speed_hz :: u32

definition ljca_spi_transfer_one ::
  "'s xfer \<Rightarrow> (nat \<Rightarrow> 's \<Rightarrow> bytes result) \<Rightarrow> ljca_spi_dev \<Rightarrow> int \<Rightarrow> spi_xfer \<Rightarrow> 's
   \<Rightarrow> ((int \<times> bytes option) \<times> ljca_spi_dev \<times> 's) result" where
  "ljca_spi_transfer_one xfer rd v mode x s =
     bindF (spi_div (x_speed_hz x)) (\<lambda>dv.
     bindF (ljca_spi_init xfer v dv mode s) (\<lambda>(ret, v, s).
     if ret < 0 then Inr ((ret, x_rx x), v, s)
     else ljca_spi_transfer xfer rd v (x_tx x) (x_rx x) (ucast (x_len x)) s))"

section \<open>Probe and remove\<close>

definition ljca_spi_probe ::
  "'w usb_env \<Rightarrow> platform_device \<Rightarrow> int \<Rightarrow> 'w ljca_dev
   \<Rightarrow> ((int \<times> ljca_spi_dev option) \<times> 'w ljca_dev) result" where
  "ljca_spi_probe E pdev register_ret d =
     (case pd_info (pdev_platdata pdev) of
        Spi_info cid _ \<Rightarrow>
          let (ok, d) = kmalloc_ok E d in
          if \<not> ok then Inr ((- ENOMEM, None), d)
          else if register_ret < 0 then Inr ((register_ret, None), d)
          else
            let (ibuf, d) = heap_new (replicate LJCA_SPI_BUF_SIZE 0) d
            in Inr ((register_ret, Some \<lparr>sp_id = cid, sp_speed = 0, sp_mode = 0,
                      sp_obuf = replicate LJCA_SPI_BUF_SIZE 0, sp_ibuf = ibuf\<rparr>), d)
      | _ \<Rightarrow> Inl OutOfBounds)"

definition ljca_spi_dev_remove :: "'s xfer \<Rightarrow> ljca_spi_dev \<Rightarrow> 's \<Rightarrow> (int \<times> 's) result" where
  "ljca_spi_dev_remove xfer v s = bindF (ljca_spi_deinit xfer v s) (\<lambda>(_, s). Inr (0, s))"

text \<open>The hooks the spi core calls; suspending and resuming its queue is the core's.\<close>

definition ljca_spi_prepare_message :: "'m \<Rightarrow> int" where
  "ljca_spi_prepare_message message = 0"

definition ljca_spi_dev_suspend :: "('c \<Rightarrow> int \<times> 'c) \<Rightarrow> 'c \<Rightarrow> int \<times> 'c" where
  "ljca_spi_dev_suspend spi_master_suspend core = spi_master_suspend core"

definition ljca_spi_dev_resume :: "('c \<Rightarrow> int \<times> 'c) \<Rightarrow> 'c \<Rightarrow> int \<times> 'c" where
  "ljca_spi_dev_resume spi_master_resume core = spi_master_resume core"

section \<open>Fragments\<close>

text \<open>The specification of a write: the fragments of a byte sequence, the last one marked.\<close>

function spi_frames :: "u8 \<Rightarrow> u8 \<Rightarrow> int \<Rightarrow> bytes \<Rightarrow> (u8 \<times> bytes) list" where
  "spi_frames index cmd i data =
     (if data = [] then []
      else if length data > LJCA_SPI_MAX_XFER_SIZE
      then (cmd, spi_indicator index i 0 # 58 # take LJCA_SPI_MAX_XFER_SIZE data) #
             spi_frames index cmd (i + 1) (drop LJCA_SPI_MAX_XFER_SIZE data)
      else [(cmd, spi_indicator index i 1 # of_nat (length data) # data)])"
  by pat_completeness auto

termination
  by (relation "measure (\<lambda>(index, cmd, i, data). length data)") auto

declare spi_frames.simps [simp del]

lemma spi_frames_concat: "concat (map (\<lambda>f. drop 2 (snd f)) (spi_frames index cmd i data)) = data"
proof (induction index cmd i data rule: spi_frames.induct)
  case (1 index cmd i data)
  then show ?case by (subst spi_frames.simps) auto
qed

lemma spi_frames_size: "\<forall>f \<in> set (spi_frames index cmd i data). length (snd f) \<le> LJCA_SPI_BUF_SIZE"
proof (induction index cmd i data rule: spi_frames.induct)
  case (1 index cmd i data)
  then show ?case by (subst spi_frames.simps) auto
qed

text \<open>The completion bit of a frame.\<close>

definition frame_complete :: "u8 \<times> bytes \<Rightarrow> bool" where
  "frame_complete f \<longleftrightarrow> bit (snd f ! 0) 6"

lemma spi_indicator_complete:
  "bit (spi_indicator index i 1) 6" "\<not> bit (spi_indicator index i 0) 6"
proof -
  have "\<not> bit (0x3F :: u8) 6" "bit (1 :: u8) 0" by code_simp+
  then show "bit (spi_indicator index i 1) 6" "\<not> bit (spi_indicator index i 0) 6"
    by (simp_all add: spi_indicator_def bit_or_iff bit_and_iff bit_push_bit_iff)
qed

lemma spi_frames_complete:
  "data \<noteq> [] \<Longrightarrow> \<exists>fs f. spi_frames index cmd i data = fs @ [f] \<and> frame_complete f \<and>
     (\<forall>g \<in> set fs. \<not> frame_complete g)"
proof (induction index cmd i data rule: spi_frames.induct)
  case (1 index cmd i data)
  show ?case
  proof (cases "length data > LJCA_SPI_MAX_XFER_SIZE")
    case True
    then obtain fs f where "spi_frames index cmd (i + 1) (drop LJCA_SPI_MAX_XFER_SIZE data) = fs @ [f]"
      "frame_complete f" "\<forall>g \<in> set fs. \<not> frame_complete g"
      using 1 by auto
    then have "spi_frames index cmd i data =
        ((cmd, spi_indicator index i 0 # 58 # take LJCA_SPI_MAX_XFER_SIZE data) # fs) @ [f]"
      using True by (subst spi_frames.simps) auto
    moreover have "\<not> frame_complete (cmd, spi_indicator index i 0 # 58 # take LJCA_SPI_MAX_XFER_SIZE data)"
      by (simp add: frame_complete_def spi_indicator_complete)
    ultimately show ?thesis
      using \<open>frame_complete f\<close> \<open>\<forall>g \<in> set fs. \<not> frame_complete g\<close> by (metis set_ConsD)
  next
    case False
    then have "spi_frames index cmd i data = [] @ [(cmd, spi_indicator index i 1 # of_nat (length data) # data)]"
      using 1(2) by (subst spi_frames.simps) auto
    then show ?thesis by (metis empty_iff empty_set frame_complete_def nth_Cons_0 snd_conv spi_indicator_complete(1))
  qed
qed

lemma sint_small: "n \<le> 58 \<Longrightarrow> sint (of_nat n :: u8) = int n"
  by (simp add: signed_of_nat signed_take_bit_int_eq_self)

lemma spi_transfer_loop_0 [simp]: "spi_transfer_loop xfer rd v tx rx off 0 i c s = Inr ((0, rx), v, s)"
  by (subst spi_transfer_loop.simps) simp

definition spi_write_cmd :: "bytes option \<Rightarrow> u8" where
  "spi_write_cmd rx = (if rx = None then LJCA_SPI_WRITE else LJCA_SPI_WRITEREAD)"

context ljca_bus
begin

lemma spi_read_write_sent:
  assumes "ljca_spi_read_write xfer rd v (Some w) r len i c cmd s = Inr ((0, r'), v', s')"
    and "cmd \<noteq> LJCA_SPI_READ" and "len \<le> LJCA_SPI_MAX_XFER_SIZE"
  shows "len \<le> length w \<and> sent s' = sent s @ [(cmd, spi_indicator (sp_id v) i c # of_nat len # take len w)] \<and>
    sp_id v' = sp_id v \<and> (r' = None \<longleftrightarrow> r = None)"
proof -
  obtain ob ret l s1 where len: "len \<le> length w"
    and ob: "store 0 (spi_indicator (sp_id v) i c # of_nat len # take len w) (sp_obuf v) = Inr ob"
    and x: "xfer cmd (take (nat (2 + sint (of_nat len :: u8))) ob) (Some (sp_ibuf v)) True s = Inr ((ret, l), s1)"
    and out: "ret = 0" "s' = s1" "sp_id v' = sp_id v" "r' = None \<longleftrightarrow> r = None"
    using assms(1,2)
    by (auto simp: ljca_spi_read_write_def Let_def bindF_eq_Inr load_eq_Inr split: if_splits option.splits)
  have "take (nat (2 + sint (of_nat len :: u8))) ob = spi_indicator (sp_id v) i c # of_nat len # take len w"
    using ob len assms(3) by (auto simp: sint_small store_eq_Inr nat_add_distrib)
  then show ?thesis using out len x xfer_sent by auto
qed

lemma spi_transfer_loop_sent:
  "spi_transfer_loop xfer rd v (Some t) rx off rem i 0 s = Inr ((0, rx'), v', s') \<Longrightarrow>
   (0 < rem \<longrightarrow> off + rem \<le> length t) \<and>
   sent s' = sent s @ spi_frames (sp_id v) (spi_write_cmd rx) i (take rem (drop off t))"
proof (induction rem arbitrary: v rx off i s rule: less_induct)
  case (less rem)
  show ?case
  proof (cases "rem = 0")
    case True
    then show ?thesis
      using less.prems by (auto simp: spi_frames.simps)
  next
    case False
    let ?n = "if rem > LJCA_SPI_MAX_XFER_SIZE then LJCA_SPI_MAX_XFER_SIZE else rem"
    let ?c = "if rem > LJCA_SPI_MAX_XFER_SIZE then 0 else 1 :: int"
    obtain ret rx1 v1 s1 where
      f: "spi_fragment xfer rd v (Some t) rx off ?n i ?c s = Inr ((ret, rx1), v1, s1)"
      and rest: "(if ret \<noteq> 0 then Inr ((ret, rx1), v1, s1)
        else spi_transfer_loop xfer rd v1 (Some t) rx1 (off + ?n) (rem - ?n) (i + 1) ?c s1) = Inr ((0, rx'), v', s')"
      using less.prems False
      by (subst (asm) spi_transfer_loop.simps) (auto simp: Let_def bindF_eq_Inr split: if_splits)
    have ret: "ret = 0" using rest by (auto split: if_splits)
    have n: "?n \<le> LJCA_SPI_MAX_XFER_SIZE" by simp
    have frag: "?n \<le> length (drop off t) \<and> sent s1 = sent s @
        [(spi_write_cmd rx, spi_indicator (sp_id v) i ?c # of_nat ?n # take ?n (drop off t))] \<and>
        sp_id v1 = sp_id v \<and> spi_write_cmd rx1 = spi_write_cmd rx"
    proof (cases rx)
      case None
      then show ?thesis
        using f ret spi_read_write_sent [OF _ _ n, of v "drop off t" None i ?c LJCA_SPI_WRITE s rx1 v1 s1]
        by (auto simp: spi_fragment_def spi_write_cmd_def)
    next
      case (Some r)
      then obtain r1 where "ljca_spi_read_write xfer rd v (Some (drop off t)) (Some (drop off r)) ?n i ?c
          LJCA_SPI_WRITEREAD s = Inr ((0, r1), v1, s1)" "rx1 = map_option ((@) (take off r)) r1"
        using f ret by (auto simp: spi_fragment_def bindF_eq_Inr)
      then show ?thesis
        using Some spi_read_write_sent [OF _ _ n, of v "drop off t" "Some (drop off r)" i ?c LJCA_SPI_WRITEREAD s r1 v1 s1]
        by (auto simp: spi_write_cmd_def)
    qed
    show ?thesis
    proof (cases "rem > LJCA_SPI_MAX_XFER_SIZE")
      case True
      then have "spi_transfer_loop xfer rd v1 (Some t) rx1 (off + 58) (rem - 58) (i + 1) 0 s1 = Inr ((0, rx'), v', s')"
        using rest ret by simp
      from less.IH [OF _ this] True have ih: "off + rem \<le> length t"
        "sent s' = sent s1 @ spi_frames (sp_id v1) (spi_write_cmd rx1) (i + 1) (take (rem - 58) (drop (off + 58) t))"
        by auto
      have "drop 58 (take rem (drop off t)) = take (rem - 58) (drop (off + 58) t)"
        by (simp add: drop_take add.commute)
      then have "spi_frames (sp_id v) (spi_write_cmd rx) i (take rem (drop off t)) =
          (spi_write_cmd rx, spi_indicator (sp_id v) i 0 # 58 # take 58 (drop off t)) #
          spi_frames (sp_id v) (spi_write_cmd rx) (i + 1) (take (rem - 58) (drop (off + 58) t))"
        using True ih(1) by (subst spi_frames.simps) (auto simp: min_def)
      then show ?thesis using ih frag True by auto
    next
      case False
      then have "s' = s1"
        using rest ret by auto
      moreover have "spi_frames (sp_id v) (spi_write_cmd rx) i (take rem (drop off t)) =
          [(spi_write_cmd rx, spi_indicator (sp_id v) i 1 # of_nat rem # take rem (drop off t))]"
        using False \<open>rem \<noteq> 0\<close> frag by (subst spi_frames.simps) (auto simp: min_def)
      ultimately show ?thesis using frag False \<open>rem \<noteq> 0\<close> by auto
    qed
  qed
qed

end

section \<open>Properties\<close>

text \<open>
  C15: Fragmentation.  A write (or write-read) transfer that returns 0 has put on the wire exactly
  the fragments of the first \<open>len\<close> bytes of the transmit buffer: their payloads concatenate to
  those bytes, none is larger than the packet buffer, they are numbered from 0, and the completion
  bit is set on the last one only.
\<close>

theorem spi_transfer_fragments:
  assumes "ljca_spi_transfer (ljca_transfer E (Some p)) heap_read v (Some t) rx len d = Inr ((0, rx'), v', d')"
    and "T = pd_type (pdev_platdata p)"
    and "fs = spi_frames (sp_id v) (spi_write_cmd rx) 0 (take (unat len) t)"
  shows "bus_sent T d' = bus_sent T d @ fs \<and>
    concat (map (\<lambda>f. drop 2 (snd f)) fs) = take (unat len) t \<and> (len \<noteq> 0 \<longrightarrow> unat len \<le> length t) \<and>
    (\<forall>f \<in> set fs. length (snd f) \<le> LJCA_SPI_BUF_SIZE) \<and>
    (len \<noteq> 0 \<longrightarrow> frame_complete (last fs) \<and> (\<forall>f \<in> set (butlast fs). \<not> frame_complete f))"
proof -
  have run: "spi_transfer_loop (ljca_transfer E (Some p)) heap_read v (Some t) rx 0 (unat len) 0 0 d = Inr ((0, rx'), v', d')"
    using assms(1) by (simp add: ljca_spi_transfer_def)
  have s: "bus_sent T d' = bus_sent T d @ fs" and n: "len \<noteq> 0 \<longrightarrow> unat len \<le> length t"
    using ljca.spi_transfer_loop_sent [OF run] assms(2,3) by (auto simp: unat_gt_0)
  have c: "frame_complete (last fs) \<and> (\<forall>f \<in> set (butlast fs). \<not> frame_complete f)" if "len \<noteq> 0"
  proof -
    have "0 < unat len" using that by (simp add: unat_gt_0)
    then have "take (unat len) t \<noteq> []" using n that by auto
    then obtain gs f where "fs = gs @ [f]" "frame_complete f" "\<forall>g \<in> set gs. \<not> frame_complete g"
      using spi_frames_complete [of "take (unat len) t" "sp_id v" "spi_write_cmd rx" 0] assms(3) by auto
    then show ?thesis by simp
  qed
  show ?thesis using s n c assms(3) spi_frames_concat spi_frames_size by auto
qed

definition demo_spi :: ljca_spi_dev where
  "demo_spi = \<lparr>sp_id = 0, sp_speed = 0, sp_mode = 0, sp_obuf = replicate LJCA_SPI_BUF_SIZE 0, sp_ibuf = 0\<rparr>"

theorem spi_transfer_fragments_witness:
  "\<exists>v' d'. ljca_spi_transfer (ljca_transfer scripted_usb (Some demo_pdev)) heap_read demo_spi (Some [7, 8, 9]) None 3
       (demo_dev [[gpio_ack 3 [0x40, 3]]]) = Inr ((0, None), v', d') \<and>
     bus_sent GPIO_STUB d' = [(LJCA_SPI_WRITE, [0x40, 3, 7, 8, 9])]"
proof -
  let ?run = "ljca_spi_transfer (ljca_transfer scripted_usb (Some demo_pdev)) heap_read demo_spi (Some [7, 8, 9]) None 3
       (demo_dev [[gpio_ack 3 [0x40, 3]]])"
  have "?run = spi_transfer_loop (ljca_transfer scripted_usb (Some demo_pdev)) heap_read demo_spi (Some [7, 8, 9])
       None 0 3 0 0 (demo_dev [[gpio_ack 3 [0x40, 3]]])"
    by (simp add: ljca_spi_transfer_def)
  have "value_of ?run = Inr (0, None)"
    by code_simp
  then obtain v' d' where run: "?run = Inr ((0, None), v', d')"
    by (auto simp: value_of_Inr)
  have "bus_sent GPIO_STUB (demo_dev [[gpio_ack 3 [0x40, 3]]]) = []"
    by (simp add: bus_sent_def demo_dev_def blank_dev_def)
  moreover have "spi_frames (sp_id demo_spi) (spi_write_cmd None) 0 (take (unat (3 :: u16)) [7, 8, 9]) =
      [(LJCA_SPI_WRITE, [0x40, 3, 7, 8, 9])]"
    by code_simp
  ultimately show ?thesis
    using spi_transfer_fragments [OF run refl refl] run by (simp add: demo_pdev_def)
qed

lemma spi_div_nat:
  assumes "1 \<le> hz" and "hz \<le> 48000000"
  shows "spi_div (of_nat hz) = Inr (min 4 (int ((48000000 + hz - 1) div hz div 2) - 1))"
proof -
  let ?w = "of_nat hz :: u32" and ?n = "48000000 + hz - 1"
  have w: "unat ?w = hz" using assms by (simp add: unat_of_nat)
  then have nz: "?w \<noteq> 0" using assms by auto
  have sum: "LJCA_SPI_BUS_MAX_HZ + ?w - 1 = of_nat ?n"
    using assms(1) by (simp add: of_nat_diff)
  have small: "unat (of_nat m :: u32) = m" if "m < 4294967296" for m
    using that by (simp add: unat_of_nat)
  have n: "unat (of_nat ?n :: u32) = ?n" by (rule small) (use assms in linarith)
  have "?n div hz \<le> ?n" by simp
  then have le: "?n div hz div 2 \<le> 48000000" using assms by linarith
  have "(of_nat ?n :: u32) div ?w div 2 = of_nat (?n div hz div 2)"
  proof (rule word_unat_eq_iff [THEN iffD2])
    have "unat ((of_nat ?n :: u32) div ?w div 2) = ?n div hz div 2"
      by (simp only: unat_div n w) simp
    then show "unat ((of_nat ?n :: u32) div ?w div 2) = unat (of_nat (?n div hz div 2) :: u32)"
      using le by (simp add: unat_of_nat)
  qed
  moreover have "sint (of_nat k - 1 :: u32) = int k - 1" if "k \<le> 48000000" for k
  proof -
    have "(of_nat k - 1 :: u32) = of_int (int k - 1)" by simp
    then show ?thesis using that by (simp only: signed_of_int) (simp add: signed_take_bit_int_eq_self)
  qed
  ultimately show ?thesis
    using nz sum le by (simp add: spi_div_def min_def Let_def)
qed

lemma ceil_div_bounds:
  fixes hz c :: nat
  assumes "1 \<le> hz" and "c = (n + hz - 1) div hz" and "1 \<le> n"
  shows "1 \<le> c \<and> n \<le> c * hz \<and> (c - 1) * hz < n"
proof -
  have a: "c * hz \<le> n + hz - 1" "n + hz - 1 < c * hz + hz"
    using assms(1,2) div_times_less_eq_dividend [of "n + hz - 1" hz] dividend_less_div_times [of hz "n + hz - 1"]
    by (auto simp: mult.commute)
  moreover have "c \<noteq> 0"
  proof
    assume "c = 0"
    then have "n + hz - 1 < hz" using a(2) by simp
    then show False using assms(1,3) by linarith
  qed
  ultimately show ?thesis using assms(1,3) by (auto simp: diff_mult_distrib)
qed

text \<open>
  The clock code.  For a requested rate of 1 Hz to 48 MHz, with \<open>c\<close> the quotient of 48 MHz by
  the rate rounded up, the code is \<open>c div 2 - 1\<close> limited to 4.  It is -1, which is not a code of the
  device and is sent as 255, exactly when 48 MHz are requested.  Otherwise the clock it stands for
  exceeds the requested rate exactly when \<open>c\<close> is odd or the rate is below 4.8 MHz.
\<close>

lemma spi_clock_code:
  assumes "1 \<le> hz" and "hz \<le> 48000000" and "c = (48000000 + hz - 1) div hz"
  shows "\<exists>dv. spi_div (of_nat hz) = Inr dv \<and> dv = min 4 (int (c div 2) - 1) \<and>
    (dv = -1 \<longleftrightarrow> hz = 48000000) \<and>
    (hz < 48000000 \<longrightarrow> ((dv + 1) * int hz < 24000000 \<longleftrightarrow> odd c \<or> hz < 4800000))"
proof -
  note b = ceil_div_bounds [OF assms(1,3)]
  have b1: "1 \<le> c" "48000000 \<le> c * hz" "(c - 1) * hz < 48000000" using b by auto
  let ?dv = "min 4 (int (c div 2) - 1)"
  have run: "spi_div (of_nat hz) = Inr ?dv" using spi_div_nat [OF assms(1,2)] assms(3) by simp
  have top: "c = 1 \<longleftrightarrow> hz = 48000000" using b1 assms(1,2,3) by auto
  have low: "(?dv + 1) * int hz < 24000000 \<longleftrightarrow> odd c \<or> hz < 4800000" if "hz < 48000000"
  proof (cases "c \<le> 11")
    case True
    have "c \<noteq> 1" using top that by simp
    then have "c \<in> {2, 3, 4, 5, 6, 7, 8, 9, 10, 11}" using b1(1) True by simp presburger
    then show ?thesis using b1(2,3) by auto
  next
    case False
    then have "11 * hz \<le> (c - 1) * hz" by (intro mult_le_mono1) simp
    then have "hz < 4800000" using b1(3) by linarith
    moreover have "?dv = 4" using False by simp
    ultimately show ?thesis by simp
  qed
  have "?dv = -1 \<longleftrightarrow> c div 2 = 0" by auto
  also have "\<dots> \<longleftrightarrow> c = 1" using b1(1) by auto
  finally have "?dv = -1 \<longleftrightarrow> hz = 48000000" using top by simp
  then show ?thesis using run low by blast
qed

text \<open>
  The cached configuration.  A rate and mode equal to the cached ones are not sent; any other
  is sent once and cached when it succeeds.  Probe starts with mode 0 and code 0 in the cache, so
  a first transfer in mode 0 at 24 MHz never initialises the controller.
\<close>

lemma spi_init_cached:
  assumes "ljca_spi_init (ljca_transfer E (Some p)) v dv mode d = Inr (0, v', d')"
    and "T = pd_type (pdev_platdata p)"
  shows "if uint (sp_mode v) = mode \<and> uint (sp_speed v) = dv then v' = v \<and> d' = d
    else bus_sent T d' = bus_sent T d @ [(LJCA_SPI_INIT, [sp_id v, of_int dv,
           (if mode AND SPI_CPOL \<noteq> 0 then 1 else 0) OR push_bit 1 (if mode AND SPI_CPHA \<noteq> 0 then 1 else 0)])] \<and>
         v' = v\<lparr>sp_mode := of_int mode, sp_speed := of_int dv\<rparr>"
  using assms ljca.xfer_sent [where p = p and E = E and ib = None and want = False]
  by (auto simp: ljca_spi_init_def bindF_eq_Inr split: if_splits)

text \<open>
  The received length is not checked.  If the reply announces more bytes than remain in the
  caller's receive buffer, \<open>ljca_spi_read_write\<close> copies past its end (or past the end of the reply
  buffer).
\<close>

lemma spi_reply_overflow:
  assumes "ljca_transfer E (Some p) LJCA_SPI_READ
        (spi_indicator (sp_id v) i c # 2 # le_bytes 2 (of_nat len :: u16)) (Some (sp_ibuf v)) True d
      = Inr ((0, Some n), d1)"
    and "length (sp_obuf v) = LJCA_SPI_BUF_SIZE" and "2 \<le> n"
    and "heap_read (sp_ibuf v) d1 = Inr ibuf" and "length ibuf = LJCA_SPI_BUF_SIZE"
    and "int (length r) < sint (ibuf ! 1)"
  shows "ljca_spi_read_write (ljca_transfer E (Some p)) heap_read v None (Some r) len i c LJCA_SPI_READ d
    = Inl OutOfBounds"
proof -
  let ?pkt = "spi_indicator (sp_id v) i c # 2 # le_bytes 2 (of_nat len :: u16)"
  have two: "sint (2 :: u8) = 2" by code_simp
  have ob: "store 0 ?pkt (sp_obuf v) = Inr (?pkt @ drop 4 (sp_obuf v))"
    using assms(2) by (simp add: store_def)
  have len4: "take 4 (?pkt @ drop 4 (sp_obuf v)) = ?pkt" by simp
  have h: "load 0 2 ibuf = Inr (take 2 ibuf)" using assms(5) by (simp add: load_def)
  have pos: "0 < sint (ibuf ! 1)" using assms(6) by linarith
  have "bindF (load 2 (nat (sint (ibuf ! 1))) ibuf) (\<lambda>src.
        bindF (store 0 src r) (\<lambda>r. Inr ((0, Some r), v1, d1))) = Inl OutOfBounds" for v1 :: ljca_spi_dev
    using assms(6) by (auto simp: load_def store_def)
  then show ?thesis
    using assms(1,3,4) ob len4 h pos two
    by (simp add: ljca_spi_read_write_def Let_def)
qed

end
