(* ===== verification/Vsc_Hub.thy ===== *)
theory Vsc_Hub
  imports Vsc_Prelude "HOL-Library.Sublist"
begin

text \<open>
  \<^verbatim>\<open>drivers/misc/ivsc/intel_vsc.c\<close>: the hub between the camera stack and the two firmware
  clients.  The CSI client and the ACE client register their operations here; a camera driver
  acquires and releases the sensor through them.

  The operations of a client take its object pointer and act on a state \<open>'s\<close>; the hub calls them
  through the registered tables.  The locales \<open>csi_client\<close> and \<open>vsc_clients\<close> state what the
  clients promise; the modules \<open>Mei_Csi\<close> and \<open>Vsc_World\<close> discharge it.  Each of \<open>acquire\<close> and
  \<open>release\<close> runs under \<open>vsc.mutex\<close>; registration runs under \<open>vsc.lock\<close> only.
\<close>

section \<open>Data\<close>

datatype csi_owner = CSI_FW | CSI_IPU

definition csi_owner_code :: "csi_owner \<Rightarrow> u32" where
  "csi_owner_code o' = (case o' of CSI_FW \<Rightarrow> 0 | CSI_IPU \<Rightarrow> 1)"

datatype csi_power_state = POWER_OFF | POWER_ON

definition csi_power_code :: "csi_power_state \<Rightarrow> u32" where
  "csi_power_code p = (case p of POWER_OFF \<Rightarrow> 0 | POWER_ON \<Rightarrow> 1)"

record mipi_conf =
  lane_num :: u32
  freq :: u32

text \<open>\<open>struct camera_status\<close>: two 2-bit fields and the exposure level.\<close>

record camera_status =
  camera_owner :: "2 word"
  privacy_stat :: "2 word"
  exposure_level :: u32

datatype vsc_privacy_status = VSC_PRIVACY_ON | VSC_PRIVACY_OFF

record vsc_camera_status =
  vs_owner :: nat
  vs_status :: vsc_privacy_status
  vs_exposure_level :: u32

record vsc_mipi_config =
  cfg_freq :: u32
  cfg_lane_num :: u32

record 's vsc_ace_ops =
  op_ace_own_camera :: "(nat \<Rightarrow> 's \<Rightarrow> ((int \<times> camera_status option) \<times> 's) result) option"
  op_ipu_own_camera :: "(nat \<Rightarrow> 's \<Rightarrow> ((int \<times> camera_status option) \<times> 's) result) option"

record 's vsc_csi_ops =
  op_set_owner :: "(nat \<Rightarrow> csi_owner \<Rightarrow> 's \<Rightarrow> (int \<times> 's) result) option"
  op_set_mipi_conf :: "(nat \<Rightarrow> mipi_conf \<Rightarrow> 's \<Rightarrow> (int \<times> 's) result) option"
  op_set_privacy_callback :: "(nat \<Rightarrow> nat option \<Rightarrow> nat \<Rightarrow> 's \<Rightarrow> 's result) option"

record 's intel_vsc =
  v_csi :: "nat option"
  v_csi_ops :: "'s vsc_csi_ops option"
  v_csi_registerred :: bool
  v_ace :: "nat option"
  v_ace_ops :: "'s vsc_ace_ops option"
  v_ace_registerred :: bool

section \<open>Registration\<close>

definition intel_vsc_init :: "'s intel_vsc" where
  "intel_vsc_init = \<lparr>v_csi = None, v_csi_ops = None, v_csi_registerred = False,
                     v_ace = None, v_ace_ops = None, v_ace_registerred = False\<rparr>"

definition check_component_ready :: "'s intel_vsc \<Rightarrow> int" where
  "check_component_ready v = (if v_ace_registerred v \<and> v_csi_registerred v then 0 else - 1)"

definition vsc_register_ace ::
  "nat option \<Rightarrow> 's vsc_ace_ops option \<Rightarrow> 's intel_vsc \<Rightarrow> int \<times> 's intel_vsc" where
  "vsc_register_ace ace ops v =
     (case (ace, ops) of
        (Some a, Some q) \<Rightarrow>
          if op_ipu_own_camera q \<noteq> None \<and> op_ace_own_camera q \<noteq> None
          then (0, v\<lparr>v_ace := ace, v_ace_ops := ops, v_ace_registerred := True\<rparr>)
          else (- 1, v)
      | _ \<Rightarrow> (- 1, v))"

definition vsc_unregister_ace :: "'s intel_vsc \<Rightarrow> 's intel_vsc" where
  "vsc_unregister_ace v = v\<lparr>v_ace_registerred := False\<rparr>"

definition vsc_register_csi ::
  "nat option \<Rightarrow> 's vsc_csi_ops option \<Rightarrow> 's intel_vsc \<Rightarrow> int \<times> 's intel_vsc" where
  "vsc_register_csi csi ops v =
     (case (csi, ops) of
        (Some c, Some q) \<Rightarrow>
          if op_set_privacy_callback q \<noteq> None \<and> op_set_owner q \<noteq> None \<and> op_set_mipi_conf q \<noteq> None
          then (0, v\<lparr>v_csi := csi, v_csi_ops := ops, v_csi_registerred := True\<rparr>)
          else (- 1, v)
      | _ \<Rightarrow> (- 1, v))"

definition vsc_unregister_csi :: "'s intel_vsc \<Rightarrow> 's intel_vsc" where
  "vsc_unregister_csi v = v\<lparr>v_csi_registerred := False\<rparr>"

section \<open>Acquire and release\<close>

abbreviation ACE_PRIVACY_ON :: "2 word" where "ACE_PRIVACY_ON \<equiv> 2"

text \<open>The caller's \<open>status\<close>: \<open>None\<close> for a NULL pointer.\<close>

definition update_camera_status ::
  "vsc_camera_status option \<Rightarrow> camera_status \<Rightarrow> vsc_camera_status option" where
  "update_camera_status status s =
     map_option (\<lambda>st. \<lparr>vs_owner = unat (camera_owner s),
       vs_status = (if privacy_stat s = ACE_PRIVACY_ON then VSC_PRIVACY_ON else VSC_PRIVACY_OFF),
       vs_exposure_level = exposure_level s\<rparr>) status"

text \<open>The mutex-protected part of acquire, after the components were found ready.\<close>

definition acquire_locked ::
  "'s intel_vsc \<Rightarrow> vsc_mipi_config \<Rightarrow> nat option \<Rightarrow> nat \<Rightarrow> vsc_camera_status option \<Rightarrow> 's
   \<Rightarrow> ((int \<times> vsc_camera_status option) \<times> 's) result" where
  "acquire_locked v config callback handle status s =
     bindF (deref (v_csi v)) (\<lambda>csi. bindF (deref (v_ace v)) (\<lambda>ace.
     bindF (deref (v_csi_ops v)) (\<lambda>csi_ops. bindF (deref (v_ace_ops v)) (\<lambda>ace_ops.
     bindF (deref (op_set_privacy_callback csi_ops)) (\<lambda>set_cb.
     bindF (set_cb csi callback handle s) (\<lambda>s.
     bindF (deref (op_ipu_own_camera ace_ops)) (\<lambda>ipu_own.
     bindF (ipu_own ace s) (\<lambda>((ret, cs), s).
     if ret \<noteq> 0 then Inr ((ret, status), s)
     else
       bindF (assigned cs) (\<lambda>cs.
       let status = update_camera_status status cs in
       bindF (deref (op_set_owner csi_ops)) (\<lambda>set_owner.
       bindF (set_owner csi CSI_IPU s) (\<lambda>(ret, s).
       if ret \<noteq> 0 then Inr ((ret, status), s)
       else
         bindF (deref (op_set_mipi_conf csi_ops)) (\<lambda>set_conf.
         bindF (set_conf csi \<lparr>lane_num = cfg_lane_num config, freq = cfg_freq config\<rparr> s) (\<lambda>(ret, s).
         Inr ((ret, status), s))))))))))))))"

definition vsc_acquire_camera_sensor ::
  "'s intel_vsc \<Rightarrow> vsc_mipi_config option \<Rightarrow> nat option \<Rightarrow> nat \<Rightarrow> vsc_camera_status option \<Rightarrow> 's
   \<Rightarrow> ((int \<times> vsc_camera_status option) \<times> 's) result" where
  "vsc_acquire_camera_sensor v config callback handle status s =
     (case config of
        None \<Rightarrow> Inr ((- EINVAL, status), s)
      | Some cfg \<Rightarrow>
          if check_component_ready v < 0 then Inr ((- EAGAIN, status), s)
          else acquire_locked v cfg callback handle status s)"

definition release_locked ::
  "'s intel_vsc \<Rightarrow> vsc_camera_status option \<Rightarrow> 's \<Rightarrow> ((int \<times> vsc_camera_status option) \<times> 's) result" where
  "release_locked v status s =
     bindF (deref (v_csi v)) (\<lambda>csi. bindF (deref (v_ace v)) (\<lambda>ace.
     bindF (deref (v_csi_ops v)) (\<lambda>csi_ops. bindF (deref (v_ace_ops v)) (\<lambda>ace_ops.
     bindF (deref (op_set_privacy_callback csi_ops)) (\<lambda>set_cb.
     bindF (set_cb csi None 0 s) (\<lambda>s.
     bindF (deref (op_set_owner csi_ops)) (\<lambda>set_owner.
     bindF (set_owner csi CSI_FW s) (\<lambda>(ret, s).
     if ret \<noteq> 0 then Inr ((ret, status), s)
     else
       bindF (deref (op_ace_own_camera ace_ops)) (\<lambda>ace_own.
       bindF (ace_own ace s) (\<lambda>((ret, cs), s).
       if ret \<noteq> 0 then Inr ((ret, status), s)
       else bindF (assigned cs) (\<lambda>cs. Inr ((0, update_camera_status status cs), s))))))))))))"

definition vsc_release_camera_sensor ::
  "'s intel_vsc \<Rightarrow> vsc_camera_status option \<Rightarrow> 's \<Rightarrow> ((int \<times> vsc_camera_status option) \<times> 's) result" where
  "vsc_release_camera_sensor v status s =
     (if check_component_ready v < 0 then Inr ((- EAGAIN, status), s) else release_locked v status s)"

section \<open>What the clients promise\<close>

text \<open>The commands of the CSI firmware client, as bytes.\<close>

definition csi_owner_cmd :: "csi_owner \<Rightarrow> bytes" where
  "csi_owner_cmd w = le_bytes 4 (0 :: u32) @ le_bytes 4 (csi_owner_code w)"

definition csi_mipi_cmd :: "mipi_conf \<Rightarrow> bytes \<Rightarrow> bytes" where
  "csi_mipi_cmd c rsvd = le_bytes 4 (2 :: u32) @ le_bytes 4 (lane_num c) @ le_bytes 4 (freq c) @ rsvd"

locale csi_client =
  fixes set_owner :: "nat \<Rightarrow> csi_owner \<Rightarrow> 's \<Rightarrow> (int \<times> 's) result"
    and set_mipi :: "nat \<Rightarrow> mipi_conf \<Rightarrow> 's \<Rightarrow> (int \<times> 's) result"
    and set_cb :: "nat \<Rightarrow> nat option \<Rightarrow> nat \<Rightarrow> 's \<Rightarrow> 's result"
    and csi_sent :: "'s \<Rightarrow> bytes list"
    and csi_cb :: "'s \<Rightarrow> nat option \<times> nat"
  assumes owner_any: "set_owner c w s = Inr (r, s') \<Longrightarrow>
      csi_cb s' = csi_cb s \<and> (csi_sent s' = csi_sent s \<or> csi_sent s' = csi_sent s @ [csi_owner_cmd w])"
    and owner_ok: "set_owner c w s = Inr (0, s') \<Longrightarrow> csi_sent s' = csi_sent s @ [csi_owner_cmd w]"
    and mipi_any: "set_mipi c m s = Inr (r, s') \<Longrightarrow> csi_cb s' = csi_cb s \<and>
      (csi_sent s' = csi_sent s \<or> (\<exists>z. csi_sent s' = csi_sent s @ [csi_mipi_cmd m z]))"
    and mipi_ok: "set_mipi c m s = Inr (0, s') \<Longrightarrow> \<exists>z. csi_sent s' = csi_sent s @ [csi_mipi_cmd m z]"
    and cb_set: "set_cb c cb h s = Inr s' \<Longrightarrow> csi_cb s' = (cb, h) \<and> csi_sent s' = csi_sent s"

abbreviation IPU_OWN_CAMERA :: u8 where "IPU_OWN_CAMERA \<equiv> 0x13"
abbreviation ACE_OWN_CAMERA :: u8 where "ACE_OWN_CAMERA \<equiv> 0x14"

locale vsc_clients = csi_client set_owner set_mipi set_cb csi_sent csi_cb
  for set_owner :: "nat \<Rightarrow> csi_owner \<Rightarrow> 's \<Rightarrow> (int \<times> 's) result"
    and set_mipi :: "nat \<Rightarrow> mipi_conf \<Rightarrow> 's \<Rightarrow> (int \<times> 's) result"
    and set_cb :: "nat \<Rightarrow> nat option \<Rightarrow> nat \<Rightarrow> 's \<Rightarrow> 's result"
    and csi_sent :: "'s \<Rightarrow> bytes list"
    and csi_cb :: "'s \<Rightarrow> nat option \<times> nat" +
  fixes ipu_own :: "nat \<Rightarrow> 's \<Rightarrow> ((int \<times> camera_status option) \<times> 's) result"
    and ace_own :: "nat \<Rightarrow> 's \<Rightarrow> ((int \<times> camera_status option) \<times> 's) result"
    and ace_sent :: "'s \<Rightarrow> u8 list"
  assumes ipu_any: "ipu_own a s = Inr ((r, cs), s') \<Longrightarrow> csi_cb s' = csi_cb s \<and> csi_sent s' = csi_sent s \<and>
      (ace_sent s' = ace_sent s \<or> ace_sent s' = ace_sent s @ [IPU_OWN_CAMERA])"
    and ipu_ok: "ipu_own a s = Inr ((0, cs), s') \<Longrightarrow> cs \<noteq> None \<and> ace_sent s' = ace_sent s @ [IPU_OWN_CAMERA]"
    and ace_any: "ace_own a s = Inr ((r, cs), s') \<Longrightarrow> csi_cb s' = csi_cb s \<and> csi_sent s' = csi_sent s \<and>
      (ace_sent s' = ace_sent s \<or> ace_sent s' = ace_sent s @ [ACE_OWN_CAMERA])"
    and ace_ok: "ace_own a s = Inr ((0, cs), s') \<Longrightarrow> cs \<noteq> None \<and> ace_sent s' = ace_sent s @ [ACE_OWN_CAMERA]"
    and owner_ace: "set_owner c w s = Inr (r, s') \<Longrightarrow> ace_sent s' = ace_sent s"
    and mipi_ace: "set_mipi c m s = Inr (r, s') \<Longrightarrow> ace_sent s' = ace_sent s"
    and cb_ace: "set_cb c cb h s = Inr s' \<Longrightarrow> ace_sent s' = ace_sent s"
begin

text \<open>The hub with both clients registered with these operations.\<close>

definition registered :: "nat \<Rightarrow> nat \<Rightarrow> 's intel_vsc \<Rightarrow> bool" where
  "registered c a v \<longleftrightarrow>
     v_csi v = Some c \<and> v_ace v = Some a \<and> v_csi_registerred v \<and> v_ace_registerred v \<and>
     v_csi_ops v = Some \<lparr>op_set_owner = Some set_owner, op_set_mipi_conf = Some set_mipi,
                         op_set_privacy_callback = Some set_cb\<rparr> \<and>
     v_ace_ops v = Some \<lparr>op_ace_own_camera = Some ace_own, op_ipu_own_camera = Some ipu_own\<rparr>"

lemma acquire_effect:
  assumes "vsc_acquire_camera_sensor v (Some cfg) cb h st s = Inr ((r, st'), s')" and "registered c a v"
  shows "csi_cb s' = (cb, h) \<and>
    (r = 0 \<longrightarrow> ace_sent s' = ace_sent s @ [IPU_OWN_CAMERA] \<and>
       (\<exists>z. csi_sent s' = csi_sent s @
          [csi_owner_cmd CSI_IPU, csi_mipi_cmd \<lparr>lane_num = cfg_lane_num cfg, freq = cfg_freq cfg\<rparr> z])) \<and>
    (ace_sent s' = ace_sent s \<longrightarrow> csi_sent s' = csi_sent s)"
proof -
  let ?m = "\<lparr>lane_num = cfg_lane_num cfg, freq = cfg_freq cfg\<rparr>"
  obtain s1 ret cs s2 where cb: "set_cb c cb h s = Inr s1" and ipu: "ipu_own a s1 = Inr ((ret, cs), s2)"
    and rest: "(if ret \<noteq> 0 then Inr ((ret, st), s2)
     else bindF (assigned cs) (\<lambda>cs. let status = update_camera_status st cs in
       bindF (set_owner c CSI_IPU s2) (\<lambda>(ret, s).
       if ret \<noteq> 0 then Inr ((ret, status), s)
       else bindF (set_mipi c ?m s) (\<lambda>(ret, s). Inr ((ret, status), s))))) = Inr ((r, st'), s')"
    using assms
    by (auto simp: vsc_acquire_camera_sensor_def check_component_ready_def acquire_locked_def
        registered_def bindF_eq_Inr Let_def cong: if_cong)
  have s1: "csi_cb s1 = (cb, h)" "csi_sent s1 = csi_sent s" "ace_sent s1 = ace_sent s"
    using cb_set [OF cb] cb_ace [OF cb] by simp_all
  show ?thesis
  proof (cases "ret = 0")
    case False
    then show ?thesis using rest ipu_any [OF ipu] s1 by auto
  next
    case True
    then have ok: "ace_sent s2 = ace_sent s @ [IPU_OWN_CAMERA]" "csi_cb s2 = (cb, h)" "csi_sent s2 = csi_sent s"
      using ipu_ok ipu ipu_any [OF ipu] s1 by auto
    obtain x s3 r3 where ow: "set_owner c CSI_IPU s2 = Inr (r3, s3)"
      and rest2: "(if r3 \<noteq> 0 then Inr ((r3, update_camera_status st x), s3)
        else bindF (set_mipi c ?m s3) (\<lambda>(ret, s). Inr ((ret, update_camera_status st x), s))) = Inr ((r, st'), s')"
      using rest True by (auto simp: bindF_eq_Inr Let_def)
    show ?thesis
    proof (cases "r3 = 0")
      case False
      then show ?thesis using rest2 ok owner_any [OF ow] owner_ace [OF ow] by auto
    next
      case True
      then have mi: "set_mipi c ?m s3 = Inr (r, s')" using rest2 by (auto simp: bindF_eq_Inr)
      have s3: "csi_sent s3 = csi_sent s @ [csi_owner_cmd CSI_IPU]" "csi_cb s3 = (cb, h)"
        "ace_sent s3 = ace_sent s @ [IPU_OWN_CAMERA]"
        using owner_ok [of c CSI_IPU s2 s3] ow True ok owner_any [OF ow] owner_ace [OF ow] by auto
      have "\<exists>z. csi_sent s' = csi_sent s3 @ [csi_mipi_cmd ?m z]" if "r = 0"
        using mipi_ok mi that by blast
      then show ?thesis using s3 mipi_any [OF mi] mipi_ace [OF mi] by auto
    qed
  qed
qed

lemma release_effect:
  assumes "vsc_release_camera_sensor v st s = Inr ((r, st'), s')" and "registered c a v"
  shows "csi_cb s' = (None, 0) \<and>
    (r = 0 \<longrightarrow> ace_sent s' = ace_sent s @ [ACE_OWN_CAMERA] \<and> csi_sent s' = csi_sent s @ [csi_owner_cmd CSI_FW]) \<and>
    (csi_sent s' = csi_sent s \<longrightarrow> ace_sent s' = ace_sent s)"
proof -
  obtain s1 ret s2 where cb: "set_cb c None 0 s = Inr s1" and ow: "set_owner c CSI_FW s1 = Inr (ret, s2)"
    and rest: "(if ret \<noteq> 0 then Inr ((ret, st), s2)
     else bindF (ace_own a s2) (\<lambda>((ret, cs), s).
       if ret \<noteq> 0 then Inr ((ret, st), s)
       else bindF (assigned cs) (\<lambda>cs. Inr ((0, update_camera_status st cs), s)))) = Inr ((r, st'), s')"
    using assms
    by (auto simp: vsc_release_camera_sensor_def release_locked_def check_component_ready_def registered_def bindF_eq_Inr
        cong: if_cong)
  have s1: "csi_cb s1 = (None, 0)" "csi_sent s1 = csi_sent s" "ace_sent s1 = ace_sent s"
    using cb_set [OF cb] cb_ace [OF cb] by simp_all
  show ?thesis
  proof (cases "ret = 0")
    case False
    then show ?thesis using rest s1 owner_any [OF ow] owner_ace [OF ow] by auto
  next
    case True
    then obtain r3 cs where ac: "ace_own a s2 = Inr ((r3, cs), s')" and "r = 0 \<longrightarrow> r3 = 0"
      using rest by (auto simp: bindF_eq_Inr split: if_splits)
    then show ?thesis
      using True ow s1 owner_ok owner_any [OF ow] owner_ace [OF ow] ace_any [OF ac] ace_ok by auto
  qed
qed

end

end
