(* ===== verification/Mei_Bus.thy ===== *)
theory Mei_Bus
  imports Vsc_Prelude
begin

text \<open>
  The MEI client bus as the drivers of \<^verbatim>\<open>drivers/misc/ivsc\<close> use it.

  \<open>mei_send\<close> is \<open>mei_cldev_send\<close>.  \<open>mei_wait\<close> stands for one sleep of a command on a completion:
  the messages that arrive meanwhile (each runs the client's rx callback, whose
  \<open>mei_cldev_recv\<close> returns an error or the bytes), and whether the sleep ends by timeout or by a
  fatal signal if none of them completes it.  Nothing is assumed about these functions.

  A \<open>struct completion\<close> is the number of completions not yet consumed.
\<close>

datatype mei_rx =
    Rx_error int
  | Rx_data bytes

datatype wait_end = Timed_out | Killed

record 'w mei_env =
  mei_send :: "bytes \<Rightarrow> 'w \<Rightarrow> int \<times> 'w"
  mei_wait :: "'w \<Rightarrow> (mei_rx list \<times> wait_end) \<times> 'w"

text \<open>The callbacks of a sleep, in order.\<close>

fun rx_all :: "('m \<Rightarrow> 's \<Rightarrow> 's result) \<Rightarrow> 'm list \<Rightarrow> 's \<Rightarrow> 's result" where
  "rx_all f [] s = Inr s"
| "rx_all f (m # ms) s = bindF (f m s) (rx_all f ms)"

lemma rx_all_invariant:
  assumes "rx_all f ms s = Inr s'" and "P s"
    and "\<And>m s s'. m \<in> set ms \<Longrightarrow> f m s = Inr s' \<Longrightarrow> P s \<Longrightarrow> P s'"
  shows "P s'"
  using assms
proof (induction ms arbitrary: s)
  case Nil
  then show ?case by simp
next
  case (Cons m ms)
  obtain s1 where "f m s = Inr s1" "rx_all f ms s1 = Inr s'"
    using Cons.prems(1) by (auto simp: bindF_eq_Inr)
  then show ?case
    using Cons.IH [of s1] Cons.prems(2,3) by (metis list.set_intros)
qed

text \<open>
  What every client of the bus promises of its callback: a message received changes the client only as a
  frame relation allows.  The same then holds of all the messages of a sleep.
\<close>

locale rx_client =
  fixes rx :: "mei_rx \<Rightarrow> 's \<Rightarrow> 's result" and same :: "'s \<Rightarrow> 's \<Rightarrow> bool"
  assumes same_refl: "same s s" and same_trans: "same s t \<Longrightarrow> same t u \<Longrightarrow> same s u"
    and rx_same: "rx m s = Inr s' \<Longrightarrow> same s s'"
begin

lemma all_same:
  assumes "rx_all rx ms s = Inr s'"
  shows "same s s'"
  by (rule rx_all_invariant [OF assms]) (auto intro: same_refl same_trans rx_same)

lemma sleep_same:
  assumes "bindF (rx_all rx ms s) (\<lambda>t. Inr (f t)) = Inr u"
  shows "\<exists>t. same s t \<and> u = f t"
  using assms all_same by (auto simp: bindF_eq_Inr)

end

text \<open>The value of \<open>wait_for_completion_killable_timeout\<close> when nothing completed it.\<close>

definition wait_code :: "wait_end \<Rightarrow> int" where
  "wait_code e = (case e of Timed_out \<Rightarrow> 0 | Killed \<Rightarrow> - ERESTARTSYS)"

definition complete :: "nat \<Rightarrow> nat" where
  "complete n = (if n = 0 then 1 else n)"

lemma wait_code_le: "wait_code e \<le> 0"
  by (simp add: wait_code_def split: wait_end.splits)

text \<open>A scripted bus: sends succeed, and each sleep receives the next batch of the script.\<close>

definition scripted_mei :: "mei_rx list list mei_env" where
  "scripted_mei =
     \<lparr>mei_send = (\<lambda>b w. (int (length b), w)),
      mei_wait = (\<lambda>w. case w of [] \<Rightarrow> (([], Timed_out), []) | ms # w \<Rightarrow> ((ms, Timed_out), w))\<rparr>"

end
