(* ===== verification/Mei_Csi.thy ===== *)
theory Mei_Csi
  imports Vsc_Hub Mei_Bus
begin

text \<open>
  \<^verbatim>\<open>drivers/misc/ivsc/mei_csi.c\<close>: the CSI firmware client.  Commands are sent under
  \<open>cmd_mutex\<close>, one at a time, and wait for a response of the firmware; privacy notifications
  arrive at any time and go to the callback of the camera driver.

  \<open>c_sent\<close> records the commands the bus accepted, \<open>c_calls\<close> the calls of the privacy callback.
\<close>

section \<open>State\<close>

abbreviation CSI_SET_OWNER :: u32 where "CSI_SET_OWNER \<equiv> 0"
abbreviation CSI_GET_OWNER :: u32 where "CSI_GET_OWNER \<equiv> 1"
abbreviation CSI_SET_MIPI_CONF :: u32 where "CSI_SET_MIPI_CONF \<equiv> 2"
abbreviation CSI_GET_MIPI_CONF :: u32 where "CSI_GET_MIPI_CONF \<equiv> 3"
abbreviation CSI_SET_POWER_STATE :: u32 where "CSI_SET_POWER_STATE \<equiv> 4"
abbreviation CSI_GET_POWER_STATE :: u32 where "CSI_GET_POWER_STATE \<equiv> 5"
abbreviation CSI_PRIVACY_NOTIF :: u32 where "CSI_PRIVACY_NOTIF \<equiv> 6"

abbreviation PRIVACY_OFF :: u32 where "PRIVACY_OFF \<equiv> 0"
abbreviation PRIVACY_ON :: u32 where "PRIVACY_ON \<equiv> 1"

text \<open>\<open>struct csi_notif\<close> is 24 bytes: cmd_id, status, and a union of 16 bytes.\<close>

abbreviation CSI_NOTIF_SIZE :: nat where "CSI_NOTIF_SIZE \<equiv> 24"

record 'w mei_csi =
  c_notif :: bytes
  c_done :: nat
  c_handle :: nat
  c_callback :: "nat option"
  c_calls :: "(nat \<times> nat \<times> u8) list"
  c_sent :: "bytes list"
  c_env :: 'w

section \<open>Receiving\<close>

definition privacy_notify :: "u8 \<Rightarrow> 'w mei_csi \<Rightarrow> 'w mei_csi" where
  "privacy_notify state c =
     (case c_callback c of
        None \<Rightarrow> c
      | Some f \<Rightarrow> c\<lparr>c_calls := c_calls c @ [(f, c_handle c, state)]\<rparr>)"

definition mei_csi_rx :: "mei_rx \<Rightarrow> 'w mei_csi \<Rightarrow> 'w mei_csi result" where
  "mei_csi_rx rx c =
     (case rx of
        Rx_error e \<Rightarrow> Inr c
      | Rx_data bs \<Rightarrow>
          bindF (store 0 bs (replicate CSI_NOTIF_SIZE 0)) (\<lambda>notif.
          bindF (get_le 0 4 notif) (\<lambda>cmd_id.
          bindF (get_le 8 4 notif) (\<lambda>cont.
          if cmd_id = CSI_PRIVACY_NOTIF then
            (if cont = PRIVACY_ON then Inr (privacy_notify 0 c)
             else if cont = PRIVACY_OFF then Inr (privacy_notify 1 c) else Inr c)
          else if cmd_id = CSI_SET_OWNER \<or> cmd_id = CSI_GET_OWNER \<or> cmd_id = CSI_SET_MIPI_CONF \<or>
                  cmd_id = CSI_GET_MIPI_CONF \<or> cmd_id = CSI_SET_POWER_STATE \<or> cmd_id = CSI_GET_POWER_STATE
          then bindF (store 0 bs (c_notif c)) (\<lambda>n. Inr (c\<lparr>c_notif := n, c_done := complete (c_done c)\<rparr>))
          else Inr c))))"

section \<open>Commands\<close>

definition csi_wait :: "'w mei_env \<Rightarrow> 'w mei_csi \<Rightarrow> (int \<times> 'w mei_csi) result" where
  "csi_wait E c =
     (let ((ms, e), w) = mei_wait E (c_env c) in
      bindF (rx_all mei_csi_rx ms (c\<lparr>c_env := w\<rparr>)) (\<lambda>c.
      if c_done c > 0 then Inr (1, c\<lparr>c_done := c_done c - 1\<rparr>) else Inr (wait_code e, c)))"

definition mei_csi_send :: "'w mei_env \<Rightarrow> bytes \<Rightarrow> 'w mei_csi \<Rightarrow> (int \<times> 'w mei_csi) result" where
  "mei_csi_send E buf c =
     (let (ret, w) = mei_send E buf (c_env c); c = c\<lparr>c_done := 0, c_env := w\<rparr> in
      if ret < 0 then Inr (ret, c)
      else
        bindF (csi_wait E (c\<lparr>c_sent := c_sent c @ [buf]\<rparr>)) (\<lambda>(ret, c).
        if ret < 0 then Inr (ret, c)
        else if ret = 0 then Inr (- ETIMEDOUT, c)
        else
          bindF (get_le 4 4 (c_notif c)) (\<lambda>st.
          let status = sint (st :: u32) in
          if status \<noteq> - 1 \<and> status \<noteq> 0 then Inr (status, c)
          else
            bindF (get_le 0 4 (c_notif c)) (\<lambda>rid.
            bindF (get_le 0 4 buf) (\<lambda>cid.
            Inr (if (rid :: u32) \<noteq> cid then - 1 else 0, c))))))"

definition csi_set_owner :: "'w mei_env \<Rightarrow> csi_owner \<Rightarrow> 'w mei_csi \<Rightarrow> (int \<times> 'w mei_csi) result" where
  "csi_set_owner E owner c =
     mei_csi_send E (le_bytes 4 CSI_SET_OWNER @ le_bytes 4 (csi_owner_code owner)) c"

text \<open>The getters return the value stored through the pointer, \<open>None\<close> where nothing is.\<close>

definition csi_get_owner ::
  "'w mei_env \<Rightarrow> 'w mei_csi \<Rightarrow> ((int \<times> u32 option) \<times> 'w mei_csi) result" where
  "csi_get_owner E c =
     bindF (mei_csi_send E (le_bytes 4 CSI_GET_OWNER) c) (\<lambda>(ret, c).
     if ret \<noteq> 0 then Inr ((ret, None), c)
     else bindF (get_le 8 4 (c_notif c)) (\<lambda>v. Inr ((0, Some v), c)))"

text \<open>The two reserved words of the command are never assigned: \<open>stack\<close> is what they hold.\<close>

definition csi_set_mipi_conf ::
  "'w mei_env \<Rightarrow> bytes \<Rightarrow> mipi_conf \<Rightarrow> 'w mei_csi \<Rightarrow> (int \<times> 'w mei_csi) result" where
  "csi_set_mipi_conf E stack conf c =
     mei_csi_send E (le_bytes 4 CSI_SET_MIPI_CONF @ le_bytes 4 (lane_num conf) @ le_bytes 4 (freq conf) @
                     take 8 stack) c"

definition csi_get_mipi_conf ::
  "'w mei_env \<Rightarrow> 'w mei_csi \<Rightarrow> ((int \<times> mipi_conf option) \<times> 'w mei_csi) result" where
  "csi_get_mipi_conf E c =
     bindF (mei_csi_send E (le_bytes 4 CSI_GET_MIPI_CONF) c) (\<lambda>(ret, c).
     if ret \<noteq> 0 then Inr ((ret, None), c)
     else bindF (get_le 8 4 (c_notif c)) (\<lambda>l. bindF (get_le 12 4 (c_notif c)) (\<lambda>f.
          Inr ((0, Some \<lparr>lane_num = l, freq = f\<rparr>), c))))"

definition csi_set_power_state ::
  "'w mei_env \<Rightarrow> csi_power_state \<Rightarrow> 'w mei_csi \<Rightarrow> (int \<times> 'w mei_csi) result" where
  "csi_set_power_state E state c =
     mei_csi_send E (le_bytes 4 CSI_SET_POWER_STATE @ le_bytes 4 (csi_power_code state)) c"

definition csi_get_power_state ::
  "'w mei_env \<Rightarrow> 'w mei_csi \<Rightarrow> ((int \<times> u32 option) \<times> 'w mei_csi) result" where
  "csi_get_power_state E c =
     bindF (mei_csi_send E (le_bytes 4 CSI_GET_POWER_STATE) c) (\<lambda>(ret, c).
     if ret \<noteq> 0 then Inr ((ret, None), c)
     else bindF (get_le 8 4 (c_notif c)) (\<lambda>v. Inr ((0, Some v), c)))"

definition csi_set_privacy_callback :: "nat option \<Rightarrow> nat \<Rightarrow> 'w mei_csi \<Rightarrow> 'w mei_csi" where
  "csi_set_privacy_callback callback handle c = c\<lparr>c_callback := callback, c_handle := handle\<rparr>"

section \<open>Probe and remove\<close>

text \<open>
  \<open>alloc\<close>, \<open>enable_ret\<close> and \<open>cb_ret\<close> are the answers of \<open>kzalloc\<close>, \<open>mei_cldev_enable\<close> and
  \<open>mei_cldev_register_rx_cb\<close>.  The result is the code, the client and the hub; the client's
  operations and object are what it registers.
\<close>

definition new_csi :: "'w \<Rightarrow> 'w mei_csi" where
  "new_csi w = \<lparr>c_notif = replicate CSI_NOTIF_SIZE 0, c_done = 0, c_handle = 0, c_callback = None,
                c_calls = [], c_sent = [], c_env = w\<rparr>"

definition mei_csi_probe ::
  "bool \<Rightarrow> int \<Rightarrow> int \<Rightarrow> nat \<Rightarrow> 's vsc_csi_ops \<Rightarrow> 'w \<Rightarrow> 's intel_vsc
   \<Rightarrow> int \<times> 'w mei_csi option \<times> 's intel_vsc" where
  "mei_csi_probe alloc enable_ret cb_ret obj ops w v =
     (if \<not> alloc then (- ENOMEM, None, v)
      else if enable_ret < 0 then (enable_ret, None, v)
      else if cb_ret \<noteq> 0 then (cb_ret, None, v)
      else let (_, v) = vsc_register_csi (Some obj) (Some ops) v in (0, Some (new_csi w), v))"

definition mei_csi_remove ::
  "'w mei_csi \<Rightarrow> 's intel_vsc \<Rightarrow> 'w mei_csi option \<times> 's intel_vsc" where
  "mei_csi_remove c v = (let c = c\<lparr>c_done := complete (c_done c)\<rparr> in (None, vsc_unregister_csi v))"

section \<open>The contract of the CSI client\<close>

definition csi_same :: "'w mei_csi \<Rightarrow> 'w mei_csi \<Rightarrow> bool" where
  "csi_same c c' \<longleftrightarrow> c_callback c' = c_callback c \<and> c_handle c' = c_handle c \<and> c_sent c' = c_sent c \<and>
     length (c_notif c') = length (c_notif c)"

lemma csi_same_refl [simp]: "csi_same c c"
  by (simp add: csi_same_def)

lemma csi_same_trans: "csi_same c c' \<Longrightarrow> csi_same c' c'' \<Longrightarrow> csi_same c c''"
  by (simp add: csi_same_def)

lemma csi_rx_same: "mei_csi_rx m c = Inr c' \<Longrightarrow> csi_same c c'"
  by (auto simp: mei_csi_rx_def csi_same_def bindF_eq_Inr privacy_notify_def store_eq_Inr
      split: mei_rx.splits if_splits option.splits)

interpretation csi_rx: rx_client mei_csi_rx csi_same
  by unfold_locales (auto intro: csi_same_trans csi_rx_same)

lemma csi_wait_same:
  assumes "csi_wait E c = Inr (r, c')"
  shows "csi_same c c'"
proof -
  obtain ms e w where w: "mei_wait E (c_env c) = ((ms, e), w)" by (metis surj_pair)
  have a: "csi_same c c1" if "rx_all mei_csi_rx ms (c\<lparr>c_env := w\<rparr>) = Inr c1" for c1
    using csi_rx.all_same [OF that] by (simp add: csi_same_def)
  show ?thesis
    using assms w by (auto simp: csi_wait_def bindF_eq_Inr csi_same_def split: if_splits dest!: a)
qed

lemma csi_send_cases:
  assumes "mei_csi_send E buf c = Inr (r, c')"
  shows "c_callback c' = c_callback c \<and> c_handle c' = c_handle c \<and>
    length (c_notif c') = length (c_notif c) \<and>
    (c_sent c' = c_sent c \<or> c_sent c' = c_sent c @ [buf]) \<and> (r = 0 \<longrightarrow> c_sent c' = c_sent c @ [buf])"
proof -
  obtain ret w where s: "mei_send E buf (c_env c) = (ret, w)" by force
  let ?c = "c\<lparr>c_done := 0, c_env := w, c_sent := c_sent c @ [buf]\<rparr>"
  show ?thesis
  proof (cases "ret < 0")
    case True
    then show ?thesis using assms s by (auto simp: mei_csi_send_def)
  next
    case False
    then obtain r1 where "csi_wait E ?c = Inr (r1, c')"
      using assms s by (auto simp: mei_csi_send_def bindF_eq_Inr Let_def split: if_splits)
    from csi_wait_same [OF this] show ?thesis by (simp add: csi_same_def)
  qed
qed

interpretation csi: csi_client
  "\<lambda>_ w c. csi_set_owner E w c" "\<lambda>_ m c. csi_set_mipi_conf E stack m c"
  "\<lambda>_ cb h c. Inr (csi_set_privacy_callback cb h c)"
  c_sent "\<lambda>c. (c_callback c, c_handle c)"
  for E :: "'w mei_env" and stack :: bytes
  by unfold_locales
    (auto simp: csi_set_owner_def csi_set_mipi_conf_def csi_owner_cmd_def csi_mipi_cmd_def
      csi_set_privacy_callback_def dest!: csi_send_cases)

section \<open>Properties\<close>

text \<open>The command id of a message, short ones padded with zeros, and the ids of responses.\<close>

definition rx_cmd_id :: "bytes \<Rightarrow> u32" where
  "rx_cmd_id bs = word_of_le (take 4 (bs @ replicate CSI_NOTIF_SIZE 0))"

definition csi_response :: "mei_rx \<Rightarrow> bool" where
  "csi_response m = (case m of Rx_error e \<Rightarrow> False | Rx_data bs \<Rightarrow> rx_cmd_id bs < CSI_PRIVACY_NOTIF)"

lemma u32_less_6: "(x :: u32) < 6 \<longleftrightarrow> x = 0 \<or> x = 1 \<or> x = 2 \<or> x = 3 \<or> x = 4 \<or> x = 5"
proof
  assume "x < 6"
  then have "unat x < 6" by (simp add: word_less_nat_alt)
  then have "unat x = 0 \<or> unat x = 1 \<or> unat x = 2 \<or> unat x = 3 \<or> unat x = 4 \<or> unat x = 5" by arith
  then show "x = 0 \<or> x = 1 \<or> x = 2 \<or> x = 3 \<or> x = 4 \<or> x = 5"
    by (simp add: word_unat_eq_iff)
qed auto

lemma csi_rx_done:
  assumes "mei_csi_rx m c = Inr c'"
  shows "c_done c' > 0 \<longleftrightarrow> c_done c > 0 \<or> csi_response m"
proof (cases m)
  case (Rx_error e)
  then show ?thesis using assms by (simp add: mei_csi_rx_def csi_response_def)
next
  case (Rx_data bs)
  obtain notif where n: "store 0 bs (replicate CSI_NOTIF_SIZE 0) = Inr notif"
    using assms Rx_data by (auto simp: mei_csi_rx_def bindF_eq_Inr)
  then have "take 4 notif = take 4 (bs @ replicate CSI_NOTIF_SIZE 0)" and len: "length notif = CSI_NOTIF_SIZE"
    by (auto simp: store_eq_Inr)
  then have id4: "get_le 0 4 notif = Inr (rx_cmd_id bs)"
    by (simp add: get_le_def load_def rx_cmd_id_def)
  have keep: "c_done (privacy_notify x c) = c_done c" for x
    by (simp add: privacy_notify_def split: option.splits)
  consider "rx_cmd_id bs = 6" | "rx_cmd_id bs < 6" | "\<not> rx_cmd_id bs < 6" "rx_cmd_id bs \<noteq> 6" by blast
  then show ?thesis
  proof cases
    case 1
    then have "c_done c' = c_done c"
      using assms Rx_data n id4 keep by (auto simp: mei_csi_rx_def bindF_eq_Inr split: if_splits)
    then show ?thesis using 1 Rx_data by (simp add: csi_response_def)
  next
    case 2
    then have "c_done c' = complete (c_done c)"
      using assms Rx_data n id4 by (auto simp: mei_csi_rx_def bindF_eq_Inr u32_less_6)
    then show ?thesis using 2 Rx_data by (simp add: csi_response_def complete_def)
  next
    case 3
    then have "c' = c"
      using assms Rx_data n id4 by (auto simp: mei_csi_rx_def bindF_eq_Inr u32_less_6)
    then show ?thesis using 3 Rx_data by (simp add: csi_response_def)
  qed
qed

lemma csi_rx_all_done:
  "rx_all mei_csi_rx ms c = Inr c' \<Longrightarrow> c_done c' > 0 \<longleftrightarrow> c_done c > 0 \<or> (\<exists>m\<in>set ms. csi_response m)"
proof (induction ms arbitrary: c)
  case Nil
  then show ?case by simp
next
  case (Cons m ms)
  then obtain c1 where "mei_csi_rx m c = Inr c1" "rx_all mei_csi_rx ms c1 = Inr c'"
    by (auto simp: bindF_eq_Inr)
  then show ?case using csi_rx_done [of m c c1] Cons.IH [of c1] by auto
qed

text \<open>
  Outcome of a CSI command, on every branch.  A send error is returned; without a response
  during the sleep the result is \<open>-ETIMEDOUT\<close> or, on a fatal signal, \<open>-ERESTARTSYS\<close>; with one, the
  status of the notification buffer decides, where 0 and -1 (privacy on) both count as success,
  except that a response to another command gives -1.
\<close>

lemma csi_send_outcome:
  assumes "mei_csi_send E buf c = Inr (r, c')"
    and "mei_send E buf (c_env c) = (ret, w)" and "mei_wait E w = ((ms, e), w')"
  shows "r = (if ret < 0 then ret
    else if \<forall>m\<in>set ms. \<not> csi_response m then (if e = Killed then - ERESTARTSYS else - ETIMEDOUT)
    else let st = sint (word_of_le (take 4 (drop 4 (c_notif c'))) :: u32) in
      if st \<noteq> 0 \<and> st \<noteq> - 1 then st
      else if (word_of_le (take 4 (c_notif c')) :: u32) \<noteq> word_of_le (take 4 buf) then - 1 else 0)"
proof (cases "ret < 0")
  case True
  then show ?thesis using assms by (auto simp: mei_csi_send_def)
next
  case False
  let ?c = "c\<lparr>c_done := 0, c_env := w, c_sent := c_sent c @ [buf]\<rparr>"
  obtain c1 where rx: "rx_all mei_csi_rx ms (?c\<lparr>c_env := w'\<rparr>) = Inr c1"
    using assms False by (auto simp: mei_csi_send_def csi_wait_def bindF_eq_Inr Let_def)
  have done': "c_done c1 > 0 \<longleftrightarrow> (\<exists>m\<in>set ms. csi_response m)"
    using csi_rx_all_done [OF rx] by simp
  show ?thesis
  proof (cases "c_done c1 > 0")
    case True
    then show ?thesis
      using assms False rx done'
      by (auto simp: mei_csi_send_def csi_wait_def bindF_eq_Inr Let_def get_le_def load_eq_Inr split: if_splits)
  next
    case False
    then show ?thesis
      using assms \<open>\<not> ret < 0\<close> rx done'
      by (auto simp: mei_csi_send_def csi_wait_def wait_code_def split: wait_end.splits if_splits)
  qed
qed

text \<open>
  A message of no bytes is taken for the response of whatever command is pending: the
  zero-filled buffer names \<open>CSI_SET_OWNER\<close>, nothing is copied, and the sleeper is completed.  If the
  notification buffer still holds the successful response to an earlier command of the same id, a
  new command succeeds although the firmware has not answered it.
\<close>

lemma csi_empty_message_completes:
  assumes "length (c_notif c) = CSI_NOTIF_SIZE" and "mei_send E buf (c_env c) = (ret, w)" and "0 \<le> ret"
    and "mei_wait E w = (([Rx_data []], e), w')"
    and "take 4 (c_notif c) = take 4 buf" and "take 4 (drop 4 (c_notif c)) = [0, 0, 0, 0]" and "4 \<le> length buf"
  shows "\<exists>c'. mei_csi_send E buf c = Inr (0, c') \<and> c_notif c' = c_notif c"
proof -
  have z: "get_le 0 4 (replicate CSI_NOTIF_SIZE (0 :: u8)) = Inr (0 :: u32)"
    "get_le 8 4 (replicate CSI_NOTIF_SIZE (0 :: u8)) = Inr (0 :: u32)"
    by code_simp+
  have rx: "mei_csi_rx (Rx_data []) d = Inr (d\<lparr>c_done := complete (c_done d)\<rparr>)" for d :: "'a mei_csi"
    using z by (simp add: mei_csi_rx_def store_def)
  have ids: "get_le 0 4 (c_notif c) = Inr (word_of_le (take 4 buf) :: u32)"
    "get_le 0 4 buf = Inr (word_of_le (take 4 buf) :: u32)"
    "get_le 4 4 (c_notif c) = Inr (0 :: u32)"
    using assms(1,5,6,7) by (auto simp: get_le_def load_def)
  have "\<not> ret < 0" using assms(3) by simp
  then show ?thesis
    using assms(2,4) ids by (auto simp: mei_csi_send_def csi_wait_def rx complete_def)
qed

text \<open>
  Privacy notifications.  A complete notification of state 1 (on) reaches the registered
  callback as \<open>VSC_PRIVACY_ON\<close> (0) and of state 0 (off) as \<open>VSC_PRIVACY_OFF\<close> (1), with the handle
  registered with it; any other state, and the case of no callback, is ignored; a pending command
  is not touched.
\<close>

lemma csi_privacy_mapping:
  assumes "bs = le_bytes 4 CSI_PRIVACY_NOTIF @ le_bytes 4 (st :: u32) @ le_bytes 4 (state :: u32)"
  shows "\<exists>c'. mei_csi_rx (Rx_data bs) c = Inr c' \<and> c_done c' = c_done c \<and> c_notif c' = c_notif c \<and>
    c_calls c' = c_calls c @
      (case c_callback c of None \<Rightarrow> []
       | Some f \<Rightarrow> if state = PRIVACY_ON then [(f, c_handle c, 0)]
                  else if state = PRIVACY_OFF then [(f, c_handle c, 1)] else [])"
proof -
  let ?n = "bs @ replicate 12 0"
  have n: "store 0 bs (replicate CSI_NOTIF_SIZE 0) = Inr ?n"
    using assms by (simp add: store_def)
  have "take 4 ?n = le_bytes 4 CSI_PRIVACY_NOTIF" "take 4 (drop 8 ?n) = le_bytes 4 state"
    using assms by simp_all
  moreover have "12 \<le> length ?n" using assms by simp
  ultimately have "get_le 0 4 ?n = Inr CSI_PRIVACY_NOTIF" "get_le 8 4 ?n = Inr state"
    by (simp_all add: get_le_def load_def word_of_le_le_bytes)
  then show ?thesis
    using n by (auto simp: mei_csi_rx_def privacy_notify_def split: option.splits)
qed

end
