(* ===== verification/Mei_Ace.thy ===== *)
theory Mei_Ace
  imports Vsc_Hub Mei_Bus
begin

text \<open>
  \<^verbatim>\<open>drivers/misc/ivsc/mei_ace.c\<close>: the ACE firmware client, which moves the ownership of the
  camera between the IPU and the firmware.  A command is answered twice, by a reply that carries a
  status and by a management notification that carries the camera status; both are awaited.

  A message received is copied into an uninitialised local variable of 14 bytes, so bytes beyond
  the ones received have no value.  \<open>a_sent\<close> records the commands the bus accepted.
\<close>

section \<open>Data\<close>

abbreviation ACE_CMD_SET :: "5 word" where "ACE_CMD_SET \<equiv> 4"
abbreviation NOTIFICATION :: "5 word" where "NOTIFICATION \<equiv> 27"
abbreviation GET_CAMERA_STATUS :: u8 where "GET_CAMERA_STATUS \<equiv> 0x15"
abbreviation GET_FW_ID :: u8 where "GET_FW_ID \<equiv> 0x1A"
abbreviation FW_READY :: u8 where "FW_READY \<equiv> 8"
abbreviation MANAGEMENT_NOTIF :: u8 where "MANAGEMENT_NOTIF \<equiv> 16"
abbreviation CTRL_NOTIF :: u16 where "CTRL_NOTIF \<equiv> 2"
abbreviation ACE_HDR_SIZE :: nat where "ACE_HDR_SIZE \<equiv> 8"
abbreviation ACE_NOTIF_SIZE :: nat where "ACE_NOTIF_SIZE \<equiv> 14"

text \<open>\<open>struct ace_cmd_hdr\<close>, least significant field first; the reserved bits are zero.\<close>

record ace_cmd_hdr =
  h_module_id :: u16
  h_instance_id :: u8
  h_type :: "5 word"
  h_rsp :: "1 word"
  h_msg_tgt :: "1 word"
  h_param_size :: "20 word"
  h_cmd_id :: u8
  h_final_block :: "1 word"
  h_init_block :: "1 word"

definition ace_hdr_word0 :: "ace_cmd_hdr \<Rightarrow> u32" where
  "ace_hdr_word0 h = ucast (h_module_id h) OR push_bit 16 (ucast (h_instance_id h)) OR
     push_bit 24 (ucast (h_type h)) OR push_bit 29 (ucast (h_rsp h)) OR push_bit 30 (ucast (h_msg_tgt h))"

definition ace_hdr_word1 :: "ace_cmd_hdr \<Rightarrow> u32" where
  "ace_hdr_word1 h = ucast (h_param_size h) OR push_bit 20 (ucast (h_cmd_id h)) OR
     push_bit 28 (ucast (h_final_block h)) OR push_bit 29 (ucast (h_init_block h))"

definition ace_hdr_bytes :: "ace_cmd_hdr \<Rightarrow> bytes" where
  "ace_hdr_bytes h = le_bytes 4 (ace_hdr_word0 h) @ le_bytes 4 (ace_hdr_word1 h)"

text \<open>\<open>union ace_notif_hdr\<close>: the fields of its three readings, from the two words.\<close>

record ace_notif_hdr =
  n_word0 :: u32
  n_word1 :: u32

definition n_status :: "ace_notif_hdr \<Rightarrow> nat" where "n_status h = unat (take_bit 24 (n_word0 h))"
definition n_type :: "ace_notif_hdr \<Rightarrow> 5 word" where "n_type h = ucast (drop_bit 24 (n_word0 h))"
definition n_rsp :: "ace_notif_hdr \<Rightarrow> 1 word" where "n_rsp h = ucast (drop_bit 29 (n_word0 h))"
definition n_msg_tgt :: "ace_notif_hdr \<Rightarrow> 1 word" where "n_msg_tgt h = ucast (drop_bit 30 (n_word0 h))"
definition n_cmd_id :: "ace_notif_hdr \<Rightarrow> u8" where "n_cmd_id h = ucast (drop_bit 20 (n_word1 h))"
definition n_notif_type :: "ace_notif_hdr \<Rightarrow> u8" where "n_notif_type h = ucast (drop_bit 16 (n_word0 h))"
definition n_event_id :: "ace_notif_hdr \<Rightarrow> u16" where "n_event_id h = ucast (n_word0 h)"
definition n_request_id :: "ace_notif_hdr \<Rightarrow> u8" where "n_request_id h = ucast (drop_bit 22 (n_word1 h))"

definition ace_notif_hdr_of :: "bytes \<Rightarrow> ace_notif_hdr result" where
  "ace_notif_hdr_of bs =
     bindF (get_le 0 4 bs) (\<lambda>a. bindF (get_le 4 4 bs) (\<lambda>b. Inr \<lparr>n_word0 = a, n_word1 = b\<rparr>))"

text \<open>\<open>struct camera_status\<close> in its 5 bytes.\<close>

definition camera_status_of :: "bytes \<Rightarrow> camera_status result" where
  "camera_status_of bs =
     bindF (load 0 1 bs) (\<lambda>b. bindF (get_le 1 4 bs) (\<lambda>e.
     Inr \<lparr>camera_owner = ucast (b ! 0), privacy_stat = ucast (drop_bit 2 (b ! 0)), exposure_level = e\<rparr>))"

record 'w mei_ace =
  a_cmd_resp :: bytes
  a_response :: nat
  a_reply :: nat
  a_reply_notif :: bytes
  a_module_id :: u16
  a_woken :: bool
  a_sent :: "bytes list"
  a_env :: 'w

section \<open>Commands\<close>

text \<open>The UUID in \<open>uuid_le\<close> layout.\<close>

definition UUID_GET_FW_ID :: bytes where
  "UUID_GET_FW_ID = le_bytes 4 (0x6167DCFB :: u32) @ le_bytes 2 (0x72F1 :: u16) @ le_bytes 2 (0x4584 :: u16) @
     [0xBF, 0xE3, 0x84, 0x17, 0x71, 0xAA, 0x79, 0x0B]"

definition init_cmd_hdr :: ace_cmd_hdr where
  "init_cmd_hdr = \<lparr>h_module_id = 0, h_instance_id = 0, h_type = ACE_CMD_SET, h_rsp = 0, h_msg_tgt = 1,
                   h_param_size = 0, h_cmd_id = 0, h_final_block = 1, h_init_block = 1\<rparr>"

text \<open>\<open>trigger_get_fw_id\<close> sends the GET_FW_ID command, the only one that needs no module id.\<close>

definition get_fw_id_cmd :: bytes where
  "get_fw_id_cmd =
     ace_hdr_bytes (init_cmd_hdr\<lparr>h_cmd_id := GET_FW_ID, h_param_size := 16\<rparr>) @ UUID_GET_FW_ID"

definition trigger_get_fw_id :: "'w mei_env \<Rightarrow> 'w mei_ace \<Rightarrow> int \<times> 'w mei_ace" where
  "trigger_get_fw_id E a =
     (let (ret, w) = mei_send E get_fw_id_cmd (a_env a); a = a\<lparr>a_env := w\<rparr>
      in (ret, if ret < 0 then a else a\<lparr>a_sent := a_sent a @ [get_fw_id_cmd]\<rparr>))"

section \<open>Receiving\<close>

definition handle_notify :: "'w mei_env \<Rightarrow> ace_notif_hdr \<Rightarrow> bytes \<Rightarrow> 'w mei_ace \<Rightarrow> 'w mei_ace result" where
  "handle_notify E hdr resp a =
     (if n_msg_tgt hdr \<noteq> 0 \<or> n_type hdr \<noteq> NOTIFICATION then Inr a
      else if n_notif_type hdr = FW_READY then Inr (snd (trigger_get_fw_id E a))
      else if n_notif_type hdr = MANAGEMENT_NOTIF \<and> n_event_id hdr = CTRL_NOTIF \<and>
              (n_request_id hdr = ACE_OWN_CAMERA \<or> n_request_id hdr = IPU_OWN_CAMERA \<or>
               n_request_id hdr = GET_CAMERA_STATUS)
      then bindF (store 0 resp (a_cmd_resp a)) (\<lambda>r.
           Inr (a\<lparr>a_cmd_resp := r, a_response := complete (a_response a)\<rparr>))
      else Inr a)"

text \<open>The bytes received are copied to the start of the local variable; the rest is unassigned.\<close>

definition mei_ace_rx :: "'w mei_env \<Rightarrow> mei_rx \<Rightarrow> 'w mei_ace \<Rightarrow> 'w mei_ace result" where
  "mei_ace_rx E rx a =
     (case rx of
        Rx_error e \<Rightarrow> Inr a
      | Rx_data bs \<Rightarrow>
          if length bs > ACE_NOTIF_SIZE then Inl OutOfBounds
          else if length bs < ACE_HDR_SIZE then Inr a
          else
            bindF (ace_notif_hdr_of bs) (\<lambda>hdr.
            if n_rsp hdr = 1 then
              (if n_cmd_id hdr = GET_FW_ID then
                 (if length bs < ACE_HDR_SIZE + 2 then Inl UninitRead
                  else bindF (get_le ACE_HDR_SIZE 2 bs) (\<lambda>m. Inr (a\<lparr>a_module_id := m, a_woken := True\<rparr>)))
               else bindF (store 0 bs (a_reply_notif a)) (\<lambda>r.
                    Inr (a\<lparr>a_reply_notif := r, a_reply := complete (a_reply a)\<rparr>)))
            else handle_notify E hdr bs a))"

text \<open>A sleep: messages arrive; \<open>wait_event_interruptible\<close> returns at once when woken before.\<close>

definition ace_sleep :: "'w mei_env \<Rightarrow> 'w mei_ace \<Rightarrow> (wait_end \<times> 'w mei_ace) result" where
  "ace_sleep E a =
     (let ((ms, e), w) = mei_wait E (a_env a) in
      bindF (rx_all (mei_ace_rx E) ms (a\<lparr>a_env := w\<rparr>)) (\<lambda>a. Inr (e, a)))"

definition get_fw_id :: "'w mei_env \<Rightarrow> 'w mei_ace \<Rightarrow> (u16 \<times> 'w mei_ace) result" where
  "get_fw_id E a =
     (if a_woken a then Inr (a_module_id a, a)
      else bindF (ace_sleep E a) (\<lambda>(e, a). Inr (a_module_id a, a)))"

text \<open>The command as sent: the header and \<open>param_size\<close> bytes of the parameter.\<close>

definition construct_command :: "'w mei_env \<Rightarrow> u8 \<Rightarrow> 'w mei_ace \<Rightarrow> (bytes \<times> 'w mei_ace) result" where
  "construct_command E cmd_id a =
     (let hdr = init_cmd_hdr\<lparr>h_cmd_id := cmd_id\<rparr> in
      if cmd_id = GET_FW_ID then Inr (ace_hdr_bytes (hdr\<lparr>h_param_size := 16\<rparr>) @ UUID_GET_FW_ID, a)
      else if cmd_id = ACE_OWN_CAMERA then
        bindF (get_fw_id E a) (\<lambda>(m, a).
        Inr (ace_hdr_bytes (hdr\<lparr>h_module_id := m, h_param_size := 4\<rparr>) @ le_bytes 4 (0 :: u32), a))
      else if cmd_id = IPU_OWN_CAMERA \<or> cmd_id = GET_CAMERA_STATUS then
        bindF (get_fw_id E a) (\<lambda>(m, a). Inr (ace_hdr_bytes (hdr\<lparr>h_module_id := m\<rparr>), a))
      else Inr (ace_hdr_bytes hdr, a))"

definition wait_reply :: "'w mei_env \<Rightarrow> 'w mei_ace \<Rightarrow> (int \<times> 'w mei_ace) result" where
  "wait_reply E a =
     (if a_reply a > 0 then Inr (1, a\<lparr>a_reply := a_reply a - 1\<rparr>)
      else bindF (ace_sleep E a) (\<lambda>(e, a).
           if a_reply a > 0 then Inr (1, a\<lparr>a_reply := a_reply a - 1\<rparr>) else Inr (wait_code e, a)))"

definition wait_response :: "'w mei_env \<Rightarrow> 'w mei_ace \<Rightarrow> (int \<times> 'w mei_ace) result" where
  "wait_response E a =
     (if a_response a > 0 then Inr (1, a\<lparr>a_response := a_response a - 1\<rparr>)
      else bindF (ace_sleep E a) (\<lambda>(e, a).
           if a_response a > 0 then Inr (1, a\<lparr>a_response := a_response a - 1\<rparr>) else Inr (wait_code e, a)))"

text \<open>\<open>cid\<close> is the \<open>cmd_id\<close> field of the command's header.\<close>

definition send_command_sync ::
  "'w mei_env \<Rightarrow> u8 \<Rightarrow> bytes \<Rightarrow> 'w mei_ace \<Rightarrow> (int \<times> 'w mei_ace) result" where
  "send_command_sync E cid cmd a =
     (let (ret, w) = mei_send E cmd (a_env a); a = a\<lparr>a_response := 0, a_reply := 0, a_env := w\<rparr> in
      if ret < 0 then Inr (ret, a)
      else
        bindF (wait_reply E (a\<lparr>a_sent := a_sent a @ [cmd]\<rparr>)) (\<lambda>(ret, a).
        if ret < 0 then Inr (ret, a)
        else if ret = 0 then Inr (- ETIMEDOUT, a)
        else
          bindF (ace_notif_hdr_of (a_reply_notif a)) (\<lambda>reply.
          if n_cmd_id reply \<noteq> cid then Inr (- 1, a)
          else if n_status reply \<noteq> 0 then Inr (- 1, a)
          else
            bindF (wait_response E a) (\<lambda>(ret, a).
            if ret < 0 then Inr (ret, a)
            else if ret = 0 then Inr (- ETIMEDOUT, a)
            else
              bindF (ace_notif_hdr_of (a_cmd_resp a)) (\<lambda>resp.
              Inr (if n_request_id resp \<noteq> cid then - 1 else 0, a))))))"

definition set_camera_ownership ::
  "'w mei_env \<Rightarrow> u8 \<Rightarrow> 'w mei_ace \<Rightarrow> ((int \<times> camera_status option) \<times> 'w mei_ace) result" where
  "set_camera_ownership E cmd_id a =
     bindF (construct_command E cmd_id a) (\<lambda>(cmd, a).
     bindF (send_command_sync E cmd_id cmd a) (\<lambda>(ret, a).
     if ret \<noteq> 0 then Inr ((ret, None), a)
     else bindF (load ACE_HDR_SIZE 5 (a_cmd_resp a)) (\<lambda>b. bindF (camera_status_of b) (\<lambda>st.
          Inr ((0, Some st), a)))))"

definition ipu_own_camera ::
  "'w mei_env \<Rightarrow> 'w mei_ace \<Rightarrow> ((int \<times> camera_status option) \<times> 'w mei_ace) result" where
  "ipu_own_camera E a = set_camera_ownership E IPU_OWN_CAMERA a"

definition ace_own_camera ::
  "'w mei_env \<Rightarrow> 'w mei_ace \<Rightarrow> ((int \<times> camera_status option) \<times> 'w mei_ace) result" where
  "ace_own_camera E a = set_camera_ownership E ACE_OWN_CAMERA a"

definition get_camera_status ::
  "'w mei_env \<Rightarrow> 'w mei_ace \<Rightarrow> ((int \<times> camera_status option) \<times> 'w mei_ace) result" where
  "get_camera_status E a =
     bindF (construct_command E GET_CAMERA_STATUS a) (\<lambda>(cmd, a).
     bindF (send_command_sync E GET_CAMERA_STATUS cmd a) (\<lambda>(ret, a).
     if ret \<noteq> 0 then Inr ((ret, None), a)
     else bindF (load ACE_HDR_SIZE 5 (a_cmd_resp a)) (\<lambda>b. bindF (camera_status_of b) (\<lambda>st.
          Inr ((0, Some st), a)))))"

section \<open>Probe and remove\<close>

definition new_ace :: "'w \<Rightarrow> 'w mei_ace" where
  "new_ace w = \<lparr>a_cmd_resp = replicate ACE_NOTIF_SIZE 0, a_response = 0, a_reply = 0,
                a_reply_notif = replicate ACE_NOTIF_SIZE 0, a_module_id = 0, a_woken = False,
                a_sent = [], a_env = w\<rparr>"

definition mei_ace_probe ::
  "'w mei_env \<Rightarrow> bool \<Rightarrow> int \<Rightarrow> int \<Rightarrow> nat \<Rightarrow> 's vsc_ace_ops \<Rightarrow> 'w \<Rightarrow> 's intel_vsc
   \<Rightarrow> int \<times> 'w mei_ace option \<times> 's intel_vsc" where
  "mei_ace_probe E alloc enable_ret cb_ret obj ops w v =
     (if \<not> alloc then (- ENOMEM, None, v)
      else if enable_ret < 0 then (enable_ret, None, v)
      else if cb_ret \<noteq> 0 then (cb_ret, None, v)
      else
        let (_, a) = trigger_get_fw_id E (new_ace w); (_, v) = vsc_register_ace (Some obj) (Some ops) v
        in (0, Some a, v))"

text \<open>Sleepers are completed, then the client is freed once \<open>cmd_mutex\<close> is free.\<close>

definition mei_ace_remove :: "'w mei_ace \<Rightarrow> 's intel_vsc \<Rightarrow> 'w mei_ace option \<times> 's intel_vsc" where
  "mei_ace_remove a v = (None, vsc_unregister_ace v)"

section \<open>The header codec\<close>

lemma ace_word0_bits:
  "bit (ace_hdr_word0 h) k \<longleftrightarrow>
     (if k < 16 then bit (h_module_id h) k else if k < 24 then bit (h_instance_id h) (k - 16)
      else if k < 29 then bit (h_type h) (k - 24) else if k = 29 then bit (h_rsp h) 0
      else k = 30 \<and> bit (h_msg_tgt h) 0)"
proof -
  consider "k < 16" | "16 \<le> k" "k < 24" | "24 \<le> k" "k < 29" | "k = 29" | "k = 30" | "31 \<le> k" by linarith
  then show ?thesis
    by cases (auto simp: ace_hdr_word0_def bit_or_iff bit_push_bit_iff bit_ucast_iff
        dest: bit_imp_le_length)
qed

lemma ace_word1_bits:
  "bit (ace_hdr_word1 h) k \<longleftrightarrow>
     (if k < 20 then bit (h_param_size h) k else if k < 28 then bit (h_cmd_id h) (k - 20)
      else if k = 28 then bit (h_final_block h) 0 else k = 29 \<and> bit (h_init_block h) 0)"
proof -
  consider "k < 20" | "20 \<le> k" "k < 28" | "k = 28" | "k = 29" | "30 \<le> k" by linarith
  then show ?thesis
    by cases (auto simp: ace_hdr_word1_def bit_or_iff bit_push_bit_iff bit_ucast_iff
        dest: bit_imp_le_length)
qed

lemma ace_notif_hdr_of_bytes:
  "ace_notif_hdr_of (ace_hdr_bytes h @ p) = Inr \<lparr>n_word0 = ace_hdr_word0 h, n_word1 = ace_hdr_word1 h\<rparr>"
  by (simp add: ace_notif_hdr_of_def ace_hdr_bytes_def get_le_def load_def word_of_le_le_bytes)

lemma ace_hdr_fields:
  defines "n \<equiv> \<lambda>h. \<lparr>n_word0 = ace_hdr_word0 h, n_word1 = ace_hdr_word1 h\<rparr>"
  shows "n_event_id (n h) = h_module_id h" "n_notif_type (n h) = h_instance_id h" "n_type (n h) = h_type h"
    "n_rsp (n h) = h_rsp h" "n_msg_tgt (n h) = h_msg_tgt h" "n_cmd_id (n h) = h_cmd_id h"
  by (rule bit_word_eqI, simp add: n_def n_event_id_def n_notif_type_def n_type_def n_rsp_def n_msg_tgt_def
      n_cmd_id_def bit_ucast_iff bit_drop_bit_eq ace_word0_bits ace_word1_bits)+

text \<open>
  The command header keeps its fields.  A receiver that splits the eight bytes of a command's
  header the way the driver splits a reply's reads back the module id, the instance, the type, the
  response and target bits and the command id that were packed.
\<close>
lemma ace_hdr_roundtrip:
  "\<exists>n. ace_notif_hdr_of (ace_hdr_bytes h @ p) = Inr n \<and>
     n_event_id n = h_module_id h \<and> n_notif_type n = h_instance_id h \<and> n_type n = h_type h \<and>
     n_rsp n = h_rsp h \<and> n_msg_tgt n = h_msg_tgt h \<and> n_cmd_id n = h_cmd_id h"
  using ace_notif_hdr_of_bytes ace_hdr_fields by blast

section \<open>What a sleep changes\<close>

text \<open>
  A message received sends at most further GET_FW_ID commands, and neither buffer changes size.
\<close>

definition ace_frame :: "'w mei_ace \<Rightarrow> 'w mei_ace \<Rightarrow> bool" where
  "ace_frame a a' \<longleftrightarrow>
     (\<exists>k. a_sent a' = a_sent a @ replicate k get_fw_id_cmd) \<and>
     length (a_cmd_resp a') = length (a_cmd_resp a) \<and> length (a_reply_notif a') = length (a_reply_notif a)"

lemma ace_frame_refl [simp]: "ace_frame a a"
  unfolding ace_frame_def by (auto intro: exI [of _ 0])

lemma ace_frame_trans [trans]: "ace_frame a b \<Longrightarrow> ace_frame b c \<Longrightarrow> ace_frame a c"
  unfolding ace_frame_def by (auto simp flip: replicate_add)

lemma ace_frame_env [simp]:
  "ace_frame a (b\<lparr>a_env := w\<rparr>) = ace_frame a b" "ace_frame (a\<lparr>a_env := w\<rparr>) b = ace_frame a b"
  "ace_frame a (b\<lparr>a_reply := n\<rparr>) = ace_frame a b" "ace_frame (a\<lparr>a_reply := n\<rparr>) b = ace_frame a b"
  "ace_frame a (b\<lparr>a_response := n\<rparr>) = ace_frame a b" "ace_frame (a\<lparr>a_response := n\<rparr>) b = ace_frame a b"
  "ace_frame a (b\<lparr>a_module_id := m\<rparr>) = ace_frame a b" "ace_frame a (b\<lparr>a_woken := q\<rparr>) = ace_frame a b"
  by (simp_all add: ace_frame_def)

lemma trigger_get_fw_id_frame: "trigger_get_fw_id E a = (ret, a') \<Longrightarrow> ace_frame a a'"
  by (auto simp: trigger_get_fw_id_def ace_frame_def Let_def split: prod.splits if_splits
      intro: exI [of _ 0] exI [of _ "Suc 0"])

lemma handle_notify_frame: "handle_notify E hdr resp a = Inr a' \<Longrightarrow> ace_frame a a'"
  using trigger_get_fw_id_frame [of E a "fst (trigger_get_fw_id E a)" "snd (trigger_get_fw_id E a)"]
  by (auto simp: handle_notify_def bindF_eq_Inr ace_frame_def dest: store_length split: if_splits
      intro: exI [of _ 0])

lemma mei_ace_rx_frame: "mei_ace_rx E rx a = Inr a' \<Longrightarrow> ace_frame a a'"
proof (cases rx)
  case (Rx_data bs)
  assume "mei_ace_rx E rx a = Inr a'"
  then show ?thesis using Rx_data
    by (auto simp: mei_ace_rx_def bindF_eq_Inr split: if_splits dest: handle_notify_frame store_length)
      (auto simp: ace_frame_def dest: store_length intro: exI [of _ 0])
qed (simp add: mei_ace_rx_def)

interpretation ace_rx: rx_client "mei_ace_rx E" ace_frame for E
  by unfold_locales (auto intro: ace_frame_trans mei_ace_rx_frame)

lemma ace_sleep_frame:
  assumes "ace_sleep E a = Inr (e, a')"
  shows "ace_frame a a'"
proof -
  obtain ms e' w where w: "mei_wait E (a_env a) = ((ms, e'), w)" by (metis surj_pair)
  then have "bindF (rx_all (mei_ace_rx E) ms (a\<lparr>a_env := w\<rparr>)) (\<lambda>a. Inr (e', a)) = Inr (e, a')"
    using assms by (simp add: ace_sleep_def)
  from ace_rx.sleep_same [OF this] show ?thesis by auto
qed

lemma get_fw_id_frame: "get_fw_id E a = Inr (m, a') \<Longrightarrow> ace_frame a a'"
  by (auto simp: get_fw_id_def bindF_eq_Inr split: if_splits dest: ace_sleep_frame)

lemma wait_reply_frame: "wait_reply E a = Inr (r, a') \<Longrightarrow> ace_frame a a'"
  by (auto simp: wait_reply_def bindF_eq_Inr split: if_splits dest: ace_sleep_frame)

lemma wait_response_frame: "wait_response E a = Inr (r, a') \<Longrightarrow> ace_frame a a'"
  by (auto simp: wait_response_def bindF_eq_Inr split: if_splits dest: ace_sleep_frame)

lemma construct_command_frame: "construct_command E c a = Inr (cmd, a') \<Longrightarrow> ace_frame a a'"
  by (auto simp: construct_command_def bindF_eq_Inr Let_def split: if_splits dest: get_fw_id_frame)


text \<open>The commands the bus accepted, by their ids, less the requests for the firmware id.\<close>

definition ace_cmd_id :: "bytes \<Rightarrow> u8" where
  "ace_cmd_id b = (case ace_notif_hdr_of b of Inl _ \<Rightarrow> 0 | Inr n \<Rightarrow> n_cmd_id n)"

definition ace_commands :: "'w mei_ace \<Rightarrow> u8 list" where
  "ace_commands a = filter (\<lambda>c. c \<noteq> GET_FW_ID) (map ace_cmd_id (a_sent a))"

lemma ace_cmd_id_bytes [simp]: "ace_cmd_id (ace_hdr_bytes h @ p) = h_cmd_id h"
  by (simp add: ace_cmd_id_def ace_notif_hdr_of_bytes ace_hdr_fields)

lemma ace_commands_frame: "ace_frame a a' \<Longrightarrow> ace_commands a' = ace_commands a"
  by (auto simp: ace_frame_def ace_commands_def get_fw_id_cmd_def map_replicate_const)

lemma construct_command_bytes:
  "construct_command E c a = Inr (cmd, a') \<Longrightarrow> ace_cmd_id cmd = c"
  using ace_cmd_id_bytes [where p = "[]"]
  by (auto simp: construct_command_def bindF_eq_Inr Let_def init_cmd_hdr_def split: if_splits)

lemma wait_code_not_pos: "\<not> wait_code e > 0"
  using wait_code_le [of e] by linarith

text \<open>How a command can succeed, and what it sent in any case.\<close>

lemma send_command_sync_cases:
  assumes "send_command_sync E c cmd a = Inr (r, a')"
  obtains (refused) "r < 0" "ace_frame a a'"
  | (sent) a1 where "a_sent a1 = a_sent a @ [cmd]" "ace_frame a1 a'"
      "r = 0 \<longrightarrow> (\<exists>n. ace_notif_hdr_of (a_cmd_resp a') = Inr n \<and> n_request_id n = c)"
proof -
  obtain n w where send: "mei_send E cmd (a_env a) = (n, w)" by fastforce
  define a1 where "a1 = a\<lparr>a_response := 0, a_reply := 0, a_env := w, a_sent := a_sent a @ [cmd]\<rparr>"
  show thesis
  proof (cases "n < 0")
    case True
    then show thesis using assms send refused by (auto simp: send_command_sync_def)
  next
    case False
    then obtain k a2 where wr: "wait_reply E a1 = Inr (k, a2)" and rest:
      "(if k < 0 then Inr (k, a2) else if k = 0 then Inr (- ETIMEDOUT, a2)
        else bindF (ace_notif_hdr_of (a_reply_notif a2)) (\<lambda>reply.
          if n_cmd_id reply \<noteq> c then Inr (- 1, a2) else if n_status reply \<noteq> 0 then Inr (- 1, a2)
          else bindF (wait_response E a2) (\<lambda>(ret, a).
            if ret < 0 then Inr (ret, a) else if ret = 0 then Inr (- ETIMEDOUT, a)
            else bindF (ace_notif_hdr_of (a_cmd_resp a)) (\<lambda>resp.
              Inr (if n_request_id resp \<noteq> c then - 1 else 0, a))))) = Inr (r, a')"
      using assms send by (auto simp: send_command_sync_def Let_def bindF_eq_Inr a1_def cong: if_cong)
    have "a_sent a1 = a_sent a @ [cmd]" by (simp add: a1_def)
    moreover have "ace_frame a1 a' \<and>
      (r = 0 \<longrightarrow> (\<exists>n. ace_notif_hdr_of (a_cmd_resp a') = Inr n \<and> n_request_id n = c))"
      using rest wait_reply_frame [OF wr]
      by (auto simp: bindF_eq_Inr split: if_splits dest!: wait_response_frame intro: ace_frame_trans)
    ultimately show thesis using sent by blast
  qed
qed

lemma set_camera_ownership_any:
  assumes "set_camera_ownership E c a = Inr ((r, st), a')" and "c \<noteq> GET_FW_ID"
  shows "ace_commands a' = ace_commands a \<and> r \<noteq> 0 \<or> ace_commands a' = ace_commands a @ [c]"
    and "r = 0 \<Longrightarrow> (\<exists>cs n. st = Some cs \<and> camera_status_of (take 5 (drop 8 (a_cmd_resp a'))) = Inr cs \<and>
           ace_notif_hdr_of (a_cmd_resp a') = Inr n \<and> n_request_id n = c)"
    and "r \<noteq> 0 \<Longrightarrow> st = None"
proof -
  obtain cmd a1 a2 where cc: "construct_command E c a = Inr (cmd, a1)"
    and ss: "send_command_sync E c cmd a1 = Inr (r, a2)" and eq: "a' = a2"
    and st: "r \<noteq> 0 \<and> st = None \<or> r = 0 \<and> (\<exists>cs. st = Some cs \<and>
        camera_status_of (take 5 (drop 8 (a_cmd_resp a2))) = Inr cs)"
    using assms(1) by (auto simp: set_camera_ownership_def bindF_eq_Inr load_def split: if_splits)
  note id = construct_command_bytes [OF cc] and fr = construct_command_frame [OF cc]
  show "ace_commands a' = ace_commands a \<and> r \<noteq> 0 \<or> ace_commands a' = ace_commands a @ [c]"
    using ss
  proof (cases rule: send_command_sync_cases)
    case refused
    then show ?thesis using eq ace_commands_frame ace_frame_trans [OF fr] by auto
  next
    case (sent a3)
    then have "ace_commands a' = ace_commands a3" using eq ace_commands_frame by blast
    also have "\<dots> = ace_commands a1 @ [c]" using sent id assms(2) by (simp add: ace_commands_def)
    finally show ?thesis using ace_commands_frame [OF fr] by simp
  qed
  show "\<exists>cs n. st = Some cs \<and> camera_status_of (take 5 (drop 8 (a_cmd_resp a'))) = Inr cs \<and>
           ace_notif_hdr_of (a_cmd_resp a') = Inr n \<and> n_request_id n = c" if "r = 0"
    using ss
  proof (cases rule: send_command_sync_cases)
    case refused
    then show ?thesis using that by simp
  next
    case (sent a3)
    then show ?thesis using eq st that by auto
  qed
  show "st = None" if "r \<noteq> 0" using st that by simp
qed


section \<open>Properties\<close>


text \<open>A firmware that answers the id request, then the ownership command.\<close>

definition demo_ace_replies :: "mei_rx list list" where
  "demo_ace_replies =
     [[Rx_data (ace_hdr_bytes \<lparr>h_module_id = 0, h_instance_id = 0, h_type = 27, h_rsp = 1, h_msg_tgt = 0,
          h_param_size = 0, h_cmd_id = GET_FW_ID, h_final_block = 0, h_init_block = 0\<rparr> @ [7, 0])],
      [Rx_data (ace_hdr_bytes \<lparr>h_module_id = 0, h_instance_id = 0, h_type = 4, h_rsp = 1, h_msg_tgt = 0,
          h_param_size = 0, h_cmd_id = IPU_OWN_CAMERA, h_final_block = 0, h_init_block = 0\<rparr>),
       Rx_data (le_bytes 4 (0x1B100002 :: u32) @ le_bytes 4 (push_bit 22 0x13 :: u32) @ [8, 1, 0, 0, 0])]]"

definition demo_ace :: "mei_rx list list mei_ace" where
  "demo_ace = snd (trigger_get_fw_id scripted_mei (new_ace demo_ace_replies))"


text \<open>
  Receiving is memory safe but for one message.  A message that fits the receive buffer never
  writes outside the reply and response buffers and never faults, unless it is the reply to
  GET_FW_ID cut short before its module id: then the module id stored is an unassigned stack value.
\<close>
lemma ace_rx_fault_iff:
  assumes "length bs \<le> ACE_NOTIF_SIZE" and "length (a_cmd_resp a) = ACE_NOTIF_SIZE"
    and "length (a_reply_notif a) = ACE_NOTIF_SIZE"
  shows "(\<exists>a'. mei_ace_rx E (Rx_data bs) a = Inr a') \<longleftrightarrow>
    \<not> (ACE_HDR_SIZE \<le> length bs \<and> length bs < ACE_HDR_SIZE + 2 \<and>
       (\<exists>n. ace_notif_hdr_of bs = Inr n \<and> n_rsp n = 1 \<and> n_cmd_id n = GET_FW_ID))"
proof (cases "length bs < ACE_HDR_SIZE")
  case True
  then show ?thesis using assms by (simp add: mei_ace_rx_def)
next
  case False
  then obtain n where "ace_notif_hdr_of bs = Inr n"
    by (auto simp: ace_notif_hdr_of_def get_le_def load_def)
  then show ?thesis using assms False
    by (auto simp: mei_ace_rx_def handle_notify_def store_def get_le_def load_def)
qed

end
