(* ===== verification/Mei_Debugfs.thy ===== *)
theory Mei_Debugfs
  imports Mei_Bus
begin

text \<open>
  What the two clients with debugfs files (\<^verbatim>\<open>mei_pse.c\<close> and \<^verbatim>\<open>mei_ace_debug.c\<close>) share: the log files they
  write, the page a read prints into, and the law of their logs as a locale.

  Parameters, beside the bus, are \<open>kernel_write\<close> (given the file, the bytes from the source address on, the
  count and the position; it returns its result and the position it leaves) and the clock.
\<close>

section \<open>Log files\<close>

abbreviation MAX_RECV_SIZE :: nat where "MAX_RECV_SIZE \<equiv> 8192"
abbreviation MAX_LOG_SIZE :: int where "MAX_LOG_SIZE \<equiv> 0x40000000"
abbreviation PAGE_SIZE :: nat where "PAGE_SIZE \<equiv> 4096"

record 'w dfs_env = "'w mei_env" +
  kernel_write :: "string \<Rightarrow> bytes \<Rightarrow> u64 \<Rightarrow> int \<Rightarrow> 'w \<Rightarrow> (int \<times> int) \<times> 'w"
  ktime_get_ns :: "'w \<Rightarrow> u64 \<times> 'w"

text \<open>Both callbacks add the result of the write to the position that \<open>kernel_write\<close> has left.\<close>

definition log_write :: "'w dfs_env \<Rightarrow> string \<Rightarrow> bytes \<Rightarrow> u64 \<Rightarrow> int \<Rightarrow> 'w \<Rightarrow> int \<times> 'w" where
  "log_write E file src n pos w =
     (let ((ret, pos), w) = kernel_write E file src n pos w in (if ret < 0 then pos else pos + ret, w))"

text \<open>The documented write: all of the bytes, at the position, which is advanced by their number.\<close>

definition writes_all :: "(int \<times> bytes) list dfs_env \<Rightarrow> string \<Rightarrow> bool" where
  "writes_all E file \<longleftrightarrow> (\<forall>src n pos w. kernel_write E file src n pos w =
     ((int (unat n), pos + int (unat n)), w @ [(pos, take (unat n) src)]))"

lemma log_write_all:
  assumes "writes_all E file" and "length p \<le> MAX_RECV_SIZE"
  shows "log_write E file (p @ rest) (of_nat (length p)) pos w = (pos + 2 * int (length p), w @ [(pos, p)])"
proof -
  have n: "unat (of_nat (length p) :: u64) = length p" using assms(2) by (simp add: unsigned_of_nat take_bit_eq_mod)
  show ?thesis unfolding log_write_def assms(1) [unfolded writes_all_def, rule_format] n by simp
qed

text \<open>Records written with a gap as long as each of them behind it.\<close>

fun gapped :: "int \<Rightarrow> bytes list \<Rightarrow> (int \<times> bytes) list" where
  "gapped pos [] = []"
| "gapped pos (p # ps) = (pos, p) # gapped (pos + 2 * int (length p)) ps"

text \<open>A client that appends to its log: one record per message, the position moved twice.\<close>

locale log_client =
  fixes record_msg :: "bytes \<Rightarrow> 's \<Rightarrow> 's result"
    and ready :: "'s \<Rightarrow> bool" and pos_of :: "'s \<Rightarrow> int" and log_of :: "'s \<Rightarrow> (int \<times> bytes) list"
    and max_record :: nat
  assumes record_msg: "ready s \<Longrightarrow> length p \<le> max_record \<Longrightarrow> pos_of s < MAX_LOG_SIZE \<Longrightarrow>
    \<exists>s'. record_msg p s = Inr s' \<and> ready s' \<and> pos_of s' = pos_of s + 2 * int (length p) \<and>
      log_of s' = log_of s @ [(pos_of s, p)]"
begin

lemma records_gapped:
  assumes "ready s" and "\<forall>p \<in> set ps. length p \<le> max_record"
    and "pos_of s + 2 * int (length (concat ps)) < MAX_LOG_SIZE"
  shows "\<exists>s'. rx_all record_msg ps s = Inr s' \<and> ready s' \<and> log_of s' = log_of s @ gapped (pos_of s) ps \<and>
    pos_of s' = pos_of s + 2 * int (length (concat ps))"
  using assms
proof (induction ps arbitrary: s)
  case Nil
  then show ?case by simp
next
  case (Cons p ps)
  then obtain s1 where s1: "record_msg p s = Inr s1" "ready s1" "pos_of s1 = pos_of s + 2 * int (length p)"
      "log_of s1 = log_of s @ [(pos_of s, p)]"
    using record_msg [of s p] by auto
  have "pos_of s1 + 2 * int (length (concat ps)) < MAX_LOG_SIZE" using Cons.prems(3) s1(3) by simp
  from Cons.IH [OF s1(2) _ this] Cons.prems(2) s1 show ?case by (auto simp: algebra_simps)
qed

end

lemma rx_all_map: "rx_all f (map g xs) s = rx_all (\<lambda>x. f (g x)) xs s"
proof (induction xs arbitrary: s)
  case (Cons x xs)
  then have "rx_all f (map g xs) = rx_all (\<lambda>x. f (g x)) xs" by (simp add: fun_eq_iff)
  then show ?case by simp
qed simp

lemma rx_all_append: "rx_all f (xs @ ys) s = bindF (rx_all f xs s) (rx_all f ys)"
proof (induction xs arbitrary: s)
  case (Cons x xs)
  then show ?case by (cases "f x s") simp_all
qed simp

section \<open>The page a read prints into\<close>

text \<open>
  A page and the position in it.  \<open>snprintf (addr + pos, PAGE_SIZE - pos, ...)\<close> writes what fits, with a NUL,
  and returns the length of the whole text; the kernel's refuses a size beyond \<open>INT_MAX\<close>, the value of a
  negative \<open>PAGE_SIZE - pos\<close>, and returns 0.
\<close>

type_synonym page = "string \<times> nat"

definition zeroed_page :: page where
  "zeroed_page = (replicate PAGE_SIZE (CHR 0x00), 0)"

definition snprintf_page :: "string \<Rightarrow> page \<Rightarrow> page" where
  "snprintf_page str = (\<lambda>(addr, pos).
     if pos > PAGE_SIZE then (addr, pos)
     else
       let out = (if pos = PAGE_SIZE then [] else take (PAGE_SIZE - pos - 1) str @ [CHR 0x00]) in
       (take pos addr @ out @ drop (pos + length out) addr, pos + length str))"

text \<open>\<open>%n\<close>\<open>s\<close> and \<open>%n\<close>\<open>u\<close> pad with blanks, \<open>%.m\<close>\<open>s\<close> reads at most \<open>m\<close> bytes up to a NUL.\<close>

definition pad :: "nat \<Rightarrow> char \<Rightarrow> string \<Rightarrow> string" where
  "pad n c str = replicate (n - length str) c @ str"

definition text_of :: "bytes \<Rightarrow> string" where
  "text_of bs = map (\<lambda>b. char_of (unat b)) (takeWhile (\<lambda>b. b \<noteq> 0) bs)"

abbreviation newline :: char where "newline \<equiv> CHR 0x0A"

text \<open>What a read hands to \<open>simple_read_from_buffer\<close>: the page and the length it may read.\<close>

datatype dfs_read =
    Dfs_err int
  | Dfs_buffer string nat

lemma page_pos:
  "pos \<le> PAGE_SIZE \<Longrightarrow> length addr = PAGE_SIZE \<Longrightarrow>
    (if pos + length (concat ls) \<le> PAGE_SIZE then snd (fold snprintf_page ls (addr, pos)) = pos + length (concat ls)
     else snd (fold snprintf_page ls (addr, pos)) > PAGE_SIZE)"
proof (induction ls arbitrary: addr pos)
  case (Cons l ls)
  obtain addr' where a: "snprintf_page l (addr, pos) = (addr', pos + length l)" "length addr' = PAGE_SIZE"
    using Cons.prems by (auto simp: snprintf_page_def Let_def)
  have stuck: "fold snprintf_page ls (addr', q) = (addr', q)" if "q > PAGE_SIZE" for ls q
    using that by (induction ls) (simp_all add: snprintf_page_def)
  show ?case
  proof (cases "pos + length l \<le> PAGE_SIZE")
    case True
    then show ?thesis using a Cons.IH [of "pos + length l" addr'] by (simp add: add.assoc)
  next
    case False
    then show ?thesis using a stuck [of "pos + length l" ls] by simp
  qed
qed simp

lemma page_text:
  "length pre + length (concat ls) < PAGE_SIZE \<Longrightarrow>
    fold snprintf_page ls (pre @ replicate (PAGE_SIZE - length pre) (CHR 0x00), length pre) =
    (let t = pre @ concat ls in (t @ replicate (PAGE_SIZE - length t) (CHR 0x00), length t))"
proof (induction ls arbitrary: pre)
  case (Cons l ls)
  have fit: "length pre + length l < PAGE_SIZE" using Cons.prems by simp
  then obtain m where m: "PAGE_SIZE - (length pre + length l) = Suc m" by (metis Suc_diff_Suc)
  then have m': "4095 - (length pre + length l) = m" by arith
  have "snprintf_page l (pre @ replicate (PAGE_SIZE - length pre) (CHR 0x00), length pre) =
      ((pre @ l) @ replicate (PAGE_SIZE - length (pre @ l)) (CHR 0x00), length (pre @ l))"
    using fit by (simp add: snprintf_page_def Let_def m m')
  then show ?case using Cons.IH [of "pre @ l"] Cons.prems by simp
qed simp

lemma zeroed_text:
  assumes "length (concat ls) < PAGE_SIZE"
  shows "fold snprintf_page ls zeroed_page =
    (concat ls @ replicate (PAGE_SIZE - length (concat ls)) (CHR 0x00), length (concat ls))"
  using page_text [of "[]" ls] assms by (simp add: zeroed_page_def Let_def)

lemma zeroed_pos:
  "(if length (concat ls) \<le> PAGE_SIZE then snd (fold snprintf_page ls zeroed_page) = length (concat ls)
    else snd (fold snprintf_page ls zeroed_page) > PAGE_SIZE)"
  using page_pos [of 0 "replicate PAGE_SIZE (CHR 0x00)" ls] by (simp add: zeroed_page_def)

end
