(* ===== verification/Mei_Ace_Debug.thy ===== *)
theory Mei_Ace_Debug
  imports Mei_Ace Mei_Debugfs
begin

text \<open>
  \<^verbatim>\<open>drivers/misc/ivsc/mei_ace_debug.c\<close>: the debug client of the ACE firmware.  Its headers have the layout
  of the ACE client's, whose codec is used; its commands are answered by one reply; its log goes to a file.

  The receive buffer keeps the bytes of earlier messages.  \<open>g_sent\<close> records the commands the bus accepted,
  \<open>g_dups\<close> counts the copies of user buffers that were made and not freed.
\<close>

section \<open>Data\<close>

abbreviation AD_GET_FW_VER :: u8 where "AD_GET_FW_VER \<equiv> 0"
abbreviation AD_LOG_CONFIG :: u8 where "AD_LOG_CONFIG \<equiv> 6"
abbreviation AD_SET_SYS_TIME :: u8 where "AD_SET_SYS_TIME \<equiv> 20"
abbreviation ACE_CMD_GET :: "5 word" where "ACE_CMD_GET \<equiv> 3"
abbreviation LOG_BUFFER_STATUS :: u8 where "LOG_BUFFER_STATUS \<equiv> 6"
abbreviation LOG_CONFIG_PARAM_COUNT :: nat where "LOG_CONFIG_PARAM_COUNT \<equiv> 7"
abbreviation ACE_LOG_FILE :: string where "ACE_LOG_FILE \<equiv> ''/var/log/vsc_ace.log''"

text \<open>\<open>struct ace_notif\<close> is 24 bytes here: the header and a \<open>struct firmware_version\<close>.\<close>

abbreviation AD_NOTIF_SIZE :: nat where "AD_NOTIF_SIZE \<equiv> 24"

record firmware_version =
  fv_type :: u32
  fv_len :: u32
  fv_major :: u16
  fv_minor :: u16
  fv_hotfix :: u16
  fv_build :: u16

definition firmware_version_of :: "bytes \<Rightarrow> firmware_version result" where
  "firmware_version_of b =
     bindF (get_le 0 4 b) (\<lambda>t. bindF (get_le 4 4 b) (\<lambda>l. bindF (get_le 8 2 b) (\<lambda>ma. bindF (get_le 10 2 b) (\<lambda>mi.
     bindF (get_le 12 2 b) (\<lambda>h. bindF (get_le 14 2 b) (\<lambda>bu.
     Inr \<lparr>fv_type = t, fv_len = l, fv_major = ma, fv_minor = mi, fv_hotfix = h, fv_build = bu\<rparr>))))))"

text \<open>\<open>struct log_config\<close>: 16 masks, and a union of 16 bytes at the end.\<close>

record log_config =
  aging_period :: u32
  fifo_period :: u32
  enable :: u32
  priority_mask :: "u32 list"
  tracing_method :: u32
  tracing_format :: u32

definition log_config_bytes :: "log_config \<Rightarrow> bytes" where
  "log_config_bytes c = le_bytes 4 (aging_period c) @ le_bytes 4 (fifo_period c) @ le_bytes 4 (enable c) @
     concat (map (le_bytes 4) (priority_mask c)) @ le_bytes 4 (tracing_method c) @ le_bytes 4 (tracing_format c) @ replicate 16 0"

record 'w ace_debug =
  g_cmd_resp :: bytes
  g_response :: nat
  g_reply :: nat
  g_reply_notif :: bytes
  g_pos :: int
  g_file_open :: bool
  g_recv :: bytes
  g_dups :: nat
  g_sent :: "bytes list"
  g_env :: 'w

section \<open>Receiving\<close>

definition ad_handle_notify :: "'w dfs_env \<Rightarrow> ace_notif_hdr \<Rightarrow> nat \<Rightarrow> 'w ace_debug \<Rightarrow> 'w ace_debug result" where
  "ad_handle_notify E hdr len d =
     (if n_msg_tgt hdr \<noteq> 0 \<or> n_type hdr \<noteq> NOTIFICATION then Inr d
      else if n_notif_type hdr = FW_READY then Inr d
      else if n_notif_type hdr = LOG_BUFFER_STATUS then
        if g_pos d < MAX_LOG_SIZE then
          if \<not> g_file_open d then Inl NullDeref
          else
            let (pos, w) = log_write E ACE_LOG_FILE (drop ACE_HDR_SIZE (g_recv d)) (of_nat len - of_nat ACE_HDR_SIZE) (g_pos d) (g_env d) in
            Inr (d\<lparr>g_pos := pos, g_env := w\<rparr>)
        else Inr d
      else if n_notif_type hdr = MANAGEMENT_NOTIF \<and> n_event_id hdr = CTRL_NOTIF \<and>
              (n_request_id hdr = AD_GET_FW_VER \<or> n_request_id hdr = AD_LOG_CONFIG \<or>
               n_request_id hdr = AD_SET_SYS_TIME \<or> n_request_id hdr = GET_FW_ID)
      then bindF (load 0 len (g_recv d)) (\<lambda>bs. bindF (store 0 bs (g_cmd_resp d)) (\<lambda>r.
           Inr (d\<lparr>g_cmd_resp := r, g_response := complete (g_response d)\<rparr>)))
      else Inr d)"

text \<open>A reply is copied whole, whatever was received of it.\<close>

definition mei_ace_debug_rx :: "'w dfs_env \<Rightarrow> mei_rx \<Rightarrow> 'w ace_debug \<Rightarrow> 'w ace_debug result" where
  "mei_ace_debug_rx E rx d =
     (case rx of
        Rx_error e \<Rightarrow> Inr d
      | Rx_data bs \<Rightarrow>
          bindF (store 0 bs (g_recv d)) (\<lambda>recv. let d = d\<lparr>g_recv := recv\<rparr> in
          if length bs < ACE_HDR_SIZE then Inr d
          else
            bindF (ace_notif_hdr_of recv) (\<lambda>hdr.
            if n_rsp hdr = 1 then
              bindF (load 0 AD_NOTIF_SIZE recv) (\<lambda>r. bindF (store 0 r (g_reply_notif d)) (\<lambda>r.
              Inr (d\<lparr>g_reply_notif := r, g_reply := complete (g_reply d)\<rparr>)))
            else ad_handle_notify E hdr (length bs) d)))"

section \<open>Commands\<close>

definition ad_init_cmd_hdr :: ace_cmd_hdr where
  "ad_init_cmd_hdr = \<lparr>h_module_id = 0, h_instance_id = 0, h_type = ACE_CMD_SET, h_rsp = 0, h_msg_tgt = 1,
                      h_param_size = 0, h_cmd_id = 0, h_final_block = 1, h_init_block = 1\<rparr>"

text \<open>The header and \<open>param_size\<close> bytes of parameter; \<open>user_data\<close> is the UUID or the log configuration.\<close>

definition ad_construct_command :: "'w dfs_env \<Rightarrow> u8 \<Rightarrow> bytes \<Rightarrow> 'w ace_debug \<Rightarrow> (bytes \<times> 'w ace_debug) result" where
  "ad_construct_command E cmd_id user_data d =
     (let hdr = ad_init_cmd_hdr\<lparr>h_cmd_id := cmd_id\<rparr> in
      if cmd_id = AD_GET_FW_VER then Inr (ace_hdr_bytes (hdr\<lparr>h_type := ACE_CMD_GET\<rparr>), d)
      else if cmd_id = AD_SET_SYS_TIME then
        let (t, w) = ktime_get_ns E (g_env d) in
        Inr (ace_hdr_bytes (hdr\<lparr>h_param_size := 8\<rparr>) @ le_bytes 8 t, d\<lparr>g_env := w\<rparr>)
      else if cmd_id = GET_FW_ID then
        bindF (load 0 16 user_data) (\<lambda>u. Inr (ace_hdr_bytes (hdr\<lparr>h_param_size := 16\<rparr>) @ u, d))
      else if cmd_id = AD_LOG_CONFIG then
        bindF (load 0 100 user_data) (\<lambda>u. Inr (ace_hdr_bytes (hdr\<lparr>h_param_size := 100\<rparr>) @ u, d))
      else Inr (ace_hdr_bytes hdr, d))"

definition ad_wait_reply :: "'w dfs_env \<Rightarrow> 'w ace_debug \<Rightarrow> (int \<times> 'w ace_debug) result" where
  "ad_wait_reply E d =
     (let ((ms, e), w) = mei_wait E (g_env d) in
      bindF (rx_all (mei_ace_debug_rx E) ms (d\<lparr>g_env := w\<rparr>)) (\<lambda>d.
      if g_reply d > 0 then Inr (1, d\<lparr>g_reply := g_reply d - 1\<rparr>) else Inr (wait_code e, d)))"

text \<open>\<open>cid\<close> is the \<open>cmd_id\<close> field of the command's header.\<close>

definition ad_send_command_sync :: "'w dfs_env \<Rightarrow> u8 \<Rightarrow> bytes \<Rightarrow> 'w ace_debug \<Rightarrow> (int \<times> 'w ace_debug) result" where
  "ad_send_command_sync E cid cmd d =
     (let (ret, w) = mei_send E cmd (g_env d); d = d\<lparr>g_reply := 0, g_env := w\<rparr> in
      if ret < 0 then Inr (ret, d)
      else
        bindF (ad_wait_reply E (d\<lparr>g_sent := g_sent d @ [cmd]\<rparr>)) (\<lambda>(ret, d).
        if ret < 0 then Inr (ret, d)
        else if ret = 0 then Inr (- ETIMEDOUT, d)
        else
          bindF (ace_notif_hdr_of (g_reply_notif d)) (\<lambda>reply.
          if n_cmd_id reply \<noteq> cid then Inr (- 1, d)
          else if n_status reply \<noteq> 0 then Inr (- 1, d)
          else Inr (0, d))))"

definition set_system_time :: "'w dfs_env \<Rightarrow> 'w ace_debug \<Rightarrow> (int \<times> 'w ace_debug) result" where
  "set_system_time E d =
     bindF (ad_construct_command E AD_SET_SYS_TIME [] d) (\<lambda>(cmd, d). ad_send_command_sync E AD_SET_SYS_TIME cmd d)"

definition ad_time_write :: "'w dfs_env \<Rightarrow> nat \<Rightarrow> 'w ace_debug \<Rightarrow> (int \<times> 'w ace_debug) result" where
  "ad_time_write E count d = bindF (set_system_time E d) (\<lambda>(ret, d). Inr (if ret \<noteq> 0 then ret else int count, d))"

definition config_log :: "'w dfs_env \<Rightarrow> log_config \<Rightarrow> 'w ace_debug \<Rightarrow> (int \<times> 'w ace_debug) result" where
  "config_log E config d =
     bindF (ad_construct_command E AD_LOG_CONFIG (log_config_bytes config) d) (\<lambda>(cmd, d). ad_send_command_sync E AD_LOG_CONFIG cmd d)"

text \<open>
  \<open>user\<close> is the answer of \<open>memdup_user_nul\<close> and \<open>sscanf\<close> together: an error, or the numbers that were
  converted, in the order of the format.
\<close>

definition ad_log_config_write :: "'w dfs_env \<Rightarrow> int + u32 list \<Rightarrow> nat \<Rightarrow> 'w ace_debug \<Rightarrow> (int \<times> 'w ace_debug) result" where
  "ad_log_config_write E user count d =
     (case user of
        Inl err \<Rightarrow> Inr (err, d)
      | Inr v \<Rightarrow>
          let d = d\<lparr>g_dups := g_dups d + 1\<rparr> in
          if length v \<noteq> LOG_CONFIG_PARAM_COUNT then Inr (- EINVAL, d)
          else
            let config = \<lparr>aging_period = v ! 0, fifo_period = v ! 1, enable = v ! 2,
                          priority_mask = v ! 3 # v ! 4 # replicate 14 0, tracing_method = v ! 6, tracing_format = v ! 5\<rparr> in
            bindF (config_log E config d) (\<lambda>(ret, d). Inr (if ret \<noteq> 0 then ret else int count, d)))"

definition get_firmware_version :: "'w dfs_env \<Rightarrow> 'w ace_debug \<Rightarrow> ((int \<times> firmware_version option) \<times> 'w ace_debug) result" where
  "get_firmware_version E d =
     bindF (ad_construct_command E AD_GET_FW_VER [] d) (\<lambda>(cmd, d).
     bindF (ad_send_command_sync E AD_GET_FW_VER cmd d) (\<lambda>(ret, d).
     if ret \<noteq> 0 then Inr ((ret, None), d)
     else bindF (load ACE_HDR_SIZE 16 (g_reply_notif d)) (\<lambda>b. bindF (firmware_version_of b) (\<lambda>v. Inr ((0, Some v), d)))))"

definition ad_firmware_version_read :: "'w dfs_env \<Rightarrow> bool \<Rightarrow> 'w ace_debug \<Rightarrow> (dfs_read \<times> 'w ace_debug) result" where
  "ad_firmware_version_read E page_ok d =
     (if \<not> page_ok then Inr (Dfs_err (- ENOMEM), d)
      else
        bindF (get_firmware_version E d) (\<lambda>((ret, v), d).
        if ret \<noteq> 0 then Inr (Dfs_err ret, d)
        else
          bindF (assigned v) (\<lambda>v.
          let (addr, pos) = snprintf_page (''firmware version: '' @ dec (unat (fv_major v)) @ ''.'' @ dec (unat (fv_minor v)) @ ''.'' @
                dec (unat (fv_hotfix v)) @ ''.'' @ dec (unat (fv_build v)) @ [newline]) zeroed_page in
          Inr (Dfs_buffer addr pos, d))))"

section \<open>Probe and remove\<close>

record ad_res =
  q_obj :: bool
  q_recv :: bool
  q_enabled :: bool
  q_file :: bool
  q_dfs :: bool

abbreviation no_ad_res :: ad_res where
  "no_ad_res \<equiv> \<lparr>q_obj = False, q_recv = False, q_enabled = False, q_file = False, q_dfs = False\<rparr>"

definition new_ace_debug :: "bytes \<Rightarrow> 'w \<Rightarrow> 'w ace_debug" where
  "new_ace_debug recv w = \<lparr>g_cmd_resp = replicate AD_NOTIF_SIZE 0, g_response = 0, g_reply = 0,
     g_reply_notif = replicate AD_NOTIF_SIZE 0, g_pos = 0, g_file_open = False, g_recv = recv, g_dups = 0, g_sent = [], g_env = w\<rparr>"

definition ad_err_out :: "int \<Rightarrow> ad_res \<Rightarrow> int \<times> ad_res" where
  "ad_err_out ret r = (ret, r\<lparr>q_recv := False, q_obj := False\<rparr>)"

definition ad_err_disable :: "int \<Rightarrow> ad_res \<Rightarrow> int \<times> ad_res" where
  "ad_err_disable ret r = ad_err_out ret (r\<lparr>q_enabled := False\<rparr>)"

text \<open>
  The arguments are the answers of \<open>kzalloc\<close>, of the page allocator (with what the pages hold), of
  \<open>mei_cldev_enable\<close>, \<open>mei_cldev_register_rx_cb\<close>, \<open>filp_open\<close> and \<open>debugfs_create_dir\<close>, and the messages that
  arrive before the log file is opened.
\<close>

definition mei_ace_debug_probe ::
  "'w dfs_env \<Rightarrow> bool \<Rightarrow> bytes option \<Rightarrow> int \<Rightarrow> int \<Rightarrow> int \<Rightarrow> bool \<Rightarrow> mei_rx list \<Rightarrow> 'w
   \<Rightarrow> ((int \<times> ad_res) \<times> 'w ace_debug option) result" where
  "mei_ace_debug_probe E alloc pages enable_ret cb_ret file_ret dfs_ok early w =
     (if \<not> alloc then Inr ((- ENOMEM, no_ad_res), None)
      else case pages of None \<Rightarrow> Inr ((- ENOMEM, no_ad_res), None) | Some recv \<Rightarrow>
        let d = new_ace_debug recv w; r = no_ad_res\<lparr>q_obj := True, q_recv := True\<rparr> in
        if enable_ret < 0 then Inr (ad_err_out enable_ret r, None)
        else
          let r = r\<lparr>q_enabled := True\<rparr> in
          if cb_ret \<noteq> 0 then Inr (ad_err_disable cb_ret r, None)
          else
            bindF (rx_all (mei_ace_debug_rx E) early d) (\<lambda>d.
            if file_ret < 0 then Inr (ad_err_disable file_ret r, None)
            else Inr ((0, r\<lparr>q_file := True, q_dfs := dfs_ok\<rparr>), Some (d\<lparr>g_file_open := True, g_pos := 0\<rparr>))))"

definition mei_ace_debug_remove :: "'w ace_debug \<Rightarrow> ad_res \<Rightarrow> ad_res \<times> 'w ace_debug option" where
  "mei_ace_debug_remove d r =
     (let d = d\<lparr>g_response := complete (g_response d), g_reply := complete (g_reply d)\<rparr> in
      (r\<lparr>q_enabled := False, q_dfs := False, q_file := False, q_recv := False, q_obj := False\<rparr>, None))"

section \<open>Which messages the callback survives\<close>

definition ad_wf :: "'w ace_debug \<Rightarrow> bool" where
  "ad_wf d \<longleftrightarrow> length (g_cmd_resp d) = AD_NOTIF_SIZE \<and> length (g_reply_notif d) = AD_NOTIF_SIZE \<and> length (g_recv d) = MAX_RECV_SIZE"

text \<open>The header of a message, and whether it is the answer to a command as a notification.\<close>

definition ad_hdr :: "bytes \<Rightarrow> ace_notif_hdr" where
  "ad_hdr bs = \<lparr>n_word0 = word_of_le (take 4 bs), n_word1 = word_of_le (take 4 (drop 4 bs))\<rparr>"

definition ad_response :: "bytes \<Rightarrow> bool" where
  "ad_response bs \<longleftrightarrow> (let h = ad_hdr bs in n_rsp h = 0 \<and> n_msg_tgt h = 0 \<and> n_type h = NOTIFICATION \<and>
     n_notif_type h = MANAGEMENT_NOTIF \<and> n_event_id h = CTRL_NOTIF \<and>
     n_request_id h \<in> {AD_GET_FW_VER, AD_LOG_CONFIG, AD_SET_SYS_TIME, GET_FW_ID})"

lemma one_bit: "(x :: 1 word) \<noteq> 1 \<longleftrightarrow> x = 0"
proof -
  have "unat x < 2 ^ LENGTH(1)" by (rule unsigned_less)
  then have "unat x < 2" by simp
  then have "unat x = 0 \<or> unat x = 1" by arith
  then show ?thesis by (auto simp: word_unat_eq_iff)
qed

lemma ad_rx_data:
  assumes "ad_wf d" and "length bs \<le> MAX_RECV_SIZE"
  shows "mei_ace_debug_rx E (Rx_data bs) d =
    (let d' = d\<lparr>g_recv := bs @ drop (length bs) (g_recv d)\<rparr> in
     if length bs < ACE_HDR_SIZE then Inr d'
     else if n_rsp (ad_hdr bs) = 1 then Inr (d'\<lparr>g_reply_notif := take AD_NOTIF_SIZE (g_recv d'), g_reply := complete (g_reply d)\<rparr>)
     else ad_handle_notify E (ad_hdr bs) (length bs) d')"
proof -
  let ?r = "bs @ drop (length bs) (g_recv d)"
  have st: "store 0 bs (g_recv d) = Inr ?r" using assms by (simp add: store_def ad_wf_def)
  have len: "length ?r = MAX_RECV_SIZE" using assms by (simp add: ad_wf_def)
  have h: "ace_notif_hdr_of ?r = Inr (ad_hdr bs)" if "8 \<le> length bs"
    using that len by (simp add: ace_notif_hdr_of_def get_le_def load_def ad_hdr_def)
  have ld: "load 0 AD_NOTIF_SIZE ?r = Inr (take AD_NOTIF_SIZE ?r)" using len by (simp add: load_def)
  have sr: "store 0 (take AD_NOTIF_SIZE ?r) (g_reply_notif d) = Inr (take AD_NOTIF_SIZE ?r)"
    using len assms(1) by (simp add: store_def ad_wf_def)
  show ?thesis
  proof (cases "length bs < ACE_HDR_SIZE")
    case True
    then show ?thesis by (simp add: mei_ace_debug_rx_def st)
  next
    case False
    then show ?thesis using h ld sr by (simp add: mei_ace_debug_rx_def st Let_def)
  qed
qed

text \<open>
  C40: Which message the debug callback survives.  With the log file open, a message that fits the receive
  buffer faults exactly if it is a management notification that answers one of the four commands and is
  longer than the 24 bytes of the buffer it is copied to.
\<close>
theorem ad_rx_fault_iff:
  assumes "ad_wf d" and "length bs \<le> MAX_RECV_SIZE" and "g_file_open d"
  shows "(\<exists>f. mei_ace_debug_rx E (Rx_data bs) d = Inl f) \<longleftrightarrow>
    ACE_HDR_SIZE \<le> length bs \<and> ad_response bs \<and> length bs > AD_NOTIF_SIZE"
proof -
  let ?d = "d\<lparr>g_recv := bs @ drop (length bs) (g_recv d)\<rparr>" and ?h = "ad_hdr bs"
  have len: "length (g_recv ?d) = MAX_RECV_SIZE" using assms(1,2) by (simp add: ad_wf_def)
  have "(\<exists>f. ad_handle_notify E ?h (length bs) ?d = Inl f) \<longleftrightarrow> n_msg_tgt ?h = 0 \<and> n_type ?h = NOTIFICATION \<and>
     n_notif_type ?h = MANAGEMENT_NOTIF \<and> n_event_id ?h = CTRL_NOTIF \<and>
     n_request_id ?h \<in> {AD_GET_FW_VER, AD_LOG_CONFIG, AD_SET_SYS_TIME, GET_FW_ID} \<and> length bs > AD_NOTIF_SIZE"
    using assms len by (auto simp: ad_handle_notify_def load_def store_def ad_wf_def Let_def split: prod.splits)
  then show ?thesis
    unfolding ad_rx_data [OF assms(1,2)] by (auto simp: ad_response_def Let_def one_bit [symmetric])
qed

definition demo_ad_env :: "mei_rx list list dfs_env" where
  "demo_ad_env = mei_env.extend scripted_mei
     \<lparr>kernel_write = (\<lambda>f bs n pos w. ((int (unat n), pos + int (unat n)), w)), ktime_get_ns = (\<lambda>w. (7, w))\<rparr>"

definition demo_ad :: "mei_rx list list \<Rightarrow> mei_rx list list ace_debug" where
  "demo_ad w = (new_ace_debug (replicate MAX_RECV_SIZE 0) w)\<lparr>g_file_open := True\<rparr>"

lemma demo_ad_wf: "ad_wf (demo_ad w)"
  by (simp add: ad_wf_def demo_ad_def new_ace_debug_def)

text \<open>The answer to a version request, one byte too long.\<close>

theorem ad_rx_fault_iff_witness:
  "\<exists>f. mei_ace_debug_rx demo_ad_env (Rx_data ([2, 0, 16, 27, 0, 0, 0, 0] @ replicate 17 0)) (demo_ad []) = Inl f"
proof -
  have "ad_response ([2, 0, 16, 27, 0, 0, 0, 0] @ replicate 17 0)" by code_simp
  then show ?thesis
    using ad_rx_fault_iff [OF demo_ad_wf, of "[2, 0, 16, 27, 0, 0, 0, 0] @ replicate 17 0" "[]" demo_ad_env]
    by (simp add: demo_ad_def)
qed

section \<open>The log\<close>

definition ad_log_frame :: "bytes \<Rightarrow> bytes" where
  "ad_log_frame p = [0, 0, 6, 27, 0, 0, 0, 0] @ p"

lemma ad_log_hdr:
  "n_rsp (ad_hdr (ad_log_frame p)) = 0" "n_msg_tgt (ad_hdr (ad_log_frame p)) = 0"
  "n_type (ad_hdr (ad_log_frame p)) = NOTIFICATION" "n_notif_type (ad_hdr (ad_log_frame p)) = LOG_BUFFER_STATUS"
proof -
  have h: "ad_hdr (ad_log_frame p) = ad_hdr [0, 0, 6, 27, 0, 0, 0, 0]" by (simp add: ad_hdr_def ad_log_frame_def)
  show "n_rsp (ad_hdr (ad_log_frame p)) = 0" unfolding h by code_simp
  show "n_msg_tgt (ad_hdr (ad_log_frame p)) = 0" unfolding h by code_simp
  show "n_type (ad_hdr (ad_log_frame p)) = NOTIFICATION" unfolding h by code_simp
  show "n_notif_type (ad_hdr (ad_log_frame p)) = LOG_BUFFER_STATUS" unfolding h by code_simp
qed

definition ad_log_ready :: "(int \<times> bytes) list dfs_env \<Rightarrow> (int \<times> bytes) list ace_debug \<Rightarrow> bool" where
  "ad_log_ready E d \<longleftrightarrow> ad_wf d \<and> g_file_open d \<and> writes_all E ACE_LOG_FILE"

interpretation ace_log: log_client "\<lambda>p. mei_ace_debug_rx E (Rx_data (ad_log_frame p))" "ad_log_ready E" g_pos g_env 8184
  for E :: "(int \<times> bytes) list dfs_env"
proof unfold_locales
  fix d :: "(int \<times> bytes) list ace_debug" and p :: bytes
  assume a: "ad_log_ready E d" "length p \<le> 8184" "g_pos d < MAX_LOG_SIZE"
  let ?f = "ad_log_frame p"
  let ?d = "d\<lparr>g_recv := ?f @ drop (length ?f) (g_recv d), g_pos := g_pos d + 2 * int (length p), g_env := g_env d @ [(g_pos d, p)]\<rparr>"
  have len: "length ?f = 8 + length p" by (simp add: ad_log_frame_def)
  have wf: "ad_wf d" and fit: "length ?f \<le> MAX_RECV_SIZE" using a len by (simp_all add: ad_log_ready_def)
  have n: "of_nat (length ?f) - of_nat ACE_HDR_SIZE = (of_nat (length p) :: u64)" by (simp add: len)
  have df: "drop 8 ?f = p" by (simp add: ad_log_frame_def)
  have "ad_handle_notify E (ad_hdr ?f) (length ?f) (d\<lparr>g_recv := ?f @ drop (length ?f) (g_recv d)\<rparr>) = Inr ?d"
    unfolding ad_handle_notify_def n using a log_write_all [of E ACE_LOG_FILE p]
    by (simp add: ad_log_hdr df len ad_log_ready_def)
  then have step: "mei_ace_debug_rx E (Rx_data ?f) d = Inr ?d"
    unfolding ad_rx_data [OF wf fit] using ad_log_hdr(1) [of p] len by (simp add: Let_def)
  then show "\<exists>d'. mei_ace_debug_rx E (Rx_data ?f) d = Inr d' \<and> ad_log_ready E d' \<and>
      g_pos d' = g_pos d + 2 * int (length p) \<and> g_env d' = g_env d @ [(g_pos d, p)]"
    using a(1) fit by (intro exI [of _ ?d]) (simp add: ad_log_ready_def ad_wf_def)
qed

text \<open>The log of the ACE firmware has the same gaps.\<close>

lemma ace_records_gapped:
  assumes "ad_wf d" and "g_file_open d" and "writes_all E ACE_LOG_FILE" and "\<forall>p \<in> set ps. length p \<le> 8184"
    and "g_pos d + 2 * int (length (concat ps)) < MAX_LOG_SIZE"
  shows "\<exists>d'. rx_all (mei_ace_debug_rx E) (map (\<lambda>p. Rx_data (ad_log_frame p)) ps) d = Inr d' \<and>
    g_env d' = g_env d @ gapped (g_pos d) ps"
  using ace_log.records_gapped [of E d ps] assms by (auto simp: ad_log_ready_def rx_all_map)

section \<open>Commands\<close>

definition ad_same :: "'w ace_debug \<Rightarrow> 'w ace_debug \<Rightarrow> bool" where
  "ad_same d d' \<longleftrightarrow> g_sent d' = g_sent d \<and> g_dups d' = g_dups d \<and> g_file_open d' = g_file_open d"

lemma ad_rx_same:
  assumes "mei_ace_debug_rx E m d = Inr d'"
  shows "ad_same d d'"
proof -
  have h: "ad_handle_notify E h n t = Inr t' \<Longrightarrow> ad_same t t'" for h n t t'
    by (auto simp: ad_handle_notify_def ad_same_def bindF_eq_Inr Let_def split_def split: if_splits)
  show ?thesis using assms
    by (auto simp: mei_ace_debug_rx_def bindF_eq_Inr Let_def ad_same_def dest!: h split: mei_rx.splits if_splits)
qed

interpretation ad_rx: rx_client "mei_ace_debug_rx E" ad_same for E
  by unfold_locales (auto simp: ad_same_def dest: ad_rx_same [unfolded ad_same_def])

lemma ad_send_cases:
  assumes "ad_send_command_sync E cid cmd d = Inr (r, d')"
  shows "r \<le> 0 \<and> g_dups d' = g_dups d \<and> (g_sent d' = g_sent d \<and> r < 0 \<or> g_sent d' = g_sent d @ [cmd]) \<and>
    (r = 0 \<longrightarrow> (\<exists>h. ace_notif_hdr_of (g_reply_notif d') = Inr h \<and> n_cmd_id h = cid \<and> n_status h = 0))"
proof -
  obtain ret w where s: "mei_send E cmd (g_env d) = (ret, w)" by force
  let ?d = "d\<lparr>g_reply := 0, g_env := w, g_sent := g_sent d @ [cmd]\<rparr>"
  show ?thesis
  proof (cases "ret < 0")
    case True
    then show ?thesis using assms s by (auto simp: ad_send_command_sync_def)
  next
    case False
    obtain ms e w' where w: "mei_wait E w = ((ms, e), w')" by (metis surj_pair)
    obtain d1 where d1: "rx_all (mei_ace_debug_rx E) ms (?d\<lparr>g_env := w'\<rparr>) = Inr d1"
      using assms s False w by (auto simp: ad_send_command_sync_def ad_wait_reply_def bindF_eq_Inr Let_def)
    have k: "g_sent d1 = g_sent d @ [cmd] \<and> g_dups d1 = g_dups d"
      using ad_rx.all_same [OF d1] by (simp add: ad_same_def)
    have wt: "ad_wait_reply E ?d = Inr (if g_reply d1 > 0 then (1, d1\<lparr>g_reply := g_reply d1 - 1\<rparr>) else (wait_code e, d1))"
      using w d1 by (simp add: ad_wait_reply_def)
    have "wait_code e \<le> 0" by (rule wait_code_le)
    then show ?thesis using assms s False wt k
      by (auto simp: ad_send_command_sync_def bindF_eq_Inr Let_def split: if_splits)
  qed
qed

text \<open>
  Writing the log configuration.  Anything but seven numbers gives \<open>-EINVAL\<close> and sends nothing; seven
  numbers are sent, if the bus takes them, in one command of id 6 with 100 bytes of parameters in which the
  first five numbers lie in order, followed by 14 empty masks, the seventh (the method) and then the sixth
  (the format); \<open>count\<close> is returned only when a reply of this id with status 0 arrived.  The copy of the user
  buffer is never freed.
\<close>
lemma ad_log_config_outcome:
  assumes "ad_log_config_write E (Inr v) count d = Inr (r, d')"
  shows "g_dups d' = g_dups d + 1 \<and>
    (length v \<noteq> 7 \<longrightarrow> r = - EINVAL \<and> g_sent d' = g_sent d) \<and>
    (length v = 7 \<longrightarrow>
      (let cmd = ace_hdr_bytes (ad_init_cmd_hdr\<lparr>h_cmd_id := AD_LOG_CONFIG, h_param_size := 100\<rparr>) @
          concat (map (le_bytes 4) (take 5 v)) @ replicate 56 0 @ le_bytes 4 (v ! 6) @ le_bytes 4 (v ! 5) @ replicate 16 0 in
       (g_sent d' = g_sent d \<and> r < 0 \<or> g_sent d' = g_sent d @ [cmd]) \<and> (r < 0 \<or> r = int count) \<and>
       (r \<ge> 0 \<longrightarrow> (\<exists>h. ace_notif_hdr_of (g_reply_notif d') = Inr h \<and> n_cmd_id h = AD_LOG_CONFIG \<and> n_status h = 0))))"
proof (cases "length v = 7")
  case False
  then show ?thesis using assms by (auto simp: ad_log_config_write_def Let_def)
next
  case True
  then obtain a b c e f g h where v: "v = [a, b, c, e, f, g, h]"
    by (auto simp: length_Suc_conv numeral_eq_Suc)
  define cfg where "cfg = concat (map (le_bytes 4) [a, b, c, e, f]) @ replicate 56 0 @ le_bytes 4 h @ le_bytes 4 g @ replicate 16 (0 :: u8)"
  have z: "concat (map (le_bytes 4) (replicate 14 (0 :: u32))) = replicate 56 0" by code_simp
  have bytes: "log_config_bytes \<lparr>aging_period = a, fifo_period = b, enable = c, priority_mask = e # f # replicate 14 0,
      tracing_method = h, tracing_format = g\<rparr> = cfg"
    using z by (simp add: log_config_bytes_def cfg_def)
  have len: "length cfg = 100" by (simp add: cfg_def)
  let ?cmd = "ace_hdr_bytes (ad_init_cmd_hdr\<lparr>h_cmd_id := AD_LOG_CONFIG, h_param_size := 100\<rparr>) @ cfg"
  obtain q where q: "ad_send_command_sync E AD_LOG_CONFIG ?cmd (d\<lparr>g_dups := g_dups d + 1\<rparr>) = Inr (q, d')"
      "r = (if q \<noteq> 0 then q else int count)"
    using assms len
    by (auto simp: ad_log_config_write_def v config_log_def ad_construct_command_def bytes load_def bindF_eq_Inr Let_def)
  from ad_send_cases [OF q(1)] q(2) show ?thesis by (auto simp: v cfg_def Let_def)
qed

section \<open>Probe\<close>

lemma ad_probe_outcome:
  assumes "mei_ace_debug_probe E alloc pages en cb fl dfs early w = Inr ((ret, r), x)"
  shows "ret = 0 \<and> (\<exists>d. x = Some d \<and> g_file_open d) \<and> r = \<lparr>q_obj = True, q_recv = True, q_enabled = True, q_file = True, q_dfs = dfs\<rparr> \<or>
    ret \<noteq> 0 \<and> x = None \<and> r = no_ad_res"
proof (cases "alloc \<and> (\<exists>recv. pages = Some recv) \<and> \<not> en < 0 \<and> cb = 0")
  case False
  then show ?thesis using assms
    by (auto simp: mei_ace_debug_probe_def ad_err_out_def ad_err_disable_def Let_def split: option.splits if_splits)
next
  case True
  then obtain recv where p: "pages = Some recv" by blast
  obtain d where "rx_all (mei_ace_debug_rx E) early (new_ace_debug recv w) = Inr d"
    using assms True p by (auto simp: mei_ace_debug_probe_def bindF_eq_Inr Let_def)
  then show ?thesis using assms True p
    by (auto simp: mei_ace_debug_probe_def ad_err_out_def ad_err_disable_def Let_def split: if_splits)
qed

end
