(* ===== verification/Mei_Pse.thy ===== *)
theory Mei_Pse
  imports Mei_Debugfs
begin

text \<open>
  \<^verbatim>\<open>drivers/misc/ivsc/mei_pse.c\<close>: the client of the firmware's platform services.  Commands of the
  debugfs files are sent under \<open>cmd_mutex\<close>, one at a time; traces of the firmware go to two log files,
  the power statistics arrive in pieces and are printed into one page.

  \<open>s_sent\<close> records the commands the bus accepted.
\<close>

section \<open>Commands and layouts\<close>

abbreviation LOG_ONOFF :: u32 where "LOG_ONOFF \<equiv> 0"
abbreviation SET_WATERMARK :: u32 where "SET_WATERMARK \<equiv> 1"
abbreviation DUMP_TRACE :: u32 where "DUMP_TRACE \<equiv> 2"
abbreviation SET_TIMEOUT :: u32 where "SET_TIMEOUT \<equiv> 3"
abbreviation SET_LOG_LEVEL :: u32 where "SET_LOG_LEVEL \<equiv> 4"
abbreviation SET_TIME :: u32 where "SET_TIME \<equiv> 5"
abbreviation GET_TIME :: u32 where "GET_TIME \<equiv> 6"
abbreviation DUMP_POWER_DATA :: u32 where "DUMP_POWER_DATA \<equiv> 7"
abbreviation TRACE_DATA_NOTIF :: u32 where "TRACE_DATA_NOTIF \<equiv> 8"
abbreviation GET_FW_VER :: u32 where "GET_FW_VER \<equiv> 10"

text \<open>
  \<open>struct pse_notif\<close> is 24 bytes, its content at 8.  \<open>struct pm_data\<close> is two \<open>struct pm_subsys\<close> of 2510:
  a total, four states of 48 bytes, 64 devices of 36, their number and a checksum.
\<close>

abbreviation PSE_NOTIF_SIZE :: nat where "PSE_NOTIF_SIZE \<equiv> 24"
abbreviation EM_LOG_FILE :: string where "EM_LOG_FILE \<equiv> ''/var/log/vsc_em.log''"
abbreviation SEM_LOG_FILE :: string where "SEM_LOG_FILE \<equiv> ''/var/log/vsc_sem.log''"
abbreviation CONT_OFFSET :: nat where "CONT_OFFSET \<equiv> 8"
abbreviation NOTIF_HEADER_LEN :: nat where "NOTIF_HEADER_LEN \<equiv> 8"
abbreviation PM_SUBSYS_SIZE :: nat where "PM_SUBSYS_SIZE \<equiv> 2510"
abbreviation PM_DATA_SIZE :: nat where "PM_DATA_SIZE \<equiv> 5020"
abbreviation PM_STATE_SIZE :: nat where "PM_STATE_SIZE \<equiv> 48"
abbreviation PM_DEV_SIZE :: nat where "PM_DEV_SIZE \<equiv> 36"
abbreviation PM_DEVS :: nat where "PM_DEVS \<equiv> 200"
abbreviation PM_DEV_CNT :: nat where "PM_DEV_CNT \<equiv> 2504"

record 'w mei_pse =
  s_notif :: bytes
  s_done :: nat
  s_recv :: bytes
  s_pm :: bytes
  s_pm_pos :: u32
  s_em_open :: bool
  s_em_pos :: int
  s_sem_open :: bool
  s_sem_pos :: int
  s_sent :: "bytes list"
  s_env :: 'w

section \<open>Receiving\<close>

text \<open>A trace: its content goes to the log file of its source.\<close>

definition trace_notif :: "'w dfs_env \<Rightarrow> nat \<Rightarrow> 'w mei_pse \<Rightarrow> 'w mei_pse result" where
  "trace_notif E n s =
     bindF (get_le 5 1 (s_recv s)) (\<lambda>source :: u8.
     let file = (if source \<noteq> 0 then SEM_LOG_FILE else EM_LOG_FILE);
         pos = (if source \<noteq> 0 then s_sem_pos s else s_em_pos s);
         opened = (if source \<noteq> 0 then s_sem_open s else s_em_open s) in
     if pos < MAX_LOG_SIZE then
       if \<not> opened then Inl NullDeref
       else
         let (pos, w) = log_write E file (drop CONT_OFFSET (s_recv s)) (of_nat n - of_nat CONT_OFFSET) pos (s_env s); s = s\<lparr>s_env := w\<rparr> in
         Inr (if source \<noteq> 0 then s\<lparr>s_sem_pos := pos\<rparr> else s\<lparr>s_em_pos := pos\<rparr>)
     else Inr s)"

definition response_notif :: "nat \<Rightarrow> 'w mei_pse \<Rightarrow> 'w mei_pse result" where
  "response_notif n s =
     bindF (load 0 n (s_recv s)) (\<lambda>bs. bindF (store 0 bs (s_notif s)) (\<lambda>notif.
     Inr (s\<lparr>s_notif := notif, s_done := complete (s_done s)\<rparr>)))"

text \<open>A piece of the power data; a length below the header wraps to a huge one.\<close>

definition power_notif :: "nat \<Rightarrow> 'w mei_pse \<Rightarrow> 'w mei_pse result" where
  "power_notif n s =
     bindF (get_le 4 1 (s_recv s)) (\<lambda>status :: u8.
     if status = 0 then
       if n < NOTIF_HEADER_LEN then Inl OutOfBounds
       else
         bindF (load NOTIF_HEADER_LEN (n - NOTIF_HEADER_LEN) (s_recv s)) (\<lambda>bs.
         bindF (store (unat (s_pm_pos s)) bs (s_pm s)) (\<lambda>pm.
         let s = s\<lparr>s_pm := pm, s_pm_pos := s_pm_pos s + of_nat (n - NOTIF_HEADER_LEN)\<rparr> in
         if s_pm_pos s \<ge> of_nat PM_DATA_SIZE then response_notif NOTIF_HEADER_LEN (s\<lparr>s_pm_pos := 0\<rparr>)
         else Inr s))
     else response_notif NOTIF_HEADER_LEN (s\<lparr>s_pm_pos := 0\<rparr>))"

definition mei_pse_rx :: "'w dfs_env \<Rightarrow> mei_rx \<Rightarrow> 'w mei_pse \<Rightarrow> 'w mei_pse result" where
  "mei_pse_rx E rx s =
     (case rx of
        Rx_error e \<Rightarrow> Inr s
      | Rx_data bs \<Rightarrow>
          bindF (store 0 bs (s_recv s)) (\<lambda>recv. let s = s\<lparr>s_recv := recv\<rparr> in
          bindF (get_le 0 4 recv) (\<lambda>cmd_id.
          if cmd_id = TRACE_DATA_NOTIF then trace_notif E (length bs) s
          else if cmd_id = LOG_ONOFF \<or> cmd_id = SET_WATERMARK \<or> cmd_id = DUMP_TRACE \<or> cmd_id = SET_TIMEOUT \<or>
                  cmd_id = SET_LOG_LEVEL \<or> cmd_id = SET_TIME \<or> cmd_id = GET_TIME \<or> cmd_id = GET_FW_VER
          then response_notif (length bs) s
          else if cmd_id = DUMP_POWER_DATA then power_notif (length bs) s
          else Inr s)))"

section \<open>Commands\<close>

definition pse_wait :: "'w dfs_env \<Rightarrow> 'w mei_pse \<Rightarrow> (int \<times> 'w mei_pse) result" where
  "pse_wait E s =
     (let ((ms, e), w) = mei_wait E (s_env s) in
      bindF (rx_all (mei_pse_rx E) ms (s\<lparr>s_env := w\<rparr>)) (\<lambda>s.
      if s_done s > 0 then Inr (1, s\<lparr>s_done := s_done s - 1\<rparr>) else Inr (wait_code e, s)))"

definition mei_pse_send :: "'w dfs_env \<Rightarrow> u32 \<Rightarrow> bytes \<Rightarrow> 'w mei_pse \<Rightarrow> (int \<times> 'w mei_pse) result" where
  "mei_pse_send E cmd_id param s =
     (let cmd = le_bytes 4 cmd_id @ param; (ret, w) = mei_send E cmd (s_env s); s = s\<lparr>s_done := 0, s_env := w\<rparr> in
      if ret < 0 then Inr (ret, s)
      else
        bindF (pse_wait E (s\<lparr>s_sent := s_sent s @ [cmd]\<rparr>)) (\<lambda>(ret, s).
        if ret < 0 then Inr (ret, s)
        else if ret = 0 then Inr (- ETIMEDOUT, s)
        else
          bindF (get_le 4 1 (s_notif s)) (\<lambda>status :: u8.
          if sint status \<noteq> 0 then Inr (sint status, s)
          else bindF (get_le 0 4 (s_notif s)) (\<lambda>rid. Inr (if rid \<noteq> cmd_id then - 1 else 0, s)))))"

definition pse_log_onoff :: "'w dfs_env \<Rightarrow> u8 \<Rightarrow> 'w mei_pse \<Rightarrow> (int \<times> 'w mei_pse) result" where
  "pse_log_onoff E onoff = mei_pse_send E LOG_ONOFF (le_bytes 4 (ucast onoff :: u32))"

definition pse_set_watermark :: "'w dfs_env \<Rightarrow> int \<Rightarrow> 'w mei_pse \<Rightarrow> (int \<times> 'w mei_pse) result" where
  "pse_set_watermark E val s =
     (if val < - 1 \<or> val > 100 then Inr (- 1, s) else mei_pse_send E SET_WATERMARK (le_bytes 4 (of_int val :: u32)) s)"

definition pse_dump_trace :: "'w dfs_env \<Rightarrow> 'w mei_pse \<Rightarrow> (int \<times> 'w mei_pse) result" where
  "pse_dump_trace E = mei_pse_send E DUMP_TRACE []"

definition pse_set_timeout :: "'w dfs_env \<Rightarrow> int \<Rightarrow> 'w mei_pse \<Rightarrow> (int \<times> 'w mei_pse) result" where
  "pse_set_timeout E val s =
     (if val < - 1 \<or> val > 999 then Inr (- 1, s) else mei_pse_send E SET_TIMEOUT (le_bytes 4 (of_int val :: u32)) s)"

definition pse_set_log_level :: "'w dfs_env \<Rightarrow> int \<Rightarrow> 'w mei_pse \<Rightarrow> (int \<times> 'w mei_pse) result" where
  "pse_set_log_level E val s =
     (if val < 0 \<or> val > 4 then Inr (- 1, s) else mei_pse_send E SET_LOG_LEVEL (le_bytes 4 (of_int val :: u32)) s)"

definition pse_set_time :: "'w dfs_env \<Rightarrow> 'w mei_pse \<Rightarrow> (int \<times> 'w mei_pse) result" where
  "pse_set_time E s =
     (let (t, w) = ktime_get_ns E (s_env s) in mei_pse_send E SET_TIME (le_bytes 8 t) (s\<lparr>s_env := w\<rparr>))"

text \<open>The getters return the value stored through the pointer, \<open>None\<close> where nothing is.\<close>

definition pse_get_time :: "'w dfs_env \<Rightarrow> 'w mei_pse \<Rightarrow> ((int \<times> u64 option) \<times> 'w mei_pse) result" where
  "pse_get_time E s =
     bindF (mei_pse_send E GET_TIME [] s) (\<lambda>(ret, s).
     if ret \<noteq> 0 then Inr ((ret, None), s) else bindF (get_le 8 8 (s_notif s)) (\<lambda>t. Inr ((0, Some t), s)))"

definition pse_dump_power_data :: "'w dfs_env \<Rightarrow> 'w mei_pse \<Rightarrow> (int \<times> 'w mei_pse) result" where
  "pse_dump_power_data E = mei_pse_send E DUMP_POWER_DATA []"

record fw_version =
  ver_major :: u32
  ver_minor :: u32
  ver_hotfix :: u32
  ver_build :: u32

definition pse_get_fw_ver :: "'w dfs_env \<Rightarrow> 'w mei_pse \<Rightarrow> ((int \<times> fw_version option) \<times> 'w mei_pse) result" where
  "pse_get_fw_ver E s =
     bindF (mei_pse_send E GET_FW_VER [] s) (\<lambda>(ret, s).
     if ret \<noteq> 0 then Inr ((ret, None), s)
     else bindF (get_le 8 4 (s_notif s)) (\<lambda>a. bindF (get_le 12 4 (s_notif s)) (\<lambda>b.
          bindF (get_le 16 4 (s_notif s)) (\<lambda>c. bindF (get_le 20 4 (s_notif s)) (\<lambda>d.
          Inr ((0, Some \<lparr>ver_major = a, ver_minor = b, ver_hotfix = c, ver_build = d\<rparr>), s))))))"

section \<open>The debugfs files: writing\<close>

text \<open>
  \<open>parsed\<close> is the answer of \<open>kstrtou8_from_user\<close> or \<open>kstrtoint_from_user\<close>: an error or the number.  The
  result of the command is dropped by all files but the time.
\<close>

definition pse_log_onoff_write :: "'w dfs_env \<Rightarrow> int + u8 \<Rightarrow> nat \<Rightarrow> 'w mei_pse \<Rightarrow> (int \<times> 'w mei_pse) result" where
  "pse_log_onoff_write E parsed count s =
     (case parsed of Inl ret \<Rightarrow> Inr (ret, s) | Inr state \<Rightarrow> bindF (pse_log_onoff E state s) (\<lambda>(_, s). Inr (int count, s)))"

definition pse_watermark_write :: "'w dfs_env \<Rightarrow> int + int \<Rightarrow> nat \<Rightarrow> 'w mei_pse \<Rightarrow> (int \<times> 'w mei_pse) result" where
  "pse_watermark_write E parsed count s =
     (case parsed of Inl ret \<Rightarrow> Inr (ret, s) | Inr val \<Rightarrow> bindF (pse_set_watermark E val s) (\<lambda>(_, s). Inr (int count, s)))"

definition pse_dump_trace_write :: "'w dfs_env \<Rightarrow> int + u8 \<Rightarrow> nat \<Rightarrow> 'w mei_pse \<Rightarrow> (int \<times> 'w mei_pse) result" where
  "pse_dump_trace_write E parsed count s =
     (case parsed of Inl ret \<Rightarrow> Inr (ret, s)
      | Inr val \<Rightarrow> if val = 0 then Inr (- EINVAL, s) else bindF (pse_dump_trace E s) (\<lambda>(_, s). Inr (int count, s)))"

definition pse_timeout_write :: "'w dfs_env \<Rightarrow> int + int \<Rightarrow> nat \<Rightarrow> 'w mei_pse \<Rightarrow> (int \<times> 'w mei_pse) result" where
  "pse_timeout_write E parsed count s =
     (case parsed of Inl ret \<Rightarrow> Inr (ret, s) | Inr val \<Rightarrow> bindF (pse_set_timeout E val s) (\<lambda>(_, s). Inr (int count, s)))"

definition pse_log_level_write :: "'w dfs_env \<Rightarrow> int + int \<Rightarrow> nat \<Rightarrow> 'w mei_pse \<Rightarrow> (int \<times> 'w mei_pse) result" where
  "pse_log_level_write E parsed count s =
     (case parsed of Inl ret \<Rightarrow> Inr (ret, s) | Inr val \<Rightarrow> bindF (pse_set_log_level E val s) (\<lambda>(_, s). Inr (int count, s)))"

definition pse_time_write :: "'w dfs_env \<Rightarrow> nat \<Rightarrow> 'w mei_pse \<Rightarrow> (int \<times> 'w mei_pse) result" where
  "pse_time_write E count s = bindF (pse_set_time E s) (\<lambda>(ret, s). Inr (if ret \<noteq> 0 then ret else int count, s))"

section \<open>The debugfs files: reading\<close>

definition pse_time_read :: "'w dfs_env \<Rightarrow> bool \<Rightarrow> 'w mei_pse \<Rightarrow> (dfs_read \<times> 'w mei_pse) result" where
  "pse_time_read E page_ok s =
     (if \<not> page_ok then Inr (Dfs_err (- ENOMEM), s)
      else
        bindF (pse_get_time E s) (\<lambda>((ret, t), s).
        if ret \<noteq> 0 then Inr (Dfs_err ret, s)
        else
          bindF (assigned t) (\<lambda>val.
          let (addr, pos) = snprintf_page (''pse time = ('' @ dec (unat val) @ '') nanoseconds'' @ [newline]) zeroed_page in
          Inr (Dfs_buffer addr pos, s))))"

definition pse_fw_ver_read :: "'w dfs_env \<Rightarrow> bool \<Rightarrow> 'w mei_pse \<Rightarrow> (dfs_read \<times> 'w mei_pse) result" where
  "pse_fw_ver_read E page_ok s =
     (if \<not> page_ok then Inr (Dfs_err (- ENOMEM), s)
      else
        bindF (pse_get_fw_ver E s) (\<lambda>((ret, v), s).
        if ret \<noteq> 0 then Inr (Dfs_err ret, s)
        else
          bindF (assigned v) (\<lambda>ver.
          let (addr, pos) = snprintf_page (''fw version: '' @ dec (unat (ver_major ver)) @ ''.'' @ dec (unat (ver_minor ver)) @ ''.'' @
                dec (unat (ver_hotfix ver)) @ ''.'' @ dec (unat (ver_build ver)) @ [newline]) zeroed_page in
          Inr (Dfs_buffer addr pos, s))))"

section \<open>The power report\<close>

abbreviation pm_names :: "string list" where "pm_names \<equiv> [''EM7D'', ''SEM'']"

text \<open>The name, duration and count of state \<open>j\<close> of subsystem \<open>i\<close>.\<close>

definition pm_status :: "nat \<Rightarrow> nat \<Rightarrow> bytes \<Rightarrow> (bytes \<times> u64 \<times> u64) result" where
  "pm_status i j pm =
     (let off = PM_SUBSYS_SIZE * i + 8 + PM_STATE_SIZE * j in
      bindF (load off 16 pm) (\<lambda>name. bindF (get_le (off + 32) 8 pm) (\<lambda>duration. bindF (get_le (off + 40) 8 pm) (\<lambda>count.
      Inr (name, duration, count)))))"

definition state_text :: "bytes \<Rightarrow> u64 \<Rightarrow> u64 \<Rightarrow> u64 \<Rightarrow> u64 \<Rightarrow> string" where
  "state_text name duration count num frac =
     ''|'' @ pad 13 (CHR '' '') (text_of name) @ '' |'' @ pad 13 (CHR '' '') (dec (unat duration)) @ '' |'' @
     pad 6 (CHR '' '') (dec (unat count)) @ '' |'' @ pad 7 (CHR '' '') (dec (unat (ucast num :: u32))) @ ''.'' @
     pad 6 (CHR ''0'') (dec (unat (ucast frac :: u32))) @ '' |'' @ [newline]"

definition percentage :: "u64 \<Rightarrow> u64 \<Rightarrow> (u64 \<times> u64) result" where
  "percentage dur total_duration =
     (let duration = dur * 100 in
      if total_duration = 0 then Inl DivideByZero
      else Inr (duration div total_duration, (duration mod total_duration * 10000000 div total_duration + 5) div 10))"

definition state_row :: "nat \<Rightarrow> bytes \<Rightarrow> u64 \<Rightarrow> nat \<Rightarrow> page \<Rightarrow> page result" where
  "state_row i pm total_duration j page =
     bindF (pm_status i j pm) (\<lambda>(name, dur, count).
     bindF (percentage dur total_duration) (\<lambda>(num, frac).
     Inr (snprintf_page (state_text name dur count num frac) page)))"

definition power_title :: string where
  "power_title = ''| power states | duration(ms) | count | percentage(%) |'' @ [newline]"

definition dump_power_state_data :: "bytes \<Rightarrow> page \<Rightarrow> page result" where
  "dump_power_state_data pm =
     rx_all (\<lambda>i page.
       let page = snprintf_page (''power state of '' @ pm_names ! i @ '':'' @ [newline]) page;
           page = snprintf_page power_title page in
       bindF (rx_all (\<lambda>j total. bindF (pm_status i j pm) (\<lambda>(_, duration, _). Inr (total + duration))) [0..<4] 0) (\<lambda>total.
       bindF (rx_all (state_row i pm total) [0..<4] page) (\<lambda>page. Inr (snprintf_page [newline] page)))) [0..<2]"

text \<open>The table of devices, four in a row; the number of devices comes from the firmware.\<close>

definition pm_dev :: "nat \<Rightarrow> nat \<Rightarrow> bytes \<Rightarrow> (bytes \<times> u32) result" where
  "pm_dev i j pm =
     (let off = PM_SUBSYS_SIZE * i + PM_DEVS + PM_DEV_SIZE * j in
      bindF (load off 32 pm) (\<lambda>name. bindF (get_le (off + 32) 4 pm) (\<lambda>cnt. Inr (name, cnt))))"

definition dev_cell :: "bytes \<times> u32 \<Rightarrow> string" where
  "dev_cell = (\<lambda>(name, cnt). ''|'' @ pad 16 (CHR '' '') (text_of name) @ '' |'' @ pad 12 (CHR '' '') (dec (unat cnt)) @ '' '')"

fun pm_dev_list :: "nat \<Rightarrow> bytes \<Rightarrow> nat list \<Rightarrow> (bytes \<times> u32) list result" where
  "pm_dev_list i pm [] = Inr []"
| "pm_dev_list i pm (j # js) = bindF (pm_dev i j pm) (\<lambda>d. bindF (pm_dev_list i pm js) (\<lambda>ds. Inr (d # ds)))"

definition dev_row :: "(bytes \<times> u32) list \<Rightarrow> string" where
  "dev_row ds = concat (map dev_cell (ds @ replicate (4 - length ds) ([], 0))) @ ''|'' @ [newline]"

function dev_rows :: "nat \<Rightarrow> bytes \<Rightarrow> nat \<Rightarrow> nat \<Rightarrow> page \<Rightarrow> page result" where
  "dev_rows i pm dev_cnt j page =
     (if j < dev_cnt then
        bindF (pm_dev_list i pm [j..<j + min 4 (dev_cnt - j)]) (\<lambda>ds.
        dev_rows i pm dev_cnt (j + 4) (snprintf_page (dev_row ds) page))
      else Inr page)"
  by pat_completeness auto
termination by (relation "measure (\<lambda>(i, pm, dev_cnt, j, page). dev_cnt - j)") auto

declare dev_rows.simps [simp del]

definition dev_title :: string where
  "dev_title = concat (replicate 4 ''|   Device Name   | Block Count '') @ ''|'' @ [newline]"

definition dump_dev_power_data :: "bytes \<Rightarrow> page \<Rightarrow> page result" where
  "dump_dev_power_data pm =
     rx_all (\<lambda>i page.
       let page = snprintf_page (''device list of '' @ pm_names ! i @ '':'' @ [newline]) page;
           page = snprintf_page dev_title page in
       bindF (get_le (PM_SUBSYS_SIZE * i + PM_DEV_CNT) 4 pm) (\<lambda>dev_cnt :: u32.
       bindF (dev_rows i pm (unat dev_cnt) 0 page) (\<lambda>page.
       Inr (if i < 1 then snprintf_page [newline] page else page)))) [0..<2]"

definition pse_power_data_read :: "'w dfs_env \<Rightarrow> bool \<Rightarrow> 'w mei_pse \<Rightarrow> (dfs_read \<times> 'w mei_pse) result" where
  "pse_power_data_read E page_ok s =
     (if \<not> page_ok then Inr (Dfs_err (- ENOMEM), s)
      else
        bindF (pse_dump_power_data E s) (\<lambda>(ret, s).
        if ret \<noteq> 0 then Inr (Dfs_err ret, s)
        else
          bindF (dump_power_state_data (s_pm s) zeroed_page) (\<lambda>page.
          bindF (dump_dev_power_data (s_pm s) page) (\<lambda>(addr, pos). Inr (Dfs_buffer addr pos, s)))))"

section \<open>Probe and remove\<close>

text \<open>What the client holds, for the error labels of probe and for remove.\<close>

record pse_res =
  r_obj :: bool
  r_recv :: bool
  r_pm :: bool
  r_enabled :: bool
  r_em :: bool
  r_sem :: bool
  r_dfs :: bool

abbreviation no_res :: pse_res where
  "no_res \<equiv> \<lparr>r_obj = False, r_recv = False, r_pm = False, r_enabled = False, r_em = False, r_sem = False, r_dfs = False\<rparr>"

text \<open>The answers of the allocators (the pages come with whatever they hold), of \<open>mei_cldev_enable\<close>, \<open>mei_cldev_register_rx_cb\<close>, \<open>filp_open\<close> (a negative number is
  an error pointer) and \<open>debugfs_create_dir\<close>.  \<open>early1\<close> and \<open>early2\<close> are the messages that arrive between the registration of the
  callback and the opening of the first and of the second file.\<close>

record probe_env =
  a_obj :: bool
  a_recv :: "bytes option"
  a_pm :: "bytes option"
  a_enable :: int
  a_rx_cb :: int
  a_em :: int
  a_sem :: int
  a_dfs :: bool

definition new_pse :: "bytes \<Rightarrow> bytes \<Rightarrow> 'w \<Rightarrow> 'w mei_pse" where
  "new_pse recv pm w = \<lparr>s_notif = replicate PSE_NOTIF_SIZE 0, s_done = 0, s_recv = recv, s_pm = pm,
     s_pm_pos = 0, s_em_open = False, s_em_pos = 0, s_sem_open = False, s_sem_pos = 0, s_sent = [], s_env = w\<rparr>"

definition pse_err_out :: "int \<Rightarrow> pse_res \<Rightarrow> int \<times> pse_res" where
  "pse_err_out ret r = (ret, r\<lparr>r_pm := False, r_recv := False, r_obj := False\<rparr>)"

definition pse_err_disable :: "int \<Rightarrow> pse_res \<Rightarrow> int \<times> pse_res" where
  "pse_err_disable ret r = pse_err_out ret (r\<lparr>r_enabled := False\<rparr>)"

definition pse_err_close :: "int \<Rightarrow> pse_res \<Rightarrow> int \<times> pse_res" where
  "pse_err_close ret r = pse_err_disable ret (r\<lparr>r_em := False\<rparr>)"

definition mei_pse_probe :: "'w dfs_env \<Rightarrow> probe_env \<Rightarrow> mei_rx list \<Rightarrow> mei_rx list \<Rightarrow> 'w \<Rightarrow> ((int \<times> pse_res) \<times> 'w mei_pse option) result" where
  "mei_pse_probe E A early1 early2 w =
     (if \<not> a_obj A then Inr ((- ENOMEM, no_res), None)
      else case a_recv A of None \<Rightarrow> Inr ((- ENOMEM, no_res), None) | Some recv \<Rightarrow>
      case a_pm A of None \<Rightarrow> Inr ((- ENOMEM, no_res), None) | Some pm \<Rightarrow>
        let s = new_pse recv pm w; r = no_res\<lparr>r_obj := True, r_recv := True, r_pm := True\<rparr> in
        if a_enable A < 0 then Inr (pse_err_out (a_enable A) r, None)
        else
          let r = r\<lparr>r_enabled := True\<rparr> in
          if a_rx_cb A \<noteq> 0 then Inr (pse_err_disable (a_rx_cb A) r, None)
          else
            bindF (rx_all (mei_pse_rx E) early1 s) (\<lambda>s.
            if a_em A < 0 then Inr (pse_err_disable (a_em A) r, None)
            else
              let s = s\<lparr>s_em_open := True, s_em_pos := 0\<rparr>; r = r\<lparr>r_em := True\<rparr> in
              bindF (rx_all (mei_pse_rx E) early2 s) (\<lambda>s.
              if a_sem A < 0 then Inr (pse_err_close (a_sem A) r, None)
              else Inr ((0, r\<lparr>r_sem := True, r_dfs := a_dfs A\<rparr>), Some (s\<lparr>s_sem_open := True, s_sem_pos := 0\<rparr>)))))"

definition mei_pse_remove :: "'w mei_pse \<Rightarrow> pse_res \<Rightarrow> pse_res \<times> 'w mei_pse option" where
  "mei_pse_remove s r =
     (let s = s\<lparr>s_done := complete (s_done s)\<rparr> in
      (r\<lparr>r_enabled := False, r_dfs := False, r_em := False, r_sem := False, r_pm := False, r_recv := False, r_obj := False\<rparr>, None))"

end
