(* ===== verification/Mei_Pse_Laws.thy ===== *)
theory Mei_Pse_Laws
  imports Mei_Pse
begin

text \<open>
  Laws of the platform services client: which messages its receive callback survives, the shape its state
  keeps, the reassembly of the power data, the positions of the logs, the outcome of a command and the report.
\<close>

section \<open>The shape of the state\<close>

definition pse_wf :: "'w mei_pse \<Rightarrow> bool" where
  "pse_wf s \<longleftrightarrow> length (s_notif s) = PSE_NOTIF_SIZE \<and> length (s_recv s) = MAX_RECV_SIZE \<and>
     length (s_pm s) = MAX_RECV_SIZE \<and> unat (s_pm_pos s) < PM_DATA_SIZE"

text \<open>What the receive buffer holds after a message: its bytes, then those of earlier messages.\<close>

definition recv_after :: "bytes \<Rightarrow> 'w mei_pse \<Rightarrow> bytes" where
  "recv_after bs s = bs @ drop (length bs) (s_recv s)"

definition pse_responses :: "u32 set" where
  "pse_responses = {LOG_ONOFF, SET_WATERMARK, DUMP_TRACE, SET_TIMEOUT, SET_LOG_LEVEL, SET_TIME, GET_TIME, GET_FW_VER}"

definition pse_handler :: "'w dfs_env \<Rightarrow> bytes \<Rightarrow> 'w mei_pse \<Rightarrow> 'w mei_pse result" where
  "pse_handler E bs s =
     (let s' = s\<lparr>s_recv := recv_after bs s\<rparr>; i = word_of_le (take 4 (recv_after bs s)) :: u32 in
      if i = TRACE_DATA_NOTIF then trace_notif E (length bs) s'
      else if i \<in> pse_responses then response_notif (length bs) s'
      else if i = DUMP_POWER_DATA then power_notif (length bs) s' else Inr s')"

lemma recv_after_length: "pse_wf s \<Longrightarrow> length bs \<le> MAX_RECV_SIZE \<Longrightarrow> length (recv_after bs s) = MAX_RECV_SIZE"
  by (simp add: recv_after_def pse_wf_def)

lemma pse_rx_data:
  assumes "pse_wf s" and "length bs \<le> MAX_RECV_SIZE"
  shows "mei_pse_rx E (Rx_data bs) s = pse_handler E bs s"
proof -
  have st: "store 0 bs (s_recv s) = Inr (recv_after bs s)"
    using assms by (simp add: store_def recv_after_def pse_wf_def)
  have id4: "get_le 0 4 (recv_after bs s) = Inr (word_of_le (take 4 (recv_after bs s)))"
    using recv_after_length [OF assms] by (simp add: get_le_def load_def)
  show ?thesis
    unfolding mei_pse_rx_def pse_handler_def Let_def pse_responses_def by (simp add: st id4)
qed

lemma response_wf:
  assumes "pse_wf s"
  shows "(\<exists>s'. response_notif n s = Inr s') \<longleftrightarrow> n \<le> PSE_NOTIF_SIZE"
    and "response_notif n s = Inr s' \<Longrightarrow> pse_wf s'"
  using assms by (auto simp: response_notif_def pse_wf_def load_def store_def bindF_eq_Inr split: if_splits)

lemma trace_wf:
  assumes "pse_wf s"
  shows "s_em_open s \<and> s_sem_open s \<Longrightarrow> \<exists>s'. trace_notif E n s = Inr s'"
    and "trace_notif E n s = Inr s' \<Longrightarrow> pse_wf s'"
  using assms
  by (auto simp: trace_notif_def pse_wf_def get_le_def load_def Let_def bindF_eq_Inr split: prod.splits if_splits)

lemma pm_pos_add:
  fixes p :: u32
  assumes "unat p < PM_DATA_SIZE" and "n \<le> MAX_RECV_SIZE"
  shows "unat (p + of_nat n) = unat p + n"
proof -
  have "unat (of_nat n :: u32) = n" using assms(2) by (simp add: unsigned_of_nat take_bit_eq_mod)
  then show ?thesis using assms by (simp add: unat_word_ariths)
qed

lemma power_wf:
  assumes "pse_wf s" and "n \<le> MAX_RECV_SIZE"
  shows "(\<exists>s'. power_notif n s = Inr s') \<longleftrightarrow>
      (s_recv s ! 4 = 0 \<longrightarrow> NOTIF_HEADER_LEN \<le> n \<and> unat (s_pm_pos s) + (n - NOTIF_HEADER_LEN) \<le> MAX_RECV_SIZE)"
    and "power_notif n s = Inr s' \<Longrightarrow> pse_wf s'"
proof -
  have st: "get_le 4 (Suc 0) (s_recv s) = Inr (s_recv s ! 4)"
    using assms by (simp add: get_le_def load_def pse_wf_def take_Suc_conv_app_nth hd_drop_conv_nth take_Suc)
  have len: "length (s_recv s) = 8192" "length (s_pm s) = 8192" "length (s_notif s) = 24" "unat (s_pm_pos s) < 5020"
    using assms(1) by (simp_all add: pse_wf_def)
  show "(\<exists>s'. power_notif n s = Inr s') \<longleftrightarrow>
      (s_recv s ! 4 = 0 \<longrightarrow> NOTIF_HEADER_LEN \<le> n \<and> unat (s_pm_pos s) + (n - NOTIF_HEADER_LEN) \<le> MAX_RECV_SIZE)"
    using len assms(2)
    by (auto simp: power_notif_def st response_notif_def load_def store_def Let_def)
  show "pse_wf s'" if "power_notif n s = Inr s'"
  proof (cases "s_recv s ! 4 = 0 \<and> NOTIF_HEADER_LEN \<le> n")
    case False
    then show ?thesis using that len
      by (auto simp: power_notif_def st pse_wf_def response_notif_def load_def store_def Let_def split: if_splits)
  next
    case True
    have "unat (s_pm_pos s + of_nat (n - 8)) = unat (s_pm_pos s) + (n - 8)"
      by (rule pm_pos_add) (use len assms(2) in simp_all)
    then show ?thesis using that len True
      by (auto simp: power_notif_def st pse_wf_def response_notif_def load_def store_def Let_def word_le_nat_alt
          bindF_eq_Inr split: if_splits)
  qed
qed

lemma pse_rx_wf:
  assumes "pse_wf s" and "mei_pse_rx E m s = Inr s'"
  shows "pse_wf s'"
proof (cases m)
  case (Rx_error e)
  then show ?thesis using assms by (simp add: mei_pse_rx_def)
next
  case (Rx_data bs)
  have len: "length bs \<le> MAX_RECV_SIZE"
    using assms Rx_data by (auto simp: mei_pse_rx_def bindF_eq_Inr store_eq_Inr pse_wf_def)
  have wf: "pse_wf (s\<lparr>s_recv := recv_after bs s\<rparr>)"
    using assms(1) recv_after_length [OF assms(1) len] by (simp add: pse_wf_def)
  show ?thesis
    using assms(2) Rx_data pse_rx_data [OF assms(1) len, of E] response_wf(2) [OF wf] trace_wf(2) [OF wf] power_wf(2) [OF wf len] wf
    by (auto simp: pse_handler_def Let_def split: if_splits)
qed

text \<open>
  C33: Which message the receive callback survives.  With both log files open, a message that fits the
  receive buffer faults exactly if it answers a command with more than the 24 bytes of the notification
  buffer, or is a piece of power data, with a good status, that is shorter than its header or runs over the
  8192 bytes of the buffer after the pieces received before.
\<close>
theorem pse_rx_fault_iff:
  assumes "pse_wf s" and "length bs \<le> MAX_RECV_SIZE" and "s_em_open s" "s_sem_open s"
  shows "(\<exists>f. mei_pse_rx E (Rx_data bs) s = Inl f) \<longleftrightarrow>
    (let i = word_of_le (take 4 (recv_after bs s)) :: u32 in
     i \<in> pse_responses \<and> length bs > PSE_NOTIF_SIZE \<or>
     i = DUMP_POWER_DATA \<and> recv_after bs s ! 4 = 0 \<and>
       (length bs < NOTIF_HEADER_LEN \<or> unat (s_pm_pos s) + (length bs - NOTIF_HEADER_LEN) > MAX_RECV_SIZE))"
proof -
  let ?s = "s\<lparr>s_recv := recv_after bs s\<rparr>" and ?i = "word_of_le (take 4 (recv_after bs s)) :: u32"
  have wf: "pse_wf ?s" using assms(1) recv_after_length [OF assms(1,2)] by (simp add: pse_wf_def)
  have fault: "(\<exists>f. x = Inl f) \<longleftrightarrow> \<not> (\<exists>t. x = Inr t)" for x :: "'b result" by (cases x) auto
  have tr: "\<exists>t. trace_notif E (length bs) ?s = Inr t" by (rule trace_wf(1) [OF wf]) (simp add: assms(3,4))
  have ne: "TRACE_DATA_NOTIF \<notin> pse_responses" "DUMP_POWER_DATA \<notin> pse_responses" by (simp_all add: pse_responses_def)
  show ?thesis
    unfolding pse_rx_data [OF assms(1,2)] fault
    using tr response_wf(1) [OF wf, of "length bs"] power_wf(1) [OF wf assms(2)] ne
    by (auto simp: pse_handler_def Let_def)
qed

definition demo_pse_env :: "mei_rx list list dfs_env" where
  "demo_pse_env = mei_env.extend scripted_mei
     \<lparr>kernel_write = (\<lambda>f bs n pos w. ((sint n, pos + sint n), w)), ktime_get_ns = (\<lambda>w. (7, w))\<rparr>"

definition demo_pse :: "mei_rx list list \<Rightarrow> mei_rx list list mei_pse" where
  "demo_pse w = (new_pse (replicate MAX_RECV_SIZE 0) (replicate MAX_RECV_SIZE 0) w)\<lparr>s_em_open := True, s_sem_open := True\<rparr>"

lemma demo_pse_wf: "pse_wf (demo_pse w)"
  by (simp add: pse_wf_def demo_pse_def new_pse_def)

theorem pse_rx_fault_iff_witness:
  "\<exists>f. mei_pse_rx demo_pse_env (Rx_data (le_bytes 4 GET_TIME @ replicate 21 0)) (demo_pse []) = Inl f"
proof -
  have "take 4 (recv_after (le_bytes 4 GET_TIME @ replicate 21 0) (demo_pse [])) = le_bytes 4 GET_TIME"
    by (simp add: recv_after_def)
  then show ?thesis
    using pse_rx_fault_iff [OF demo_pse_wf, of "le_bytes 4 GET_TIME @ replicate 21 0" "[]" demo_pse_env]
    by (simp add: demo_pse_def new_pse_def pse_responses_def word_of_le_le_bytes Let_def)
qed

section \<open>Every state of the driver has its shape\<close>

lemma pse_wait_wf: "pse_wait E s = Inr (r, s') \<Longrightarrow> pse_wf s \<Longrightarrow> pse_wf s'"
proof -
  assume a: "pse_wait E s = Inr (r, s')" and wf: "pse_wf s"
  obtain ms e w where w: "mei_wait E (s_env s) = ((ms, e), w)" by (metis surj_pair)
  obtain s1 where s1: "rx_all (mei_pse_rx E) ms (s\<lparr>s_env := w\<rparr>) = Inr s1" using a w by (auto simp: pse_wait_def bindF_eq_Inr)
  have "pse_wf s1" by (rule rx_all_invariant [OF s1]) (use wf pse_rx_wf in \<open>auto simp: pse_wf_def\<close>)
  then show ?thesis using a w s1 by (auto simp: pse_wait_def pse_wf_def split: if_splits)
qed

lemma pse_send_wf:
  assumes "mei_pse_send E i param s = Inr (r, s')" and "pse_wf s"
  shows "pse_wf s'"
proof -
  obtain ret w where w: "mei_send E (le_bytes 4 i @ param) (s_env s) = (ret, w)" by force
  let ?s = "s\<lparr>s_done := 0, s_env := w, s_sent := s_sent s @ [le_bytes 4 i @ param]\<rparr>"
  have "pse_wf ?s" "pse_wf (s\<lparr>s_done := 0, s_env := w\<rparr>)" using assms(2) by (simp_all add: pse_wf_def)
  then show ?thesis
    using assms(1) w pse_wait_wf [of E ?s] by (auto simp: mei_pse_send_def bindF_eq_Inr Let_def split: if_splits)
qed

text \<open>The calls of user space.\<close>

datatype pse_call =
    Log_onoff_write "int + u8" nat
  | Watermark_write "int + int" nat
  | Dump_trace_write "int + u8" nat
  | Timeout_write "int + int" nat
  | Log_level_write "int + int" nat
  | Time_write nat
  | Time_read bool
  | Fw_ver_read bool
  | Power_data_read bool

definition pse_file_op :: "'w dfs_env \<Rightarrow> pse_call \<Rightarrow> 'w mei_pse \<Rightarrow> 'w mei_pse result" where
  "pse_file_op E c s =
     (case c of
        Log_onoff_write p n \<Rightarrow> state_of (\<lambda>s. s) (pse_log_onoff_write E p n s)
      | Watermark_write p n \<Rightarrow> state_of (\<lambda>s. s) (pse_watermark_write E p n s)
      | Dump_trace_write p n \<Rightarrow> state_of (\<lambda>s. s) (pse_dump_trace_write E p n s)
      | Timeout_write p n \<Rightarrow> state_of (\<lambda>s. s) (pse_timeout_write E p n s)
      | Log_level_write p n \<Rightarrow> state_of (\<lambda>s. s) (pse_log_level_write E p n s)
      | Time_write n \<Rightarrow> state_of (\<lambda>s. s) (pse_time_write E n s)
      | Time_read ok \<Rightarrow> state_of (\<lambda>s. s) (pse_time_read E ok s)
      | Fw_ver_read ok \<Rightarrow> state_of (\<lambda>s. s) (pse_fw_ver_read E ok s)
      | Power_data_read ok \<Rightarrow> state_of (\<lambda>s. s) (pse_power_data_read E ok s))"

lemma state_of_Inr: "state_of f x = Inr t \<longleftrightarrow> (\<exists>a s. x = Inr (a, s) \<and> t = f s)"
  by (auto simp: state_of_def split: sum.splits)

lemmas pse_commands = pse_log_onoff_def pse_set_watermark_def pse_dump_trace_def pse_set_timeout_def
  pse_set_log_level_def pse_dump_power_data_def

lemma pse_writes_wf:
  assumes "pse_wf s"
  shows "pse_log_onoff_write E p n s = Inr (r, s') \<Longrightarrow> pse_wf s'"
    "pse_watermark_write E q n s = Inr (r, s') \<Longrightarrow> pse_wf s'"
    "pse_dump_trace_write E p n s = Inr (r, s') \<Longrightarrow> pse_wf s'"
    "pse_timeout_write E q n s = Inr (r, s') \<Longrightarrow> pse_wf s'"
    "pse_log_level_write E q n s = Inr (r, s') \<Longrightarrow> pse_wf s'"
  using assms pse_send_wf [of E _ _ s]
  by (auto simp: pse_log_onoff_write_def pse_watermark_write_def pse_dump_trace_write_def pse_timeout_write_def
      pse_log_level_write_def pse_commands bindF_eq_Inr split: sum.splits if_splits)

lemma pse_time_write_wf:
  assumes "pse_wf s" and "pse_time_write E n s = Inr (r, s')"
  shows "pse_wf s'"
proof -
  obtain t w where w: "ktime_get_ns E (s_env s) = (t, w)" by force
  have "pse_wf (s\<lparr>s_env := w\<rparr>)" using assms(1) by (simp add: pse_wf_def)
  then show ?thesis
    using assms(2) w pse_send_wf [of E _ _ "s\<lparr>s_env := w\<rparr>"] by (auto simp: pse_time_write_def pse_set_time_def bindF_eq_Inr)
qed

lemma pse_time_read_wf:
  assumes "pse_wf s" and "pse_time_read E ok s = Inr (r, s')"
  shows "pse_wf s'"
proof (cases "ok")
  case True
  obtain v where "pse_get_time E s = Inr (v, s')"
    using assms(2) True by (auto simp: pse_time_read_def bindF_eq_Inr split_def Let_def split: if_splits)
  then obtain q where "mei_pse_send E GET_TIME [] s = Inr (q, s')"
    by (auto simp: pse_get_time_def bindF_eq_Inr split: if_splits)
  then show ?thesis using assms(1) by (rule pse_send_wf)
qed (use assms in \<open>simp add: pse_time_read_def\<close>)

lemma pse_fw_ver_read_wf:
  assumes "pse_wf s" and "pse_fw_ver_read E ok s = Inr (r, s')"
  shows "pse_wf s'"
proof (cases "ok")
  case True
  obtain v where "pse_get_fw_ver E s = Inr (v, s')"
    using assms(2) True by (auto simp: pse_fw_ver_read_def bindF_eq_Inr split_def Let_def split: if_splits)
  then obtain q where "mei_pse_send E GET_FW_VER [] s = Inr (q, s')"
    by (auto simp: pse_get_fw_ver_def bindF_eq_Inr split: if_splits)
  then show ?thesis using assms(1) by (rule pse_send_wf)
qed (use assms in \<open>simp add: pse_fw_ver_read_def\<close>)

lemma pse_power_data_read_wf:
  assumes "pse_wf s" and "pse_power_data_read E ok s = Inr (r, s')"
  shows "pse_wf s'"
proof (cases "ok")
  case True
  obtain q where "mei_pse_send E DUMP_POWER_DATA [] s = Inr (q, s')"
    using assms(2) True by (auto simp: pse_power_data_read_def pse_dump_power_data_def bindF_eq_Inr split_def split: if_splits)
  then show ?thesis using assms(1) by (rule pse_send_wf)
qed (use assms in \<open>simp add: pse_power_data_read_def\<close>)

lemma pse_file_op_wf:
  assumes "pse_file_op E c s = Inr s'" and "pse_wf s"
  shows "pse_wf s'"
  using assms(1)
  by (cases c) (auto simp: pse_file_op_def state_of_Inr dest: pse_writes_wf [OF assms(2)] pse_time_write_wf [OF assms(2)]
      pse_time_read_wf [OF assms(2)] pse_fw_ver_read_wf [OF assms(2)] pse_power_data_read_wf [OF assms(2)])

text \<open>The states of a bound driver: probed, then messages and file operations in any order.\<close>

inductive pse_reach :: "'w dfs_env \<Rightarrow> 'w mei_pse \<Rightarrow> bool" for E where
  probed: "mei_pse_probe E A early1 early2 w = Inr ((0, r), Some s) \<Longrightarrow>
     (\<And>b. a_recv A = Some b \<Longrightarrow> length b = MAX_RECV_SIZE) \<Longrightarrow> (\<And>b. a_pm A = Some b \<Longrightarrow> length b = MAX_RECV_SIZE) \<Longrightarrow>
     pse_reach E s"
| message: "pse_reach E s \<Longrightarrow> mei_pse_rx E m s = Inr s' \<Longrightarrow> pse_reach E s'"
| file_op: "pse_reach E s \<Longrightarrow> pse_file_op E c s = Inr s' \<Longrightarrow> pse_reach E s'"

lemma pse_rx_all_wf: "rx_all (mei_pse_rx E) ms s = Inr s' \<Longrightarrow> pse_wf s \<Longrightarrow> pse_wf s'"
  by (erule rx_all_invariant) (auto intro: pse_rx_wf)

definition pse_same :: "'w mei_pse \<Rightarrow> 'w mei_pse \<Rightarrow> bool" where
  "pse_same s s' \<longleftrightarrow> s_em_open s' = s_em_open s \<and> s_sem_open s' = s_sem_open s \<and> s_sent s' = s_sent s"

lemma pse_rx_same:
  assumes "mei_pse_rx E m s = Inr s'"
  shows "pse_same s s'"
proof -
  have r: "response_notif n t = Inr t' \<Longrightarrow> pse_same t t'" for n and t t' :: "'a mei_pse"
    by (auto simp: response_notif_def pse_same_def bindF_eq_Inr)
  have p: "power_notif n t = Inr t' \<Longrightarrow> pse_same t t'" for n and t t' :: "'a mei_pse"
    by (auto simp: power_notif_def pse_same_def bindF_eq_Inr Let_def dest!: r split: if_splits)
  have q: "trace_notif E n t = Inr t' \<Longrightarrow> pse_same t t'" for n and t t'
    by (auto simp: trace_notif_def pse_same_def bindF_eq_Inr Let_def split_def split: if_splits)
  show ?thesis using assms
    by (auto simp: mei_pse_rx_def pse_same_def bindF_eq_Inr Let_def dest!: p q r split: mei_rx.splits if_splits)
qed

interpretation pse_rx: rx_client "mei_pse_rx E" pse_same for E
  by unfold_locales (auto simp: pse_same_def dest: pse_rx_same [unfolded pse_same_def])

lemma probe_wf:
  assumes "mei_pse_probe E A early1 early2 w = Inr ((0, r), Some s)"
    and "\<And>b. a_recv A = Some b \<Longrightarrow> length b = MAX_RECV_SIZE" and "\<And>b. a_pm A = Some b \<Longrightarrow> length b = MAX_RECV_SIZE"
  shows "pse_wf s \<and> s_em_open s \<and> s_sem_open s"
proof -
  obtain recv pm where rp: "a_recv A = Some recv" "a_pm A = Some pm"
    using assms(1) by (auto simp: mei_pse_probe_def split: if_splits option.splits)
  have wf0: "pse_wf (new_pse recv pm w)" using assms(2) [OF rp(1)] assms(3) [OF rp(2)] by (simp add: pse_wf_def new_pse_def)
  obtain s1 s2 where s: "rx_all (mei_pse_rx E) early1 (new_pse recv pm w) = Inr s1"
      "rx_all (mei_pse_rx E) early2 (s1\<lparr>s_em_open := True, s_em_pos := 0\<rparr>) = Inr s2"
      "s = s2\<lparr>s_sem_open := True, s_sem_pos := 0\<rparr>"
    using assms(1) rp
    by (auto simp: mei_pse_probe_def Let_def bindF_eq_Inr pse_err_close_def pse_err_disable_def pse_err_out_def split: if_splits)
  have "pse_wf (s1\<lparr>s_em_open := True, s_em_pos := 0\<rparr>)" using pse_rx_all_wf [OF s(1) wf0] by (simp add: pse_wf_def)
  from pse_rx_all_wf [OF s(2) this] pse_rx.all_same [OF s(2)] show ?thesis using s(3) by (simp add: pse_wf_def pse_same_def)
qed

text \<open>
  C34: The driver state keeps its shape.  Whatever messages arrive and whatever user space does with the
  debugfs files, as long as no operation faults the notification buffer stays at 24 bytes, the receive and
  power buffers at 8192, and the position for the next piece of power data lies inside \<open>struct pm_data\<close>.
\<close>
theorem pse_reach_shape:
  assumes "pse_reach E s"
  shows "length (s_notif s) = PSE_NOTIF_SIZE \<and> length (s_recv s) = MAX_RECV_SIZE \<and>
    length (s_pm s) = MAX_RECV_SIZE \<and> unat (s_pm_pos s) < PM_DATA_SIZE"
proof -
  have "pse_wf s" using assms
  proof induction
    case (probed A early1 early2 w r s)
    show ?case by (rule probe_wf [OF probed, THEN conjunct1])
  next
    case (message s m s')
    show ?case by (rule pse_rx_wf [OF message.IH message.hyps(2)])
  next
    case (file_op s c s')
    show ?case by (rule pse_file_op_wf [OF file_op.hyps(2) file_op.IH])
  qed
  then show ?thesis by (simp add: pse_wf_def)
qed

definition demo_probe_env :: probe_env where
  "demo_probe_env = \<lparr>a_obj = True, a_recv = Some (replicate MAX_RECV_SIZE 0), a_pm = Some (replicate MAX_RECV_SIZE 0), a_enable = 0, a_rx_cb = 0, a_em = 3,
     a_sem = 4, a_dfs = True\<rparr>"

lemma demo_pse_probe: "mei_pse_probe demo_pse_env demo_probe_env [] [] w =
  Inr ((0, \<lparr>r_obj = True, r_recv = True, r_pm = True, r_enabled = True, r_em = True, r_sem = True, r_dfs = True\<rparr>), Some (demo_pse w))"
  by (simp add: mei_pse_probe_def demo_probe_env_def demo_pse_def new_pse_def)

lemma demo_pse_reach: "pse_reach demo_pse_env (demo_pse w)"
  by (rule probed [OF demo_pse_probe]) (auto simp: demo_probe_env_def)

theorem pse_reach_shape_witness:
  "\<exists>s. mei_pse_rx demo_pse_env (Rx_error (- EIO)) (demo_pse []) = Inr s \<and> pse_reach demo_pse_env s \<and> length (s_notif s) = PSE_NOTIF_SIZE"
proof -
  have "mei_pse_rx demo_pse_env (Rx_error (- EIO)) (demo_pse []) = Inr (demo_pse [])" by (simp add: mei_pse_rx_def)
  moreover from message [OF demo_pse_reach this] have "pse_reach demo_pse_env (demo_pse [])" .
  ultimately show ?thesis using pse_reach_shape [of demo_pse_env "demo_pse []"] by blast
qed

section \<open>The power data arrives in pieces\<close>

text \<open>A piece: the header with a good status, the source and size in \<open>h\<close>, then its bytes.\<close>

definition power_frame :: "bytes \<Rightarrow> bytes \<Rightarrow> bytes" where
  "power_frame h c = le_bytes 4 DUMP_POWER_DATA @ 0 # h @ c"

lemma power_piece:
  assumes "pse_wf s" and "length h = 3" and "NOTIF_HEADER_LEN + length c \<le> MAX_RECV_SIZE"
    and "unat (s_pm_pos s) + length c \<le> MAX_RECV_SIZE"
  shows "mei_pse_rx E (Rx_data (power_frame h c)) s =
    (let p = unat (s_pm_pos s); s' = s\<lparr>s_recv := recv_after (power_frame h c) s,
         s_pm := take p (s_pm s) @ c @ drop (p + length c) (s_pm s)\<rparr> in
     if PM_DATA_SIZE \<le> p + length c then response_notif NOTIF_HEADER_LEN (s'\<lparr>s_pm_pos := 0\<rparr>)
     else Inr (s'\<lparr>s_pm_pos := s_pm_pos s + of_nat (length c)\<rparr>))"
proof -
  let ?f = "power_frame h c" and ?p = "unat (s_pm_pos s)"
  have len: "length ?f = 8 + length c" using assms(2) by (simp add: power_frame_def)
  have fit: "length ?f \<le> MAX_RECV_SIZE" using len assms(3) by simp
  have t4: "take 4 (recv_after ?f s) = le_bytes 4 DUMP_POWER_DATA" by (simp add: recv_after_def power_frame_def)
  have st: "get_le 4 (Suc 0) (recv_after ?f s) = Inr (0 :: u8)"
    using recv_after_length [OF assms(1) fit] by (simp add: get_le_def load_def recv_after_def power_frame_def)
  have ld: "load 8 (length c) (recv_after ?f s) = Inr c"
    using recv_after_length [OF assms(1) fit] assms(2,3)
    by (simp add: load_def) (simp add: recv_after_def power_frame_def)
  have sto: "store ?p c (s_pm s) = Inr (take ?p (s_pm s) @ c @ drop (?p + length c) (s_pm s))"
    using assms(1,4) by (simp add: store_def pse_wf_def)
  have pos: "unat (s_pm_pos s + of_nat (length c)) = ?p + length c"
    by (rule pm_pos_add) (use assms(1,3) in \<open>simp_all add: pse_wf_def\<close>)
  then have ge: "of_nat PM_DATA_SIZE \<le> s_pm_pos s + (of_nat (length c) :: u32) \<longleftrightarrow> PM_DATA_SIZE \<le> ?p + length c"
    by (simp add: word_le_nat_alt)
  have i7: "word_of_le (le_bytes 4 DUMP_POWER_DATA) = DUMP_POWER_DATA" by (rule word_of_le_le_bytes) simp
  have pn: "power_notif (length ?f) (s\<lparr>s_recv := recv_after ?f s\<rparr>) =
    (let s' = s\<lparr>s_recv := recv_after ?f s, s_pm := take ?p (s_pm s) @ c @ drop (?p + length c) (s_pm s)\<rparr> in
     if PM_DATA_SIZE \<le> ?p + length c then response_notif NOTIF_HEADER_LEN (s'\<lparr>s_pm_pos := 0\<rparr>)
     else Inr (s'\<lparr>s_pm_pos := s_pm_pos s + of_nat (length c)\<rparr>))"
    unfolding power_notif_def len Let_def by (simp add: st ld sto ge del: of_nat_numeral)
  show ?thesis
    unfolding pse_rx_data [OF assms(1) fit] pse_handler_def t4 i7 Let_def using pn
    by (simp add: pse_responses_def Let_def)
qed

lemma power_pieces:
  assumes "pse_wf s" and "length h = 3" and "take (unat (s_pm_pos s)) (s_pm s) = acc"
    and "length acc + length (concat cs) < PM_DATA_SIZE"
  shows "\<exists>s'. rx_all (mei_pse_rx E) (map (\<lambda>c. Rx_data (power_frame h c)) cs) s = Inr s' \<and> pse_wf s' \<and>
    unat (s_pm_pos s') = length acc + length (concat cs) \<and> take (unat (s_pm_pos s')) (s_pm s') = acc @ concat cs \<and>
    s_done s' = s_done s"
  using assms(1,3,4)
proof (induction cs arbitrary: s acc)
  case Nil
  then show ?case by (auto simp: pse_wf_def)
next
  case (Cons c cs)
  let ?p = "unat (s_pm_pos s)"
  have p: "?p = length acc" using Cons.prems(1,2) by (auto simp: pse_wf_def)
  let ?s = "s\<lparr>s_recv := recv_after (power_frame h c) s, s_pm := take ?p (s_pm s) @ c @ drop (?p + length c) (s_pm s),
              s_pm_pos := s_pm_pos s + of_nat (length c)\<rparr>"
  have step: "mei_pse_rx E (Rx_data (power_frame h c)) s = Inr ?s"
    using power_piece [OF Cons.prems(1) assms(2), of c E] Cons.prems(3) p by (simp add: Let_def)
  have pos: "unat (s_pm_pos s + of_nat (length c)) = length acc + length c"
    using pm_pos_add [of "s_pm_pos s" "length c"] Cons.prems(3) p by simp
  have wf: "pse_wf ?s" by (rule pse_rx_wf [OF Cons.prems(1) step])
  have tk: "take (unat (s_pm_pos ?s)) (s_pm ?s) = acc @ c"
    using pos p Cons.prems(1,2,3) by (simp add: pse_wf_def)
  from Cons.IH [OF wf tk] Cons.prems(3) obtain s' where
    "rx_all (mei_pse_rx E) (map (\<lambda>c. Rx_data (power_frame h c)) cs) ?s = Inr s'" "pse_wf s'"
    "unat (s_pm_pos s') = length (acc @ c) + length (concat cs)"
    "take (unat (s_pm_pos s')) (s_pm s') = (acc @ c) @ concat cs" "s_done s' = s_done ?s"
    by auto
  then show ?case using step by auto
qed

lemma power_reassembled:
  assumes "pse_wf s" and "s_pm_pos s = 0" and "length h = 3" and "NOTIF_HEADER_LEN + length c \<le> MAX_RECV_SIZE"
    and "length (concat cs) < PM_DATA_SIZE"
    and "PM_DATA_SIZE \<le> length (concat cs) + length c" and "length (concat cs) + length c \<le> MAX_RECV_SIZE"
  shows "\<exists>s'. rx_all (mei_pse_rx E) (map (\<lambda>c. Rx_data (power_frame h c)) (cs @ [c])) s = Inr s' \<and>
    take (length (concat cs) + length c) (s_pm s') = concat cs @ c \<and> s_pm_pos s' = 0 \<and>
    take NOTIF_HEADER_LEN (s_notif s') = take NOTIF_HEADER_LEN (power_frame h c) \<and> s_done s' = complete (s_done s)"
proof -
  obtain s1 where s1: "rx_all (mei_pse_rx E) (map (\<lambda>c. Rx_data (power_frame h c)) cs) s = Inr s1" "pse_wf s1"
    "unat (s_pm_pos s1) = length (concat cs)" "take (unat (s_pm_pos s1)) (s_pm s1) = concat cs" "s_done s1 = s_done s"
    using power_pieces [OF assms(1,3), of "[]" cs E] assms(2,5) by auto
  let ?f = "power_frame h c"
  have fit: "length ?f \<le> MAX_RECV_SIZE" using assms(3,4) by (simp add: power_frame_def)
  have rl: "length (recv_after ?f s1) = MAX_RECV_SIZE" by (rule recv_after_length [OF s1(2) fit])
  have rt: "take 8 (recv_after ?f s1) = take 8 ?f" using assms(3) by (simp add: recv_after_def power_frame_def)
  let ?n = "length (concat cs)"
  define s2 where "s2 = s1\<lparr>s_recv := recv_after ?f s1, s_pm := concat cs @ c @ drop (?n + length c) (s_pm s1), s_pm_pos := 0\<rparr>"
  have step: "mei_pse_rx E (Rx_data ?f) s1 = response_notif NOTIF_HEADER_LEN s2"
    using power_piece [OF s1(2) assms(3,4), of E] s1(3,4) assms(6,7) by (simp add: Let_def s2_def)
  have "response_notif NOTIF_HEADER_LEN s2 = Inr (s2\<lparr>s_notif := take 8 ?f @ drop 8 (s_notif s1), s_done := complete (s_done s1)\<rparr>)"
    using rl rt s1(2) assms(3) by (simp add: response_notif_def s2_def load_def store_def pse_wf_def power_frame_def)
  then show ?thesis
    using s1 step by (simp add: rx_all_append s2_def power_frame_def assms(3))
qed

text \<open>
  C35: The power data is put together again.  Pieces sent from an empty state, together as long as
  \<open>struct pm_data\<close> only with the last one and within the buffer, end with exactly their bytes in the buffer, the
  position reset, the header of the last piece in the notification buffer and the command completed once.
\<close>
theorem power_reassembly:
  assumes "pse_wf s" and "s_pm_pos s = 0" and "length h = 3" and "NOTIF_HEADER_LEN + length c \<le> MAX_RECV_SIZE"
    and "length (concat cs) < PM_DATA_SIZE"
    and "PM_DATA_SIZE \<le> length (concat cs) + length c" and "length (concat cs) + length c \<le> MAX_RECV_SIZE"
  shows "\<exists>s'. rx_all (mei_pse_rx E) (map (\<lambda>c. Rx_data (power_frame h c)) (cs @ [c])) s = Inr s' \<and>
    take (length (concat cs) + length c) (s_pm s') = concat cs @ c \<and> s_pm_pos s' = 0 \<and>
    take NOTIF_HEADER_LEN (s_notif s') = take NOTIF_HEADER_LEN (power_frame h c) \<and> s_done s' = complete (s_done s)"
  using assms by (rule power_reassembled)

lemma demo_pse_pos: "s_pm_pos (demo_pse w) = 0" and demo_pse_done: "s_done (demo_pse w) = 0"
  by (simp_all add: demo_pse_def new_pse_def)

theorem power_reassembly_witness:
  "\<exists>s'. rx_all (mei_pse_rx demo_pse_env) (map (\<lambda>c. Rx_data (power_frame [0, 0, 0] c)) [replicate 4000 1, replicate 1020 2]) (demo_pse []) = Inr s' \<and>
    take PM_DATA_SIZE (s_pm s') = replicate 4000 1 @ replicate 1020 2 \<and> s_done s' = 1"
  using power_reassembly [OF demo_pse_wf, of "[]" "[0, 0, 0]" "replicate 1020 2" "[replicate 4000 1]" demo_pse_env]
  by (auto simp: demo_pse_pos demo_pse_done complete_def simp del: rx_all.simps)

text \<open>A dump that times out with a part received leaves the position: the next dump starts behind that part.\<close>

lemma partial_power_stale:
  assumes "pse_wf s" and "s_pm_pos s = 0" and "length h = 3" and "length c < PM_DATA_SIZE"
    and "mei_send E (le_bytes 4 DUMP_POWER_DATA) (s_env s) = (0, w)"
    and "mei_wait E w = (([Rx_data (power_frame h c)], Timed_out), w')"
  shows "\<exists>s'. pse_dump_power_data E s = Inr (- ETIMEDOUT, s') \<and> unat (s_pm_pos s') = length c"
proof -
  let ?s = "s\<lparr>s_done := 0, s_sent := s_sent s @ [le_bytes 4 DUMP_POWER_DATA], s_env := w'\<rparr>"
  have wf: "pse_wf ?s" using assms(1) by (simp add: pse_wf_def)
  obtain s' where s': "rx_all (mei_pse_rx E) (map (\<lambda>c. Rx_data (power_frame h c)) [c]) ?s = Inr s'"
    "unat (s_pm_pos s') = length c" "s_done s' = 0"
    using power_pieces [OF wf assms(3), of "[]" "[c]" E] assms(2,4) by auto
  have "pse_wait E (s\<lparr>s_done := 0, s_env := w, s_sent := s_sent s @ [le_bytes 4 DUMP_POWER_DATA]\<rparr>) = Inr (0, s')"
    using assms(6) s' by (simp add: pse_wait_def wait_code_def)
  then show ?thesis using assms(5) s'(2) by (simp add: pse_dump_power_data_def mei_pse_send_def Let_def)
qed

section \<open>Where the traces go\<close>

definition trace_frame :: "u8 \<Rightarrow> bytes \<Rightarrow> bytes" where
  "trace_frame source p = le_bytes 4 TRACE_DATA_NOTIF @ [0, source, 0, 0] @ p"

lemma trace_step:
  assumes "pse_wf s" and "CONT_OFFSET + length p \<le> MAX_RECV_SIZE" and "if source \<noteq> 0 then s_sem_open s else s_em_open s"
    and "(if source \<noteq> 0 then s_sem_pos s else s_em_pos s) < MAX_LOG_SIZE"
    and "log_write E (if source \<noteq> 0 then SEM_LOG_FILE else EM_LOG_FILE) (p @ drop (CONT_OFFSET + length p) (s_recv s))
      (of_nat (length p)) (if source \<noteq> 0 then s_sem_pos s else s_em_pos s) (s_env s) = (pos, w)"
  shows "mei_pse_rx E (Rx_data (trace_frame source p)) s =
    (let s' = s\<lparr>s_recv := recv_after (trace_frame source p) s, s_env := w\<rparr> in
     Inr (if source \<noteq> 0 then s'\<lparr>s_sem_pos := pos\<rparr> else s'\<lparr>s_em_pos := pos\<rparr>))"
proof -
  let ?f = "trace_frame source p"
  have len: "length ?f = 8 + length p" by (simp add: trace_frame_def)
  have fit: "length ?f \<le> MAX_RECV_SIZE" using len assms(2) by simp
  have t4: "take 4 (recv_after ?f s) = le_bytes 4 TRACE_DATA_NOTIF" by (simp add: recv_after_def trace_frame_def)
  have src: "get_le 5 (Suc 0) (recv_after ?f s) = Inr source"
    using recv_after_length [OF assms(1) fit] by (simp add: get_le_def load_def recv_after_def trace_frame_def)
  have dr: "drop 8 (recv_after ?f s) = p @ drop (8 + length p) (s_recv s)"
    by (simp add: recv_after_def trace_frame_def)
  have n: "of_nat (length ?f) - of_nat CONT_OFFSET = (of_nat (length p) :: u64)" by (simp add: len)
  have i8: "word_of_le (le_bytes 4 TRACE_DATA_NOTIF) = TRACE_DATA_NOTIF" by (rule word_of_le_le_bytes) simp
  have tn: "trace_notif E (length ?f) (s\<lparr>s_recv := recv_after ?f s\<rparr>) =
    (let s' = s\<lparr>s_recv := recv_after ?f s, s_env := w\<rparr> in
     Inr (if source \<noteq> 0 then s'\<lparr>s_sem_pos := pos\<rparr> else s'\<lparr>s_em_pos := pos\<rparr>))"
    unfolding trace_notif_def n using assms(3-5) dr src by (auto simp: Let_def)
  show ?thesis
    unfolding pse_rx_data [OF assms(1) fit] pse_handler_def t4 i8 Let_def by (simp add: tn [unfolded Let_def])
qed

definition pse_log_ready :: "(int \<times> bytes) list dfs_env \<Rightarrow> (int \<times> bytes) list mei_pse \<Rightarrow> bool" where
  "pse_log_ready E s \<longleftrightarrow> pse_wf s \<and> s_em_open s \<and> s_sem_open s \<and> writes_all E EM_LOG_FILE \<and> writes_all E SEM_LOG_FILE"

interpretation em_log: log_client "\<lambda>p. mei_pse_rx E (Rx_data (trace_frame 0 p))" "pse_log_ready E" s_em_pos s_env 8184
  for E :: "(int \<times> bytes) list dfs_env"
proof unfold_locales
  fix s :: "(int \<times> bytes) list mei_pse" and p :: bytes
  assume a: "pse_log_ready E s" "length p \<le> 8184" "s_em_pos s < MAX_LOG_SIZE"
  let ?s = "s\<lparr>s_recv := recv_after (trace_frame 0 p) s, s_env := s_env s @ [(s_em_pos s, p)], s_em_pos := s_em_pos s + 2 * int (length p)\<rparr>"
  have step: "mei_pse_rx E (Rx_data (trace_frame 0 p)) s = Inr ?s"
    using trace_step [where s = s and p = p and source = 0 and E = E] log_write_all [of E EM_LOG_FILE p] a by (simp add: pse_log_ready_def)
  then have "pse_wf ?s" using pse_rx_wf a(1) by (auto simp: pse_log_ready_def)
  then show "\<exists>s'. mei_pse_rx E (Rx_data (trace_frame 0 p)) s = Inr s' \<and> pse_log_ready E s' \<and>
      s_em_pos s' = s_em_pos s + 2 * int (length p) \<and> s_env s' = s_env s @ [(s_em_pos s, p)]"
    using step a(1) by (intro exI [of _ ?s]) (simp add: pse_log_ready_def)
qed

interpretation sem_log: log_client "\<lambda>p. mei_pse_rx E (Rx_data (trace_frame 1 p))" "pse_log_ready E" s_sem_pos s_env 8184
  for E :: "(int \<times> bytes) list dfs_env"
proof unfold_locales
  fix s :: "(int \<times> bytes) list mei_pse" and p :: bytes
  assume a: "pse_log_ready E s" "length p \<le> 8184" "s_sem_pos s < MAX_LOG_SIZE"
  let ?s = "s\<lparr>s_recv := recv_after (trace_frame 1 p) s, s_env := s_env s @ [(s_sem_pos s, p)], s_sem_pos := s_sem_pos s + 2 * int (length p)\<rparr>"
  have step: "mei_pse_rx E (Rx_data (trace_frame 1 p)) s = Inr ?s"
    using trace_step [where s = s and p = p and source = 1 and E = E] log_write_all [of E SEM_LOG_FILE p] a by (simp add: pse_log_ready_def)
  then have "pse_wf ?s" using pse_rx_wf a(1) by (auto simp: pse_log_ready_def)
  then show "\<exists>s'. mei_pse_rx E (Rx_data (trace_frame 1 p)) s = Inr s' \<and> pse_log_ready E s' \<and>
      s_sem_pos s' = s_sem_pos s + 2 * int (length p) \<and> s_env s' = s_env s @ [(s_sem_pos s, p)]"
    using step a(1) by (intro exI [of _ ?s]) (simp add: pse_log_ready_def)
qed

text \<open>
  The log files have gaps.  When \<open>kernel_write\<close> writes whole records and advances the position, as
  documented, each record is written twice its length after the one before, in the file of the first as of
  the second processor: the callback advances the position a second time.
\<close>
lemma trace_records_gapped:
  assumes "pse_wf s" and "s_em_open s" "s_sem_open s" and "writes_all E EM_LOG_FILE" "writes_all E SEM_LOG_FILE"
    and "\<forall>p \<in> set ps. length p \<le> 8184" and "\<forall>p \<in> set qs. length p \<le> 8184"
    and "s_em_pos s + 2 * int (length (concat ps)) < MAX_LOG_SIZE" and "s_sem_pos s + 2 * int (length (concat qs)) < MAX_LOG_SIZE"
  shows "(\<exists>s'. rx_all (mei_pse_rx E) (map (\<lambda>p. Rx_data (trace_frame 0 p)) ps) s = Inr s' \<and>
      s_env s' = s_env s @ gapped (s_em_pos s) ps) \<and>
    (\<exists>s'. rx_all (mei_pse_rx E) (map (\<lambda>p. Rx_data (trace_frame 1 p)) qs) s = Inr s' \<and>
      s_env s' = s_env s @ gapped (s_sem_pos s) qs)"
  using em_log.records_gapped [of E s ps] sem_log.records_gapped [of E s qs] assms
  by (auto simp: pse_log_ready_def rx_all_map)

definition log_env :: "(int \<times> bytes) list dfs_env" where
  "log_env = mei_env.extend \<lparr>mei_send = (\<lambda>b w. (0, w)), mei_wait = (\<lambda>w. (([], Timed_out), w))\<rparr>
     \<lparr>kernel_write = (\<lambda>f bs n pos w. ((int (unat n), pos + int (unat n)), w @ [(pos, take (unat n) bs)])), ktime_get_ns = Pair 0\<rparr>"

lemma log_env_writes: "writes_all log_env f"
  by (simp add: writes_all_def log_env_def mei_env.defs)

definition log_pse :: "(int \<times> bytes) list mei_pse" where
  "log_pse = (new_pse (replicate MAX_RECV_SIZE 0) (replicate MAX_RECV_SIZE 0) [])\<lparr>s_em_open := True, s_sem_open := True\<rparr>"

lemma log_pse_start: "pse_wf log_pse" "s_em_open log_pse" "s_sem_open log_pse" "s_em_pos log_pse = 0" "s_sem_pos log_pse = 0"
  "s_env log_pse = []"
  by (simp_all add: log_pse_def pse_wf_def new_pse_def)

section \<open>The outcome of a command\<close>

text \<open>
  Outcome of a command, on every branch: a send error; without an answer \<open>-ETIMEDOUT\<close> or, on a fatal
  signal, \<open>-ERESTARTSYS\<close>; with one, its status as a signed byte, then -1 if it answers another command, and 0
  only for a good status under the id that was sent.
\<close>
lemma pse_command_outcome:
  assumes "mei_pse_send E i param s = Inr (r, s')"
    and "mei_send E (le_bytes 4 i @ param) (s_env s) = (ret, w)" and "mei_wait E w = ((ms, e), w')"
    and "rx_all (mei_pse_rx E) ms (s\<lparr>s_done := 0, s_sent := s_sent s @ [le_bytes 4 i @ param], s_env := w'\<rparr>) = Inr s1"
  shows "r = (if ret < 0 then ret
    else if s_done s1 = 0 then (if e = Killed then - ERESTARTSYS else - ETIMEDOUT)
    else let st = sint (word_of_le (take 1 (drop 4 (s_notif s1))) :: u8) in
      if st \<noteq> 0 then st else if (word_of_le (take 4 (s_notif s1)) :: u32) \<noteq> i then - 1 else 0) \<and>
    s_sent s' = s_sent s @ (if ret < 0 then [] else [le_bytes 4 i @ param])"
proof -
  have wt: "pse_wait E (s\<lparr>s_done := 0, s_env := w, s_sent := s_sent s @ [le_bytes 4 i @ param]\<rparr>) =
      Inr (if s_done s1 > 0 then (1, s1\<lparr>s_done := s_done s1 - 1\<rparr>) else (wait_code e, s1))"
    using assms(3,4) by (simp add: pse_wait_def)
  have r: "r = (if ret < 0 then ret
    else if s_done s1 = 0 then (if e = Killed then - ERESTARTSYS else - ETIMEDOUT)
    else let st = sint (word_of_le (take 1 (drop 4 (s_notif s1))) :: u8) in
      if st \<noteq> 0 then st else if (word_of_le (take 4 (s_notif s1)) :: u32) \<noteq> i then - 1 else 0)"
    using assms(1,2) wt
    by (auto simp: mei_pse_send_def wait_code_def get_le_def bindF_eq_Inr load_eq_Inr Let_def split: if_splits wait_end.splits)
  have "s_sent s1 = s_sent s @ [le_bytes 4 i @ param]"
    using pse_rx.all_same [OF assms(4)] by (simp add: pse_same_def)
  then have "s_sent s' = s_sent s @ (if ret < 0 then [] else [le_bytes 4 i @ param])"
    using assms(1,2) wt by (auto simp: mei_pse_send_def bindF_eq_Inr Let_def split: if_splits)
  with r show ?thesis by blast
qed

end
