(* ===== verification/Mei_Pse_Report.thy ===== *)
theory Mei_Pse_Report
  imports Mei_Pse_Laws
begin

text \<open>
  The power report of the platform services client: what its percentages mean, and what a read prints.
\<close>

section \<open>The power report\<close>

lemma unat_plus_5: "unat x \<le> 10000000 \<Longrightarrow> unat (x + 5) = unat (x :: u64) + 5"
  by (simp add: unat_word_ariths)

lemma unat_mult_7: "unat (x :: u64) = k \<Longrightarrow> k * 10000000 < 2 ^ 64 \<Longrightarrow> unat (x * 10000000) = k * 10000000"
  by (simp add: unat_word_ariths)

lemma percentage_nat:
  assumes "t \<noteq> 0" and "d \<le> t" and "unat t * 10000000 < 2 ^ 64"
  shows "percentage d t = Inr (num, frac) \<longleftrightarrow> unat num = 100 * unat d div unat t \<and>
    unat frac = (100 * unat d mod unat t * 10000000 div unat t + 5) div 10"
proof -
  have t: "0 < unat t" using assms(1) by (simp add: unat_gt_0)
  have dt: "unat d \<le> unat t" using assms(2) by (simp add: word_le_nat_alt)
  have a: "unat (d * 100) = 100 * unat d"
    using dt assms(3) by (simp add: unat_word_ariths)
  have m: "unat (d * 100 mod t) = 100 * unat d mod unat t" by (simp add: unat_mod a)
  have lt: "100 * unat d mod unat t < unat t" using t by simp
  have b: "unat (d * 100 mod t * 10000000) = 100 * unat d mod unat t * 10000000"
    by (rule unat_mult_7 [OF m]) (use lt assms(3) in simp)
  have q: "100 * unat d mod unat t * 10000000 div unat t \<le> 10000000"
  proof -
    have "100 * unat d mod unat t * 10000000 \<le> 10000000 * unat t" using lt by simp
    then have "100 * unat d mod unat t * 10000000 div unat t \<le> 10000000 * unat t div unat t" by (rule div_le_mono)
    then show ?thesis using t by simp
  qed
  have b': "unat (d * 100 mod t * 10000000 div t) = 100 * unat d mod unat t * 10000000 div unat t"
    unfolding unat_div b ..
  have c: "unat (d * 100 mod t * 10000000 div t + 5) = 100 * unat d mod unat t * 10000000 div unat t + 5"
    using unat_plus_5 [of "d * 100 mod t * 10000000 div t"] q unfolding b' by simp
  have num: "unat (d * 100 div t) = 100 * unat d div unat t" by (simp add: unat_div a)
  have frac: "unat ((d * 100 mod t * 10000000 div t + 5) div 10) = (100 * unat d mod unat t * 10000000 div unat t + 5) div 10"
    by (simp add: unat_div c)
  show ?thesis using assms(1) num frac
    by (auto simp: percentage_def Let_def word_unat_eq_iff)
qed

text \<open>
  C39: The percentage column.  For a duration within the total and a total below \<open>2^64 / 10^7\<close>, the column
  shows the whole percents and the remainder rounded to six digits; the carry of the rounding is lost: the
  digits can be the seven of 1000000 while the whole part stays.
\<close>
theorem power_percentage:
  assumes "t \<noteq> 0" and "d \<le> t" and "unat t * 10000000 < 2 ^ 64" and "percentage d t = Inr (num, frac)"
  shows "unat num = 100 * unat d div unat t \<and>
    10 * unat t * unat frac \<le> 100 * unat d mod unat t * 10000000 + 5 * unat t \<and>
    100 * unat d mod unat t * 10000000 + 5 * unat t < 10 * unat t * (unat frac + 1) \<and> unat frac \<le> 1000000 \<and>
    (unat frac = 1000000 \<longleftrightarrow> 9999995 * unat t \<le> 100 * unat d mod unat t * 10000000)"
proof -
  define T r where "T = unat t" and "r = 100 * unat d mod unat t"
  have T: "0 < T" using assms(1) by (simp add: T_def unat_gt_0)
  have lt: "r < T" using T by (simp add: r_def T_def)
  have n: "unat num = 100 * unat d div T" and f: "unat frac = (r * 10000000 div T + 5) div 10"
    using assms(4) percentage_nat [OF assms(1-3)] by (simp_all add: T_def r_def)
  have "(r * 10000000 div T + 5) div 10 = (r * 10000000 + 5 * T) div T div 10" using T by simp
  then have f': "unat frac = (r * 10000000 + 5 * T) div (10 * T)"
    using f by (simp add: div_mult2_eq mult.commute)
  have lo: "10 * T * unat frac \<le> r * 10000000 + 5 * T" unfolding f' by simp
  have hi: "r * 10000000 + 5 * T < 10 * T * (unat frac + 1)"
    unfolding f' using T by (metis Suc_eq_plus1 dividend_less_times_div mult_Suc_right mult_pos_pos zero_less_numeral add.commute)
  have le: "unat frac \<le> 1000000"
  proof (rule ccontr)
    assume "\<not> unat frac \<le> 1000000"
    then have "10 * T * 1000001 \<le> 10 * T * unat frac" by (intro mult_le_mono) auto
    from le_trans [OF this lo] show False using lt by simp
  qed
  have ex: "unat frac = 1000000 \<longleftrightarrow> 9999995 * T \<le> r * 10000000"
  proof
    assume "unat frac = 1000000"
    then show "9999995 * T \<le> r * 10000000" using lo by simp
  next
    assume a: "9999995 * T \<le> r * 10000000"
    show "unat frac = 1000000"
    proof (rule ccontr)
      assume "unat frac \<noteq> 1000000"
      then have "unat frac + 1 \<le> 1000000" using le by simp
      then have "10 * T * (unat frac + 1) \<le> 10 * T * 1000000" by (intro mult_le_mono) auto
      from less_le_trans [OF hi this] show False using a by simp
    qed
  qed
  show ?thesis using n lo hi le ex by (simp add: T_def r_def)
qed

text \<open>0.9999999 percent is shown as 0.1000000.\<close>

theorem power_percentage_witness:
  "percentage 100000 10000001 = Inr (0, 1000000) \<and> 100 * unat (100000 :: u64) mod unat (10000001 :: u64) = 10000000"
proof -
  have p: "percentage 100000 10000001 = Inr (0, 1000000)" by code_simp
  from power_percentage [OF _ _ _ p] p show ?thesis by simp
qed

section \<open>The report as text\<close>

text \<open>What a subsystem of the power data says, and the lines that should be printed.\<close>

definition state_at :: "nat \<Rightarrow> bytes \<Rightarrow> nat \<Rightarrow> bytes \<times> u64 \<times> u64" where
  "state_at i pm j = (let off = PM_SUBSYS_SIZE * i + 8 + PM_STATE_SIZE * j in
     (take 16 (drop off pm), word_of_le (take 8 (drop (off + 32) pm)), word_of_le (take 8 (drop (off + 40) pm))))"

definition total_at :: "nat \<Rightarrow> bytes \<Rightarrow> u64" where
  "total_at i pm = sum_list (map (\<lambda>j. fst (snd (state_at i pm j))) [0..<4])"

definition dev_at :: "nat \<Rightarrow> bytes \<Rightarrow> nat \<Rightarrow> bytes \<times> u32" where
  "dev_at i pm j = (let off = PM_SUBSYS_SIZE * i + PM_DEVS + PM_DEV_SIZE * j in
     (take 32 (drop off pm), word_of_le (take 4 (drop (off + 32) pm))))"

definition dev_cnt_at :: "nat \<Rightarrow> bytes \<Rightarrow> nat" where
  "dev_cnt_at i pm = unat (word_of_le (take 4 (drop (PM_SUBSYS_SIZE * i + PM_DEV_CNT) pm)) :: u32)"

definition state_line :: "nat \<Rightarrow> bytes \<Rightarrow> nat \<Rightarrow> string" where
  "state_line i pm j = (case state_at i pm j of (name, dur, count) \<Rightarrow>
     case percentage dur (total_at i pm) of Inl _ \<Rightarrow> [] | Inr (num, frac) \<Rightarrow> state_text name dur count num frac)"

definition state_lines :: "nat \<Rightarrow> bytes \<Rightarrow> string list" where
  "state_lines i pm = [''power state of '' @ pm_names ! i @ '':'' @ [newline], power_title] @
     map (state_line i pm) [0..<4] @ [[newline]]"

definition dev_lines :: "nat \<Rightarrow> bytes \<Rightarrow> nat \<Rightarrow> nat \<Rightarrow> string list" where
  "dev_lines i pm j cnt = map (\<lambda>k. dev_row (map (dev_at i pm) [j + 4 * k..<min (j + 4 * k + 4) cnt])) [0..<(cnt - j + 3) div 4]"

definition table_lines :: "nat \<Rightarrow> bytes \<Rightarrow> string list" where
  "table_lines i pm = [''device list of '' @ pm_names ! i @ '':'' @ [newline], dev_title] @
     dev_lines i pm 0 (dev_cnt_at i pm) @ (if i < 1 then [[newline]] else [])"

definition power_report :: "bytes \<Rightarrow> string list" where
  "power_report pm = state_lines 0 pm @ state_lines 1 pm @ table_lines 0 pm @ table_lines 1 pm"

section \<open>The code prints these lines\<close>

lemma pm_status_at:
  "length pm = MAX_RECV_SIZE \<Longrightarrow> i < 2 \<Longrightarrow> j < 4 \<Longrightarrow> pm_status i j pm = Inr (state_at i pm j)"
  by (auto simp: pm_status_def state_at_def get_le_def load_def Let_def)

lemma pm_dev_list_at:
  assumes "length pm = MAX_RECV_SIZE" and "i < 2" and "\<forall>j \<in> set js. j < 64"
  shows "pm_dev_list i pm js = Inr (map (dev_at i pm) js)"
  using assms(3)
proof (induction js)
  case (Cons j js)
  then have "pm_dev i j pm = Inr (dev_at i pm j)"
    using assms(1,2) by (auto simp: pm_dev_def dev_at_def get_le_def load_def Let_def)
  then show ?case using Cons by simp
qed simp

lemma dev_lines_step:
  assumes "j < cnt"
  shows "dev_lines i pm j cnt = dev_row (map (dev_at i pm) [j..<j + min 4 (cnt - j)]) # dev_lines i pm (j + 4) cnt"
proof -
  have n: "(cnt - j + 3) div 4 = Suc ((cnt - (j + 4) + 3) div 4)"
  proof (cases "cnt - j \<le> 4")
    case True
    then have "cnt - j = 1 \<or> cnt - j = 2 \<or> cnt - j = 3 \<or> cnt - j = 4" using assms by arith
    then show ?thesis using True by auto
  next
    case False
    then have e: "cnt - j + 3 = (cnt - (j + 4) + 3) + 4" by simp
    have "(k + 4) div 4 = Suc (k div 4)" for k :: nat by simp
    then show ?thesis unfolding e .
  qed
  have m: "min (j + 4) cnt = j + min 4 (cnt - j)" using assms by simp
  have e: "j + 4 * Suc k = j + 4 + 4 * k" for k by simp
  show ?thesis unfolding dev_lines_def n map_upt_Suc e using m by simp
qed

lemma dev_rows_lines:
  assumes "length pm = MAX_RECV_SIZE" and "i < 2" and "cnt \<le> 64"
  shows "dev_rows i pm cnt j page = Inr (fold snprintf_page (dev_lines i pm j cnt) page)"
  using assms
proof (induction i pm cnt j page rule: dev_rows.induct)
  case (1 i pm cnt j page)
  show ?case
  proof (cases "j < cnt")
    case True
    have "pm_dev_list i pm [j..<j + min 4 (cnt - j)] = Inr (map (dev_at i pm) [j..<j + min 4 (cnt - j)])"
      by (rule pm_dev_list_at) (use 1 in auto)
    then show ?thesis using 1 True by (subst dev_rows.simps) (simp add: dev_lines_step)
  next
    case False
    then show ?thesis by (subst dev_rows.simps) (simp add: dev_lines_def)
  qed
qed

text \<open>The two totals must not be 0, and the counts within the table.\<close>

definition pm_sane :: "bytes \<Rightarrow> bool" where
  "pm_sane pm \<longleftrightarrow> length pm = MAX_RECV_SIZE \<and> (\<forall>i < 2. total_at i pm \<noteq> 0 \<and> dev_cnt_at i pm \<le> 64)"

lemma state_row_line:
  assumes "pm_sane pm" and "i < 2" and "j < 4"
  shows "state_row i pm (total_at i pm) j page = Inr (snprintf_page (state_line i pm j) page)"
  using assms pm_status_at [of pm i j]
  by (auto simp: state_row_def state_line_def pm_sane_def percentage_def Let_def split: prod.splits)

lemma rx_all_fold: "(\<And>x s. x \<in> set xs \<Longrightarrow> f x s = Inr (g x s)) \<Longrightarrow> rx_all f xs s = Inr (fold g xs s)"
  by (induction xs arbitrary: s) auto

lemma total_code:
  assumes "length pm = MAX_RECV_SIZE" and "i < 2"
  shows "rx_all (\<lambda>j total. bindF (pm_status i j pm) (\<lambda>(_, duration, _). Inr (total + duration))) [0..<4] 0 = Inr (total_at i pm)"
proof -
  have "rx_all (\<lambda>j total. bindF (pm_status i j pm) (\<lambda>(_, duration, _). Inr (total + duration))) [0..<4] t =
      Inr (fold (\<lambda>j total. total + fst (snd (state_at i pm j))) [0..<4] t)" for t
    by (rule rx_all_fold) (use pm_status_at [OF assms] in \<open>auto simp: split_def\<close>)
  moreover have "fold (\<lambda>j total. total + fst (snd (state_at i pm j))) [0..<4] 0 = total_at i pm"
    by (simp add: total_at_def upt_rec algebra_simps)
  ultimately show ?thesis by simp
qed

lemma dump_states:
  assumes "pm_sane pm"
  shows "dump_power_state_data pm page = Inr (fold snprintf_page (state_lines 0 pm @ state_lines 1 pm) page)"
proof -
  have len: "length pm = MAX_RECV_SIZE" using assms by (simp add: pm_sane_def)
  have rows: "rx_all (state_row i pm (total_at i pm)) [0..<4] page = Inr (fold snprintf_page (map (state_line i pm) [0..<4]) page)"
    if "i < 2" for i page
    using rx_all_fold [of "[0..<4]" "state_row i pm (total_at i pm)" "\<lambda>j. snprintf_page (state_line i pm j)" page]
      state_row_line [OF assms that] by (simp add: fold_map o_def)
  have "rx_all (\<lambda>i page.
       let page = snprintf_page (''power state of '' @ pm_names ! i @ '':'' @ [newline]) page;
           page = snprintf_page power_title page in
       bindF (rx_all (\<lambda>j total. bindF (pm_status i j pm) (\<lambda>(_, duration, _). Inr (total + duration))) [0..<4] 0) (\<lambda>total.
       bindF (rx_all (state_row i pm total) [0..<4] page) (\<lambda>page. Inr (snprintf_page [newline] page)))) [0..<2] page =
     Inr (fold (\<lambda>i. fold snprintf_page (state_lines i pm)) [0..<2] page)"
    by (rule rx_all_fold) (simp add: total_code [OF len] rows state_lines_def Let_def)
  then show ?thesis by (simp add: dump_power_state_data_def upt_rec)
qed

lemma dump_devs:
  assumes "pm_sane pm"
  shows "dump_dev_power_data pm page = Inr (fold snprintf_page (table_lines 0 pm @ table_lines 1 pm) page)"
proof -
  have len: "length pm = MAX_RECV_SIZE" using assms by (simp add: pm_sane_def)
  have cnt: "get_le (PM_SUBSYS_SIZE * i + PM_DEV_CNT) 4 pm = Inr (word_of_le (take 4 (drop (PM_SUBSYS_SIZE * i + PM_DEV_CNT) pm)) :: u32)"
    if "i < 2" for i
    using len that by (simp add: get_le_def load_def)
  have rows: "dev_rows i pm (dev_cnt_at i pm) 0 page = Inr (fold snprintf_page (dev_lines i pm 0 (dev_cnt_at i pm)) page)"
    if "i < 2" for i page
    by (rule dev_rows_lines) (use assms that in \<open>auto simp: pm_sane_def\<close>)
  have "rx_all (\<lambda>i page.
       let page = snprintf_page (''device list of '' @ pm_names ! i @ '':'' @ [newline]) page;
           page = snprintf_page dev_title page in
       bindF (get_le (PM_SUBSYS_SIZE * i + PM_DEV_CNT) 4 pm) (\<lambda>dev_cnt :: u32.
       bindF (dev_rows i pm (unat dev_cnt) 0 page) (\<lambda>page.
       Inr (if i < 1 then snprintf_page [newline] page else page)))) [0..<2] page =
     Inr (fold (\<lambda>i. fold snprintf_page (table_lines i pm)) [0..<2] page)"
    by (rule rx_all_fold) (simp add: cnt rows [unfolded dev_cnt_at_def] table_lines_def dev_cnt_at_def Let_def)
  then show ?thesis by (simp add: dump_dev_power_data_def upt_rec)
qed

lemma power_report_read:
  assumes "pse_dump_power_data E s = Inr (0, s')" and "pm_sane (s_pm s')"
  shows "\<exists>addr pos. pse_power_data_read E True s = Inr (Dfs_buffer addr pos, s') \<and>
    (let text = concat (power_report (s_pm s')) in
     (length text < PAGE_SIZE \<longrightarrow> addr = text @ replicate (PAGE_SIZE - length text) (CHR 0x00) \<and> pos = length text) \<and>
     (length text > PAGE_SIZE \<longrightarrow> pos > PAGE_SIZE))"
proof -
  define ls where "ls = power_report (s_pm s')"
  obtain addr pos where p: "fold snprintf_page ls zeroed_page = (addr, pos)" by force
  have "pse_power_data_read E True s = Inr (Dfs_buffer addr pos, s')"
    using assms(1) dump_states [OF assms(2)] dump_devs [OF assms(2)] p
    by (simp add: pse_power_data_read_def ls_def power_report_def)
  then show ?thesis using p zeroed_text [of ls] zeroed_pos [of ls] unfolding ls_def [symmetric]
    by (auto simp: Let_def split: if_splits)
qed

text \<open>
  C36: The power report.  For power data whose totals are not 0 and whose tables count at most 64 devices,
  the read prints exactly the lines of the report: if they are shorter than a page the page holds their text
  and the length handed on is theirs; if they are longer than a page, the length handed to
  \<open>simple_read_from_buffer\<close> exceeds the page, so that the memory behind it is read.
\<close>
theorem power_report_printed:
  assumes "pse_dump_power_data E s = Inr (0, s')" and "pm_sane (s_pm s')"
  shows "\<exists>addr pos. pse_power_data_read E True s = Inr (Dfs_buffer addr pos, s') \<and>
    (let text = concat (power_report (s_pm s')) in
     (length text < PAGE_SIZE \<longrightarrow> addr = text @ replicate (PAGE_SIZE - length text) (CHR 0x00) \<and> pos = length text) \<and>
     (length text > PAGE_SIZE \<longrightarrow> pos > PAGE_SIZE))"
  using assms by (rule power_report_read)

text \<open>Power data of two subsystems with 50 devices each, sent in two pieces.\<close>

definition demo_sub :: bytes where
  "demo_sub = replicate 2504 1 @ [50, 0, 0, 0, 0, 0]"

lemma demo_sub_length: "length demo_sub = 2510"
  by (simp add: demo_sub_def)

lemma sum_list_4: "sum_list (map f [0..<4]) = f 0 + f 1 + f 2 + (f 3 :: u64)"
  by (simp add: upt_rec add.assoc numeral_2_eq_2 numeral_3_eq_3)

lemma demo_sub_sane:
  assumes "length rest = 3172"
  shows "pm_sane (demo_sub @ demo_sub @ rest)" and "dev_cnt_at i (demo_sub @ demo_sub @ rest) = 50 \<or> \<not> i < 2"
proof -
  let ?pm = "demo_sub @ demo_sub @ rest"
  have w: "word_of_le (replicate 8 1) = (72340172838076673 :: u64)" by code_simp
  have c: "word_of_le [50, 0, 0, 0] = (50 :: u32)" by code_simp
  have t: "fst (snd (state_at i ?pm j)) = 72340172838076673" if "i < 2" "j < 4" for i j
  proof -
    have "i = 0 \<or> i = 1" "j = 0 \<or> j = 1 \<or> j = 2 \<or> j = 3" using that by arith+
    then show ?thesis using w by (auto simp: state_at_def demo_sub_def Let_def)
  qed
  have d: "dev_cnt_at i ?pm = 50" if "i < 2" for i
    using that c by (auto simp: dev_cnt_at_def demo_sub_def less_2_cases_iff)
  then show "dev_cnt_at i ?pm = 50 \<or> \<not> i < 2" by blast
  show "pm_sane ?pm" using t d assms by (auto simp: pm_sane_def total_at_def sum_list_4 demo_sub_length)
qed

definition demo_power :: "mei_rx list list" where
  "demo_power = [map (\<lambda>c. Rx_data (power_frame [0, 0, 0] c)) [demo_sub, demo_sub]]"

lemma demo_power_dump:
  "\<exists>s' rest. pse_dump_power_data demo_pse_env (demo_pse demo_power) = Inr (0, s') \<and> s_pm s' = demo_sub @ demo_sub @ rest \<and> length rest = 3172"
proof -
  let ?s = "demo_pse demo_power"
  let ?t = "?s\<lparr>s_done := 0, s_sent := s_sent ?s @ [le_bytes 4 DUMP_POWER_DATA], s_env := []\<rparr>"
  have wf: "pse_wf ?t" using demo_pse_wf by (simp add: pse_wf_def)
  obtain s1 where s1: "rx_all (mei_pse_rx demo_pse_env) (map (\<lambda>c. Rx_data (power_frame [0, 0, 0] c)) [demo_sub, demo_sub]) ?t = Inr s1"
      "take 5020 (s_pm s1) = demo_sub @ demo_sub" "s_done s1 = 1" "take 8 (s_notif s1) = take 8 (power_frame [0, 0, 0] demo_sub)"
    using power_reassembled [OF wf, of "[0, 0, 0]" demo_sub "[demo_sub]" demo_pse_env]
    by (auto simp: demo_sub_length demo_pse_pos complete_def simp del: rx_all.simps)
  have wf1: "pse_wf s1" by (rule pse_rx_all_wf [OF s1(1) wf])
  have n: "take 4 (s_notif s1) = le_bytes 4 DUMP_POWER_DATA" "take 1 (drop 4 (s_notif s1)) = [0]"
  proof -
    have "take 4 (take 8 (s_notif s1)) = le_bytes 4 DUMP_POWER_DATA" "take 1 (drop 4 (take 8 (s_notif s1))) = [0]"
      unfolding s1(4) by (simp_all add: power_frame_def)
    then show "take 4 (s_notif s1) = le_bytes 4 DUMP_POWER_DATA" "take 1 (drop 4 (s_notif s1)) = [0]"
      by (simp_all add: drop_take)
  qed
  have send: "mei_send demo_pse_env (le_bytes 4 DUMP_POWER_DATA) (s_env ?s) = (4, demo_power)"
    by (simp add: demo_pse_env_def scripted_mei_def mei_env.defs demo_pse_def new_pse_def)
  have wt: "pse_wait demo_pse_env (?s\<lparr>s_done := 0, s_env := demo_power, s_sent := s_sent ?s @ [le_bytes 4 DUMP_POWER_DATA]\<rparr>) = Inr (1, s1\<lparr>s_done := 0\<rparr>)"
    using s1(1,3) by (simp add: pse_wait_def demo_pse_env_def scripted_mei_def mei_env.defs demo_power_def)
  have "pse_dump_power_data demo_pse_env ?s = Inr (0, s1\<lparr>s_done := 0\<rparr>)"
    using wt n wf1 send by (simp add: pse_dump_power_data_def mei_pse_send_def get_le_def load_def pse_wf_def word_of_le_le_bytes Let_def)
  moreover have "s_pm s1 = demo_sub @ demo_sub @ drop 5020 (s_pm s1)" "length (drop 5020 (s_pm s1)) = 3172"
    using append_take_drop_id [of 5020 "s_pm s1"] s1(2) wf1 by (simp_all add: pse_wf_def)
  ultimately show ?thesis by (intro exI [of _ "s1\<lparr>s_done := 0\<rparr>"] exI [of _ "drop 5020 (s_pm s1)"]) simp
qed

theorem power_report_printed_witness:
  "\<exists>addr pos s'. pse_power_data_read demo_pse_env True (demo_pse demo_power) = Inr (Dfs_buffer addr pos, s')"
proof -
  obtain s' rest where d: "pse_dump_power_data demo_pse_env (demo_pse demo_power) = Inr (0, s')"
      "s_pm s' = demo_sub @ demo_sub @ rest" "length rest = 3172" using demo_power_dump by blast
  then show ?thesis using power_report_printed [OF d(1)] demo_sub_sane(1) [OF d(3)] by auto
qed

section \<open>Full tables do not fit the page\<close>

lemma pad_length: "n \<le> length (pad n c s)"
  by (simp add: pad_def)

lemma dev_cell_length: "32 \<le> length (dev_cell d)"
proof (cases d)
  case (Pair name cnt)
  show ?thesis
    using pad_length [of 16 "CHR '' ''" "text_of name"] pad_length [of 12 "CHR '' ''" "dec (unat cnt)"]
    by (simp add: dev_cell_def Pair)
qed

lemma dev_row_length:
  assumes "length ds \<le> 4"
  shows "130 \<le> length (dev_row ds)"
proof -
  have cells: "32 * length es \<le> length (concat (map dev_cell es))" for es
  proof (induction es)
    case (Cons e es)
    then show ?case using dev_cell_length [of e] by simp
  qed simp
  show ?thesis using cells [of "ds @ replicate (4 - length ds) ([], 0)"] assms by (simp add: dev_row_def)
qed

lemma concat_length_ge: "(\<forall>l \<in> set ls. n \<le> length l) \<Longrightarrow> n * length ls \<le> length (concat ls)"
  by (induction ls) auto

lemma dev_lines_length: "130 * ((cnt + 3) div 4) \<le> length (concat (dev_lines i pm 0 cnt))"
proof -
  have "130 * length (dev_lines i pm 0 cnt) \<le> length (concat (dev_lines i pm 0 cnt))"
    by (rule concat_length_ge) (auto simp: dev_lines_def intro!: dev_row_length)
  then show ?thesis by (simp add: dev_lines_def)
qed

lemma state_line_length:
  assumes "pm_sane pm" and "i < 2" and "j < 4"
  shows "56 \<le> length (state_line i pm j)"
proof -
  obtain name dur count where st: "state_at i pm j = (name, dur, count)" by (metis surj_pair)
  obtain num frac where p: "percentage dur (total_at i pm) = Inr (num, frac)"
    using assms(1,2) by (auto simp: percentage_def pm_sane_def Let_def)
  show ?thesis
    using pad_length [of 13 "CHR '' ''" "text_of name"] pad_length [of 13 "CHR '' ''" "dec (unat dur)"]
      pad_length [of 6 "CHR '' ''" "dec (unat count)"] pad_length [of 7 "CHR '' ''" "dec (unat (ucast num :: u32))"]
      pad_length [of 6 "CHR ''0''" "dec (unat (ucast frac :: u32))"]
    by (simp add: state_line_def st p state_text_def)
qed

lemma state_lines_length:
  assumes "pm_sane pm" and "i < 2"
  shows "299 \<le> length (concat (state_lines i pm))"
proof -
  have "56 * length (map (state_line i pm) [0..<4]) \<le> length (concat (map (state_line i pm) [0..<4]))"
    by (rule concat_length_ge) (use state_line_length [OF assms] in auto)
  then have "224 \<le> length (concat (map (state_line i pm) [0..<4]))" by simp
  moreover have "20 \<le> length (''power state of '' @ pm_names ! i @ '':'' @ [newline])" using assms(2) by (auto simp: less_2_cases_iff)
  moreover have "54 \<le> length power_title" by (simp add: power_title_def)
  ultimately show ?thesis by (simp add: state_lines_def)
qed

lemma power_report_length:
  assumes "pm_sane pm"
  shows "898 + 130 * ((dev_cnt_at 0 pm + 3) div 4 + (dev_cnt_at 1 pm + 3) div 4) \<le> length (concat (power_report pm))"
proof -
  have t: "length dev_title = 130" by code_simp
  show ?thesis
    using state_lines_length [OF assms, of 0] state_lines_length [OF assms, of 1]
      dev_lines_length [of "dev_cnt_at 0 pm" 0 pm] dev_lines_length [of "dev_cnt_at 1 pm" 1 pm] t
    by (simp add: power_report_def table_lines_def)
qed

text \<open>
  C37: Full tables overrun the page.  With valid power data, as soon as the two tables together take 25 rows
  of four devices (of the 32 they can have), the read hands on a length beyond the page: what lies behind it
  in memory is copied to user space.
\<close>
theorem power_report_overrun:
  assumes "pse_dump_power_data E s = Inr (0, s')" and "pm_sane (s_pm s')"
    and "25 \<le> (dev_cnt_at 0 (s_pm s') + 3) div 4 + (dev_cnt_at 1 (s_pm s') + 3) div 4"
  shows "\<exists>addr pos. pse_power_data_read E True s = Inr (Dfs_buffer addr pos, s') \<and> pos > PAGE_SIZE"
proof -
  have "PAGE_SIZE < length (concat (power_report (s_pm s')))"
    using power_report_length [OF assms(2)] assms(3) by simp
  then show ?thesis using power_report_read [OF assms(1,2)] by (auto simp: Let_def)
qed

theorem power_report_overrun_witness:
  "\<exists>addr pos s'. pse_power_data_read demo_pse_env True (demo_pse demo_power) = Inr (Dfs_buffer addr pos, s') \<and> pos > PAGE_SIZE"
proof -
  obtain s' rest where d: "pse_dump_power_data demo_pse_env (demo_pse demo_power) = Inr (0, s')"
      "s_pm s' = demo_sub @ demo_sub @ rest" "length rest = 3172" using demo_power_dump by blast
  have "dev_cnt_at 0 (s_pm s') = 50" "dev_cnt_at 1 (s_pm s') = 50"
    using demo_sub_sane(2) [OF d(3), of 0] demo_sub_sane(2) [OF d(3), of 1] d(2) by simp_all
  then show ?thesis using power_report_overrun [OF d(1)] demo_sub_sane(1) [OF d(3)] d(2) by auto
qed

section \<open>Probe and remove\<close>

text \<open>Probe either binds the client or gives everything back.\<close>

lemma pse_probe_outcome:
  assumes "mei_pse_probe E A early1 early2 w = Inr ((ret, r), x)"
  shows "ret = 0 \<and> (\<exists>s. x = Some s \<and> s_em_open s \<and> s_sem_open s) \<and>
      r = \<lparr>r_obj = True, r_recv = True, r_pm = True, r_enabled = True, r_em = True, r_sem = True, r_dfs = a_dfs A\<rparr> \<or>
    ret \<noteq> 0 \<and> x = None \<and> r = no_res"
proof -
  note errs = pse_err_out_def pse_err_disable_def pse_err_close_def
  consider "\<not> a_obj A \<or> a_recv A = None \<or> a_pm A = None" | recv pm where "a_obj A" "a_recv A = Some recv" "a_pm A = Some pm"
    by (cases "a_recv A"; cases "a_pm A") auto
  then show ?thesis
  proof cases
    case 1
    then show ?thesis using assms(1) by (auto simp: mei_pse_probe_def split: option.splits if_splits)
  next
    case 2
    show ?thesis
    proof (cases "a_enable A < 0 \<or> a_rx_cb A \<noteq> 0")
      case True
      then show ?thesis using assms(1) 2 by (auto simp: mei_pse_probe_def errs Let_def split: if_splits)
    next
      case False
      let ?s = "new_pse recv pm w"
      obtain s1 where s1: "rx_all (mei_pse_rx E) early1 ?s = Inr s1"
        using assms(1) 2 False by (auto simp: mei_pse_probe_def bindF_eq_Inr Let_def)
      show ?thesis
      proof (cases "a_em A < 0")
        case True
        then show ?thesis using assms(1) 2 False s1 by (auto simp: mei_pse_probe_def errs Let_def)
      next
        case em: False
        obtain s2 where s2: "rx_all (mei_pse_rx E) early2 (s1\<lparr>s_em_open := True, s_em_pos := 0\<rparr>) = Inr s2"
          using assms(1) 2 False s1 em by (auto simp: mei_pse_probe_def bindF_eq_Inr Let_def)
        then have "s_em_open s2" using pse_rx.all_same [OF s2] by (simp add: pse_same_def)
        then show ?thesis using assms(1) 2 False s1 em s2 by (auto simp: mei_pse_probe_def errs Let_def split: if_splits)
      qed
    qed
  qed
qed

text \<open>A trace between the registration of the callback and the opening of its file is written through NULL.\<close>

lemma pse_early_trace:
  assumes "a_obj A" and "a_recv A = Some recv" and "a_pm A = Some pm" and "length recv = MAX_RECV_SIZE" "length pm = MAX_RECV_SIZE"
    and "0 \<le> a_enable A" and "a_rx_cb A = 0" and "CONT_OFFSET + length p \<le> MAX_RECV_SIZE"
  shows "mei_pse_probe E A [Rx_data (trace_frame 0 p)] early2 w = Inl NullDeref"
proof -
  let ?s = "new_pse recv pm w" and ?f = "trace_frame 0 p"
  have wf: "pse_wf ?s" using assms(4,5) by (simp add: pse_wf_def new_pse_def)
  have fit: "length ?f \<le> MAX_RECV_SIZE" using assms(8) by (simp add: trace_frame_def)
  have t4: "take 4 (recv_after ?f ?s) = le_bytes 4 TRACE_DATA_NOTIF" by (simp add: recv_after_def trace_frame_def)
  have src: "get_le 5 (Suc 0) (recv_after ?f ?s) = Inr (0 :: u8)"
    using recv_after_length [OF wf fit] by (simp add: get_le_def load_def recv_after_def trace_frame_def)
  have i8: "word_of_le (le_bytes 4 TRACE_DATA_NOTIF) = TRACE_DATA_NOTIF" by (rule word_of_le_le_bytes) simp
  have "mei_pse_rx E (Rx_data ?f) ?s = Inl NullDeref"
    unfolding pse_rx_data [OF wf fit] pse_handler_def t4 i8 Let_def trace_notif_def
    using src by (simp add: Let_def) (simp add: new_pse_def)
  then show ?thesis using assms by (simp add: mei_pse_probe_def)
qed

end
