(* ===== verification/Mei_Pse_Race.thy ===== *)
theory Mei_Pse_Race
  imports Mei_Pse_Laws
begin

text \<open>
  Callers of the platform services client that run at the same time.  \<open>cmd_mutex\<close> covers the sending of a
  command and the wait for its answer; \<open>pse_get_fw_ver\<close> also copies the answer under it, \<open>pse_get_time\<close>
  reads the answer after it has let the mutex go.  A step is one such section of one caller, or a message
  received between them.
\<close>

section \<open>Sections of callers\<close>

datatype caller =
    Idle
  | Time_answered            \<comment> \<open>in \<open>pse_get_time\<close>, after \<open>mutex_unlock\<close>, with the result 0\<close>
  | Time_got u64
  | Ver_got fw_version
  | Failed_with int

type_synonym 'w callers = "'w mei_pse \<times> (nat \<Rightarrow> caller)"

inductive call_step :: "'w dfs_env \<Rightarrow> 'w callers \<Rightarrow> 'w callers \<Rightarrow> bool" for E where
  time_section: "pcs i = Idle \<Longrightarrow> mei_pse_send E GET_TIME [] s = Inr (r, s') \<Longrightarrow>
     call_step E (s, pcs) (s', pcs(i := if r = 0 then Time_answered else Failed_with r))"
| time_read: "pcs i = Time_answered \<Longrightarrow> get_le 8 8 (s_notif s) = Inr t \<Longrightarrow> call_step E (s, pcs) (s, pcs(i := Time_got t))"
| version_section: "pcs i = Idle \<Longrightarrow> pse_get_fw_ver E s = Inr ((r, v), s') \<Longrightarrow>
     call_step E (s, pcs) (s', pcs(i := case v of Some v \<Rightarrow> Ver_got v | None \<Rightarrow> Failed_with r))"
| other_section: "pse_file_op E c s = Inr s' \<Longrightarrow> c \<notin> range Time_read \<union> range Fw_ver_read \<Longrightarrow> call_step E (s, pcs) (s', pcs)"
| message: "mei_pse_rx E m s = Inr s' \<Longrightarrow> call_step E (s, pcs) (s', pcs)"

inductive_cases call_stepE: "call_step E (s, pcs) (s', pcs')"

lemma fw_ver_wf: "pse_get_fw_ver E s = Inr (x, s') \<Longrightarrow> pse_wf s \<Longrightarrow> pse_wf s'"
  by (auto simp: pse_get_fw_ver_def bindF_eq_Inr split: if_splits dest: pse_send_wf)

lemma call_step_wf:
  assumes "call_step E (s, pcs) (s', pcs')" and "pse_wf s"
  shows "pse_wf s'"
  using assms by cases (auto dest: pse_send_wf fw_ver_wf pse_file_op_wf pse_rx_wf)

lemma calls_wf: "(call_step E)\<^sup>*\<^sup>* (s, pcs) (s', pcs') \<Longrightarrow> pse_wf s \<Longrightarrow> pse_wf s'"
  by (induction "(s', pcs')" arbitrary: s' pcs' rule: rtranclp_induct) (auto dest: call_step_wf)

text \<open>A successful command leaves a notification with its own id and a good status.\<close>

lemma send_answered:
  assumes "mei_pse_send E i param s = Inr (0, s')"
  shows "get_le 0 4 (s_notif s') = Inr i \<and> get_le 4 1 (s_notif s') = Inr (0 :: u8)"
proof -
  obtain ret w where send: "mei_send E (le_bytes 4 i @ param) (s_env s) = (ret, w)" by force
  have z: "sint (w :: u8) = 0 \<longleftrightarrow> w = 0" for w by (metis signed_0 signed_word_eqI)
  show ?thesis using assms send by (auto simp: mei_pse_send_def bindF_eq_Inr Let_def z split: if_splits)
qed

text \<open>What a version was read from, and what the time field of the same notification is.\<close>

definition version_time :: "fw_version \<Rightarrow> u64" where
  "version_time v = word_of_le (le_bytes 4 (ver_major v) @ le_bytes 4 (ver_minor v))"

lemma version_answered:
  assumes "pse_get_fw_ver E s = Inr ((0, Some v), s')"
  shows "get_le 0 4 (s_notif s') = Inr GET_FW_VER \<and> get_le 8 8 (s_notif s') = Inr (version_time v)"
proof -
  obtain s1 where s1: "mei_pse_send E GET_FW_VER [] s = Inr (0, s1)" and m: "get_le 8 4 (s_notif s1) = Inr (ver_major v)"
    "get_le 12 4 (s_notif s1) = Inr (ver_minor v)" and s': "s' = s1"
    using assms by (auto simp: pse_get_fw_ver_def bindF_eq_Inr split: if_splits)
  let ?n = "s_notif s1"
  have l: "16 \<le> length ?n" and a: "ver_major v = word_of_le (take 4 (drop 8 ?n))" "ver_minor v = word_of_le (take 4 (drop 12 ?n))"
    using m by (auto simp: get_le_def bindF_eq_Inr load_eq_Inr)
  have "le_bytes 4 (ver_major v) @ le_bytes 4 (ver_minor v) = take 4 (drop 8 ?n) @ take 4 (drop 12 ?n)"
    using l by (simp add: a le_bytes_word_of_le)
  also have "\<dots> = take 8 (drop 8 ?n)" using take_add [of 4 4 "drop 8 ?n"] by simp
  finally have "get_le 8 8 ?n = Inr (version_time v)" using l by (simp add: version_time_def get_le_def load_def)
  then show ?thesis using send_answered [OF s1] s' by simp
qed

text \<open>
  C38: The unlocked read of the time.  A version delivered is that of an answer to its own command, read
  under the mutex.  The time is whatever notification is there at the read: with no section between, the two
  steps are \<open>pse_get_time\<close>; but when another caller gets the version between them, the first caller's
  \<open>pse_get_time\<close> succeeds with the major and minor version as its time.
\<close>
theorem pse_time_race:
  assumes "pse_wf s" and "pcs i = Time_answered" and "pcs j = Idle" and "i \<noteq> j"
  shows "(\<forall>s0 s1 t. pse_get_time E s0 = Inr ((0, Some t), s1) \<longleftrightarrow>
       mei_pse_send E GET_TIME [] s0 = Inr (0, s1) \<and> get_le 8 8 (s_notif s1) = Inr t) \<and>
    (\<exists>t. call_step E (s, pcs) (s, pcs(i := Time_got t)) \<and> get_le 8 8 (s_notif s) = Inr t) \<and>
    (\<forall>v s'. pse_get_fw_ver E s = Inr ((0, Some v), s') \<longrightarrow>
       get_le 0 4 (s_notif s') = Inr GET_FW_VER \<and>
       (call_step E)\<^sup>*\<^sup>* (s, pcs) (s', pcs(j := Ver_got v, i := Time_got (version_time v))))"
proof (intro conjI allI impI)
  fix s0 s1 t
  show "pse_get_time E s0 = Inr ((0, Some t), s1) \<longleftrightarrow>
       mei_pse_send E GET_TIME [] s0 = Inr (0, s1) \<and> get_le 8 8 (s_notif s1) = Inr t"
    by (auto simp: pse_get_time_def bindF_eq_Inr split: if_splits)
next
  have "get_le 8 8 (s_notif s) = Inr (word_of_le (take 8 (drop 8 (s_notif s))))"
    using assms(1) by (simp add: pse_wf_def get_le_def load_def)
  then show "\<exists>t. call_step E (s, pcs) (s, pcs(i := Time_got t)) \<and> get_le 8 8 (s_notif s) = Inr t"
    using assms(2) call_step.time_read by blast
next
  fix v s'
  assume v: "pse_get_fw_ver E s = Inr ((0, Some v), s')"
  show "get_le 0 4 (s_notif s') = Inr GET_FW_VER" using version_answered [OF v] by blast
  have "call_step E (s, pcs) (s', pcs(j := Ver_got v))"
    using call_step.version_section [of pcs j E s 0 "Some v" s'] assms(3) v by simp
  moreover have "call_step E (s', pcs(j := Ver_got v)) (s', pcs(j := Ver_got v, i := Time_got (version_time v)))"
    by (rule call_step.time_read) (use assms(2,4) version_answered [OF v] in auto)
  ultimately show "(call_step E)\<^sup>*\<^sup>* (s, pcs) (s', pcs(j := Ver_got v, i := Time_got (version_time v)))"
    by (meson r_into_rtranclp rtranclp.rtrancl_into_rtrancl)
qed

text \<open>A firmware that answers with version 1.2.3.4.\<close>

definition demo_version :: bytes where
  "demo_version = le_bytes 4 GET_FW_VER @ [0, 0, 0, 0] @ le_bytes 4 (1 :: u32) @ le_bytes 4 (2 :: u32) @ le_bytes 4 (3 :: u32) @ le_bytes 4 (4 :: u32)"

lemma demo_version_rx:
  assumes "pse_wf s" and "s_done s = 0"
  shows "\<exists>s'. mei_pse_rx E (Rx_data demo_version) s = Inr s' \<and> s_notif s' = demo_version \<and> s_done s' = 1"
proof -
  have l: "length demo_version = 24" by (simp add: demo_version_def)
  have "take 4 (recv_after demo_version s) = le_bytes 4 GET_FW_VER" by (simp add: recv_after_def demo_version_def)
  then have "mei_pse_rx E (Rx_data demo_version) s = response_notif 24 (s\<lparr>s_recv := recv_after demo_version s\<rparr>)"
    using pse_rx_data [OF assms(1), of demo_version E] l by (simp add: pse_handler_def pse_responses_def word_of_le_le_bytes Let_def)
  then show ?thesis using assms l
    by (simp add: response_notif_def load_def store_def recv_after_def pse_wf_def complete_def)
qed

lemma demo_version_read:
  "\<exists>s'. pse_get_fw_ver demo_pse_env (demo_pse [[Rx_data demo_version]]) =
     Inr ((0, Some \<lparr>ver_major = 1, ver_minor = 2, ver_hotfix = 3, ver_build = 4\<rparr>), s')"
proof -
  let ?s = "(demo_pse [[Rx_data demo_version]])\<lparr>s_done := 0, s_sent := [le_bytes 4 GET_FW_VER], s_env := []\<rparr>"
  have "pse_wf ?s" using demo_pse_wf [of "[[Rx_data demo_version]]"] by (simp add: pse_wf_def)
  then obtain s1 where s1: "mei_pse_rx demo_pse_env (Rx_data demo_version) ?s = Inr s1" "s_notif s1 = demo_version" "s_done s1 = 1"
    using demo_version_rx [of ?s demo_pse_env] by auto
  have "mei_pse_send demo_pse_env GET_FW_VER [] (demo_pse [[Rx_data demo_version]]) = Inr (0, s1\<lparr>s_done := 0\<rparr>)"
    using s1 by (simp add: mei_pse_send_def pse_wait_def demo_pse_env_def scripted_mei_def mei_env.extend_def demo_pse_def new_pse_def
        get_le_def load_def demo_version_def word_of_le_le_bytes)
  then show ?thesis
    by (simp add: pse_get_fw_ver_def s1(2) demo_version_def get_le_def load_def word_of_le_le_bytes)
qed

theorem pse_time_race_witness:
  "\<exists>s'. (call_step demo_pse_env)\<^sup>*\<^sup>* (demo_pse [[Rx_data demo_version]], (\<lambda>_. Idle)(0 := Time_answered))
     (s', (\<lambda>_. Idle)(0 := Time_answered, 1 := Ver_got \<lparr>ver_major = 1, ver_minor = 2, ver_hotfix = 3, ver_build = 4\<rparr>, 0 := Time_got 0x200000001))"
proof -
  obtain s' where s': "pse_get_fw_ver demo_pse_env (demo_pse [[Rx_data demo_version]]) =
     Inr ((0, Some \<lparr>ver_major = 1, ver_minor = 2, ver_hotfix = 3, ver_build = 4\<rparr>), s')"
    using demo_version_read by blast
  have "version_time \<lparr>ver_major = 1, ver_minor = 2, ver_hotfix = 3, ver_build = 4\<rparr> = 0x200000001"
    unfolding version_time_def by code_simp
  moreover have "((\<lambda>_. Idle)(0 := Time_answered)) (0 :: nat) = Time_answered" "((\<lambda>_. Idle)(0 := Time_answered)) (1 :: nat) = Idle" "(0 :: nat) \<noteq> 1"
    by simp_all
  ultimately show ?thesis
    using pse_time_race [where s = "demo_pse [[Rx_data demo_version]]" and E = demo_pse_env and pcs = "(\<lambda>_. Idle)(0 := Time_answered)"
        and i = 0 and j = 1, OF demo_pse_wf] s' by auto
qed

end
