(* ===== verification/Ljca_Irq.thy ===== *)
theory Ljca_Irq
  imports Ljca_Gpio
begin

text \<open>
  The interrupt chip of \<^verbatim>\<open>drivers/gpio/gpio-ljca.c\<close> under concurrent use.

  The interrupt core brackets \<open>irq_mask\<close>, \<open>irq_unmask\<close> and \<open>irq_set_type\<close> of a pin between \<open>irq_bus_lock\<close>
  and \<open>irq_bus_sync_unlock\<close>, which hold \<open>irq_lock\<close>.  The event callback and the work that re-enables
  interrupts take no part in that lock; the work looks at the unmasked bit of a pin and then sends the command.
  A step is one of these pieces; the states reached are those of all their interleavings.
\<close>

section \<open>The remaining operations of the chip\<close>

text \<open>\<open>irq_lock\<close> is the pin of the caller that holds it; \<open>None\<close> as a result is a caller that has to wait.\<close>

definition ljca_irq_bus_lock :: "nat \<Rightarrow> nat option \<Rightarrow> nat option option" where
  "ljca_irq_bus_lock gpio_id irq_lock = (case irq_lock of None \<Rightarrow> Some (Some gpio_id) | Some _ \<Rightarrow> None)"

text \<open>The result of \<open>irq_startup\<close> is unsigned: an error number of gpiolib is cut to 32 bits.\<close>

definition ljca_irq_startup :: "(nat \<Rightarrow> 'k \<Rightarrow> int \<times> 'k) \<Rightarrow> nat \<Rightarrow> 'k \<Rightarrow> u32 \<times> 'k" where
  "ljca_irq_startup gpiochip_lock_as_irq gpio_id chip =
     (let (ret, chip) = gpiochip_lock_as_irq gpio_id chip in (of_int ret, chip))"

definition ljca_irq_shutdown :: "(nat \<Rightarrow> 'k \<Rightarrow> 'k) \<Rightarrow> nat \<Rightarrow> 'k \<Rightarrow> 'k" where
  "ljca_irq_shutdown gpiochip_unlock_as_irq gpio_id chip = gpiochip_unlock_as_irq gpio_id chip"

section \<open>Interleavings\<close>

record 'w irq_world =
  w_gpio :: ljca_gpio_dev
  w_dev :: "'w ljca_dev"
  w_lock :: "nat option"        \<comment> \<open>\<open>irq_lock\<close>\<close>
  w_work :: "nat option"        \<comment> \<open>the pin the work has found unmasked and is about to enable\<close>

text \<open>The body of the loop of \<open>ljca_gpio_async\<close>, up to the command.\<close>

definition async_test :: "nat \<Rightarrow> ljca_gpio_dev \<Rightarrow> (bool \<times> ljca_gpio_dev) result" where
  "async_test i g =
     bindF (test_bitF (int i) (g_reenable g)) (\<lambda>b.
     if \<not> b then Inr (False, g)
     else
       bindF (clear_bitF (int i) (g_reenable g)) (\<lambda>m.
       bindF (test_bitF (int i) (g_unmasked g)) (\<lambda>unmasked. Inr (unmasked, g\<lparr>g_reenable := m\<rparr>))))"

lemma async_body:
  "gpio_async_loop xfer (i # is) g s =
     bindF (async_test i g) (\<lambda>(go, g).
     if go then bindF (ljca_enable_irq xfer g (int i) True s) (\<lambda>(ret, g, s). gpio_async_loop xfer is g s)
     else gpio_async_loop xfer is g s)"
  by (auto simp: async_test_def test_bitF_def clear_bitF_def)

inductive irq_step :: "'w usb_env \<Rightarrow> platform_device \<Rightarrow> 'w irq_world \<Rightarrow> 'w irq_world \<Rightarrow> bool" for E p where
  lock: "k < g_num (w_gpio c) \<Longrightarrow> ljca_irq_bus_lock k (w_lock c) = Some l \<Longrightarrow> irq_step E p c (c\<lparr>w_lock := l\<rparr>)"
| mask: "w_lock c = Some k \<Longrightarrow> ljca_irq_mask k (w_gpio c) = Inr g \<Longrightarrow> irq_step E p c (c\<lparr>w_gpio := g\<rparr>)"
| unmask: "w_lock c = Some k \<Longrightarrow> ljca_irq_unmask k (w_gpio c) = Inr g \<Longrightarrow> irq_step E p c (c\<lparr>w_gpio := g\<rparr>)"
| set_type: "w_lock c = Some k \<Longrightarrow> ljca_irq_set_type k ty (w_gpio c) = Inr (r, g) \<Longrightarrow> irq_step E p c (c\<lparr>w_gpio := g\<rparr>)"
| sync_unlock: "w_lock c = Some k \<Longrightarrow> ljca_irq_bus_unlock (ljca_transfer E (Some p)) k (w_gpio c) (w_dev c) = Inr (g, d) \<Longrightarrow>
     irq_step E p c (c\<lparr>w_gpio := g, w_dev := d, w_lock := None\<rparr>)"
| event: "ljca_gpio_event_cb mapping cmd evt (w_gpio c) = Inr g \<Longrightarrow> irq_step E p c (c\<lparr>w_gpio := g\<rparr>)"
| work_test: "w_work c = None \<Longrightarrow> k < g_num (w_gpio c) \<Longrightarrow> async_test k (w_gpio c) = Inr (go, g) \<Longrightarrow>
     irq_step E p c (c\<lparr>w_gpio := g, w_work := if go then Some k else None\<rparr>)"
| work_enable: "w_work c = Some k \<Longrightarrow> ljca_enable_irq (ljca_transfer E (Some p)) (w_gpio c) (int k) True (w_dev c) = Inr (r, g, d) \<Longrightarrow>
     irq_step E p c (c\<lparr>w_gpio := g, w_dev := d, w_work := None\<rparr>)"

inductive irq_reach :: "'w usb_env \<Rightarrow> platform_device \<Rightarrow> 'w irq_world \<Rightarrow> bool" for E p where
  probed: "gpio_wf g \<Longrightarrow> g_enabled g = 0 \<Longrightarrow> g_unmasked g = 0 \<Longrightarrow> g_reenable g = 0 \<Longrightarrow>
     irq_reach E p \<lparr>w_gpio = g, w_dev = d, w_lock = None, w_work = None\<rparr>"
| step: "irq_reach E p c \<Longrightarrow> irq_step E p c c' \<Longrightarrow> irq_reach E p c'"

section \<open>The invariant\<close>

text \<open>The enabled bits follow the unmasked bits, but for the pin whose section is open.\<close>

definition irq_synced :: "'w irq_world \<Rightarrow> bool" where
  "irq_synced c \<longleftrightarrow> gpio_wf (w_gpio c) \<and> (\<forall>k. w_lock c = Some k \<longrightarrow> k < g_num (w_gpio c)) \<and>
     (\<forall>j. w_lock c \<noteq> Some j \<longrightarrow> bit (g_enabled (w_gpio c)) j = bit (g_unmasked (w_gpio c)) j)"

lemma mask_frames:
  "ljca_irq_mask k g = Inr g' \<Longrightarrow> g' = g\<lparr>g_unmasked := unset_bit k (g_unmasked g)\<rparr>"
  "ljca_irq_unmask k g = Inr g' \<Longrightarrow> g' = g\<lparr>g_unmasked := set_bit k (g_unmasked g)\<rparr>"
  by (auto simp: ljca_irq_mask_def ljca_irq_unmask_def set_bitF_def clear_bitF_def split: if_splits)

lemma set_type_frame:
  assumes "ljca_irq_set_type k ty g = Inr (r, g')"
  shows "\<exists>m. g' = g\<lparr>g_connect_mode := m\<rparr> \<and> length m = length (g_connect_mode g)"
proof -
  have s: "\<exists>m. h' = h\<lparr>g_connect_mode := m\<rparr> \<and> length m = length (g_connect_mode h)" if "set_mode i x h = Inr h'" for i x h h'
    using that by (auto simp: set_mode_def split: if_splits)
  obtain g1 mode where g1: "set_mode (int k) GPIO_CONF_INTERRUPT g = Inr g1" and "g' = g1 \<or> (\<exists>x. set_mode (int k) x g1 = Inr g')"
    using assms by (cases ty) (auto simp: ljca_irq_set_type_def bindF_eq_Inr)
  then show ?thesis using s [OF g1] by (auto dest!: s)
qed

lemma event_items_frame:
  assumes "gpio_event_items mapping evt is g = Inr (a, g')"
  shows "g_num g' = g_num g \<and> g_enabled g' = g_enabled g \<and> g_unmasked g' = g_unmasked g \<and> g_obuf g' = g_obuf g \<and>
    g_connect_mode g' = g_connect_mode g"
  using assms by (induction "is" arbitrary: g) (auto simp: bindF_eq_Inr Let_def split: if_splits)

lemma event_frame:
  assumes "ljca_gpio_event_cb mapping cmd evt g = Inr g'"
  shows "g_num g' = g_num g \<and> g_enabled g' = g_enabled g \<and> g_unmasked g' = g_unmasked g \<and> g_obuf g' = g_obuf g \<and>
    g_connect_mode g' = g_connect_mode g"
  using assms by (auto simp: ljca_gpio_event_cb_def bindF_eq_Inr split: if_splits dest!: event_items_frame)

lemma async_test_frame:
  "async_test k g = Inr (go, g') \<Longrightarrow> \<exists>m. g' = g\<lparr>g_reenable := m\<rparr> \<and> (go \<longrightarrow> bit (g_unmasked g) k)"
  by (auto simp: async_test_def test_bitF_def clear_bitF_def split: if_splits intro: exI [of _ "g_reenable g"])

lemma irq_step_synced:
  assumes "irq_step E p c c'" and "irq_synced c"
  shows "irq_synced c'"
  using assms(1)
proof cases
  case (lock k l)
  then have "w_lock c = None" "l = Some k" by (auto simp: ljca_irq_bus_lock_def split: option.splits)
  then show ?thesis using lock assms(2) by (auto simp: irq_synced_def)
next
  case (mask k g)
  then show ?thesis using mask_frames(1) [OF mask(3)] assms(2) by (auto simp: irq_synced_def gpio_wf_def bit_unset_bit_iff)
next
  case (unmask k g)
  then show ?thesis using mask_frames(2) [OF unmask(3)] assms(2) by (auto simp: irq_synced_def gpio_wf_def bit_set_bit_iff)
next
  case (set_type k ty r g)
  then show ?thesis using set_type_frame [OF set_type(3)] assms(2) by (auto simp: irq_synced_def gpio_wf_def)
next
  case (sync_unlock k g d)
  have wf: "gpio_wf (w_gpio c)" "k < g_num (w_gpio c)" using assms(2) sync_unlock by (auto simp: irq_synced_def)
  note u = ljca.bus_unlock_cases [OF sync_unlock(3) wf]
  then have "gpio_wf g" "g_unmasked g = g_unmasked (w_gpio c)" using gpio_same_wf wf by (auto simp: gpio_same_def)
  then show ?thesis using u sync_unlock assms(2) by (auto simp: irq_synced_def)
next
  case (event mapping cmd evt g)
  then show ?thesis using event_frame [OF event(2)] assms(2) by (auto simp: irq_synced_def gpio_wf_def)
next
  case (work_test k go g)
  then show ?thesis using async_test_frame [OF work_test(4)] assms(2) by (auto simp: irq_synced_def gpio_wf_def)
next
  case (work_enable k r g d)
  have wf: "gpio_wf (w_gpio c)" using assms(2) by (simp add: irq_synced_def)
  note e = ljca.enable_irq_cases [OF work_enable(3) wf]
  then have "gpio_wf g" using gpio_same_wf wf by blast
  then show ?thesis using e work_enable assms(2) by (auto simp: irq_synced_def gpio_same_def)
qed

lemma irq_reach_synced: "irq_reach E p c \<Longrightarrow> irq_synced c"
proof (induction rule: irq_reach.induct)
  case (probed g d)
  then show ?case by (simp add: irq_synced_def)
next
  case (step c c')
  then show ?case using irq_step_synced by blast
qed

section \<open>A command that comes too late\<close>

context ljca_bus
begin

lemma enable_irq_sent:
  assumes "ljca_enable_irq xfer g k e s = Inr (0, g', s')" and "gpio_wf g"
  shows "sent s' = sent s @ [(if e then GPIO_INT_UNMASK else GPIO_INT_MASK, [1, of_int k, 0])]"
  using assms xfer_sent by (auto simp: ljca_enable_irq_def bindF_eq_Inr gpio_wf_def take_item split: if_splits)

end

text \<open>
  C13: Interrupt masking under concurrency.  Whatever the order in which callers of the chip, events and the
  re-enabling work run, the enabled bits equal the unmasked bits whenever no \<open>irq_lock\<close> section is open.  The device
  need not agree: the work tests the unmasked bit without the lock, so when the pin it has just found unmasked
  is masked by a complete section before its command goes out, the driver ends with the interrupt masked and disabled
  while the last command the device has received for its pins is to unmask it.
\<close>
theorem irq_reenable_race:
  assumes "irq_reach E p c" and "w_lock c = None"
  shows "(\<forall>j. bit (g_enabled (w_gpio c)) j = bit (g_unmasked (w_gpio c)) j) \<and>
    (\<forall>k g1 g2 d2 g3 d3. w_work c = Some k \<and> k < g_num (w_gpio c) \<and> ljca_irq_mask k (w_gpio c) = Inr g1 \<and>
       ljca_irq_bus_unlock (ljca_transfer E (Some p)) k g1 (w_dev c) = Inr (g2, d2) \<and>
       ljca_enable_irq (ljca_transfer E (Some p)) g2 (int k) True d2 = Inr (0, g3, d3) \<longrightarrow>
       irq_reach E p \<lparr>w_gpio = g3, w_dev = d3, w_lock = None, w_work = None\<rparr> \<and>
       \<not> bit (g_unmasked g3) k \<and> \<not> bit (g_enabled g3) k \<and>
       bus_sent (pd_type (pdev_platdata p)) d3 =
         bus_sent (pd_type (pdev_platdata p)) d2 @ [(GPIO_INT_UNMASK, [1, of_nat k, 0])])"
proof (intro conjI allI impI)
  fix j
  show "bit (g_enabled (w_gpio c)) j = bit (g_unmasked (w_gpio c)) j"
    using irq_reach_synced [OF assms(1)] assms(2) by (simp add: irq_synced_def)
next
  fix k g1 g2 d2 g3 d3
  assume "w_work c = Some k \<and> k < g_num (w_gpio c) \<and> ljca_irq_mask k (w_gpio c) = Inr g1 \<and>
       ljca_irq_bus_unlock (ljca_transfer E (Some p)) k g1 (w_dev c) = Inr (g2, d2) \<and>
       ljca_enable_irq (ljca_transfer E (Some p)) g2 (int k) True d2 = Inr (0, g3, d3)"
  then have k: "w_work c = Some k" "k < g_num (w_gpio c)" and m: "ljca_irq_mask k (w_gpio c) = Inr g1"
    and u: "ljca_irq_bus_unlock (ljca_transfer E (Some p)) k g1 (w_dev c) = Inr (g2, d2)"
    and e: "ljca_enable_irq (ljca_transfer E (Some p)) g2 (int k) True d2 = Inr (0, g3, d3)" by auto
  let ?c1 = "c\<lparr>w_lock := Some k\<rparr>"
  let ?c2 = "?c1\<lparr>w_gpio := g1\<rparr>"
  let ?c3 = "?c2\<lparr>w_gpio := g2, w_dev := d2, w_lock := None\<rparr>"
  let ?c4 = "?c3\<lparr>w_gpio := g3, w_dev := d3, w_work := None\<rparr>"
  have "irq_step E p c ?c1" by (rule irq_step.lock [OF k(2)]) (simp add: ljca_irq_bus_lock_def assms(2))
  moreover have "irq_step E p ?c1 ?c2" by (rule irq_step.mask [where k = k]) (use m in auto)
  moreover have "irq_step E p ?c2 ?c3" by (rule irq_step.sync_unlock [where k = k]) (use u in auto)
  moreover have "irq_step E p ?c3 ?c4" by (rule irq_step.work_enable [where k = k and r = 0]) (use k e in auto)
  ultimately have r2: "irq_reach E p ?c2" and r4: "irq_reach E p ?c4" using assms(1) irq_reach.step by blast+
  then show "irq_reach E p \<lparr>w_gpio = g3, w_dev = d3, w_lock = None, w_work = None\<rparr>" by (cases c) simp
  have wf: "gpio_wf g1" "k < g_num g1" using irq_reach_synced [OF r2] by (simp_all add: irq_synced_def)
  note uu = ljca.bus_unlock_cases [OF u wf]
  then have wf2: "gpio_wf g2" using gpio_same_wf wf by blast
  note ee = ljca.enable_irq_cases [OF e wf2]
  have "\<not> bit (g_unmasked g1) k" using mask_frames(1) [OF m] by (simp add: bit_unset_bit_iff)
  then show "\<not> bit (g_unmasked g3) k" "\<not> bit (g_enabled g3) k" using uu ee by (auto simp: gpio_same_def)
  show "bus_sent (pd_type (pdev_platdata p)) d3 =
      bus_sent (pd_type (pdev_platdata p)) d2 @ [(GPIO_INT_UNMASK, [1, of_nat k, 0])]"
    using ljca.enable_irq_sent [OF e wf2] by simp
qed

text \<open>Pin 5 is unmasked, an event marks it, the work finds it unmasked, and it is masked before the work's command.\<close>

definition demo_race :: "((bool \<times> bool \<times> int) \<times> urb list list ljca_dev) result" where
  "demo_race =
     (let x = ljca_transfer scripted_usb (Some demo_pdev);
          d0 = demo_dev [[gpio_ack 2 [1, 5, 0]], [gpio_ack 6 [1, 5, 0]], [gpio_ack 5 [1, 5, 0]], [gpio_ack 6 [1, 5, 0]]] in
      bindF (ljca_irq_unmask 5 demo_gpio) (\<lambda>g1.
      bindF (ljca_irq_bus_unlock x 5 g1 d0) (\<lambda>(g2, d1).
      bindF (ljca_gpio_event_cb (\<lambda>i. Suc i) GPIO_INT_EVENT [1, 5, 0] g2) (\<lambda>g3.
      bindF (async_test 5 g3) (\<lambda>(go, g4).
      bindF (ljca_irq_mask 5 g4) (\<lambda>g5.
      bindF (ljca_irq_bus_unlock x 5 g5 d1) (\<lambda>(g6, d2).
      bindF (ljca_enable_irq x g6 5 True d2) (\<lambda>(r, g7, d3). Inr ((go, g_num g4 = 8, r), d3)))))))))"

lemma demo_race_runs: "value_of demo_race = Inr (True, True, 0)"
  by code_simp

theorem irq_reenable_race_witness:
  "\<exists>g d cs. irq_reach scripted_usb demo_pdev \<lparr>w_gpio = g, w_dev = d, w_lock = None, w_work = None\<rparr> \<and>
     \<not> bit (g_unmasked g) 5 \<and> \<not> bit (g_enabled g) 5 \<and> bus_sent GPIO_STUB d = cs @ [(GPIO_INT_UNMASK, [1, 5, 0])]"
proof -
  let ?x = "ljca_transfer scripted_usb (Some demo_pdev)"
  let ?d0 = "demo_dev [[gpio_ack 2 [1, 5, 0]], [gpio_ack 6 [1, 5, 0]], [gpio_ack 5 [1, 5, 0]], [gpio_ack 6 [1, 5, 0]]]"
  obtain g1 g2 d1 g3 g4 g5 g6 d2 g7 d3 where
    s: "ljca_irq_unmask 5 demo_gpio = Inr g1" "ljca_irq_bus_unlock ?x 5 g1 ?d0 = Inr (g2, d1)"
      "ljca_gpio_event_cb (\<lambda>i. Suc i) GPIO_INT_EVENT [1, 5, 0] g2 = Inr g3" "async_test 5 g3 = Inr (True, g4)"
    and m: "g_num g4 = 8" "ljca_irq_mask 5 g4 = Inr g5" "ljca_irq_bus_unlock ?x 5 g5 d1 = Inr (g6, d2)"
      "ljca_enable_irq ?x g6 (int 5) True d2 = Inr (0, g7, d3)"
    using demo_race_runs by (auto simp: demo_race_def Let_def value_of_Inr bindF_eq_Inr)
  let ?c0 = "\<lparr>w_gpio = demo_gpio, w_dev = ?d0, w_lock = None, w_work = None\<rparr>"
  let ?c5 = "\<lparr>w_gpio = g4, w_dev = d1, w_lock = None, w_work = Some 5\<rparr>"
  have n: "g_num g3 = 8" using m(1) async_test_frame [OF s(4)] by auto
  have "irq_reach scripted_usb demo_pdev ?c0"
    by (rule irq_reach.probed) (simp_all add: demo_gpio_def gpio_wf_def)
  moreover have "irq_step scripted_usb demo_pdev ?c0 (?c0\<lparr>w_lock := Some 5\<rparr>)"
    by (rule irq_step.lock [where k = 5]) (simp_all add: ljca_irq_bus_lock_def demo_gpio_def)
  moreover have "irq_step scripted_usb demo_pdev (?c0\<lparr>w_lock := Some 5\<rparr>) (?c0\<lparr>w_lock := Some 5, w_gpio := g1\<rparr>)"
    using irq_step.unmask [where k = 5 and c = "?c0\<lparr>w_lock := Some 5\<rparr>" and g = g1] s(1) by simp
  moreover have "irq_step scripted_usb demo_pdev (?c0\<lparr>w_lock := Some 5, w_gpio := g1\<rparr>) (?c0\<lparr>w_gpio := g2, w_dev := d1\<rparr>)"
    using irq_step.sync_unlock [where k = 5 and c = "?c0\<lparr>w_lock := Some 5, w_gpio := g1\<rparr>" and g = g2 and d = d1] s(2) by simp
  moreover have "irq_step scripted_usb demo_pdev (?c0\<lparr>w_gpio := g2, w_dev := d1\<rparr>) (?c0\<lparr>w_gpio := g3, w_dev := d1\<rparr>)"
    using irq_step.event [where c = "?c0\<lparr>w_gpio := g2, w_dev := d1\<rparr>" and g = g3] s(3) by simp
  moreover have "irq_step scripted_usb demo_pdev (?c0\<lparr>w_gpio := g3, w_dev := d1\<rparr>) ?c5"
    using irq_step.work_test [where k = 5 and c = "?c0\<lparr>w_gpio := g3, w_dev := d1\<rparr>" and go = True and g = g4] s(4) n by simp
  ultimately have r: "irq_reach scripted_usb demo_pdev ?c5" by (meson irq_reach.step)
  have "w_lock ?c5 = None" "w_work ?c5 = Some 5 \<and> 5 < g_num (w_gpio ?c5) \<and> ljca_irq_mask 5 (w_gpio ?c5) = Inr g5 \<and>
      ljca_irq_bus_unlock ?x 5 g5 (w_dev ?c5) = Inr (g6, d2) \<and> ljca_enable_irq ?x g6 (int 5) True d2 = Inr (0, g7, d3)"
    using m by simp_all
  with irq_reenable_race [OF r] show ?thesis by (fastforce simp: demo_pdev_def)
qed

end
