(* ===== verification/Vsc_World.thy ===== *)
theory Vsc_World
  imports Mei_Csi Mei_Ace
begin

text \<open>
  The hub, the two firmware clients and the camera driver put together.

  The first part places the two client objects in memory (an access through a pointer whose object
  was freed faults), builds the operation tables the clients register, and discharges the hub's
  contract \<open>vsc_clients\<close> for them; what acquire and release send follows.  The second part is the
  interleaving of callers of acquire and release with probe and remove of the clients: a caller
  passes \<open>check_component_ready\<close> first and takes \<open>vsc.mutex\<close> later.
\<close>

section \<open>The objects of the clients\<close>

record 'w vsc_world =
  wd_csi :: "(nat \<times> 'w mei_csi) option"
  wd_ace :: "(nat \<times> 'w mei_ace) option"

text \<open>A method call on the object at address \<open>p\<close>.\<close>

definition with_csi ::
  "nat \<Rightarrow> ('w mei_csi \<Rightarrow> ('r \<times> 'w mei_csi) result) \<Rightarrow> 'w vsc_world \<Rightarrow> ('r \<times> 'w vsc_world) result" where
  "with_csi p f s =
     (case wd_csi s of
        None \<Rightarrow> Inl UseAfterFree
      | Some (q, c) \<Rightarrow> if q \<noteq> p then Inl UseAfterFree
                      else bindF (f c) (\<lambda>(r, c). Inr (r, s\<lparr>wd_csi := Some (q, c)\<rparr>)))"

definition with_ace ::
  "nat \<Rightarrow> ('w mei_ace \<Rightarrow> ('r \<times> 'w mei_ace) result) \<Rightarrow> 'w vsc_world \<Rightarrow> ('r \<times> 'w vsc_world) result" where
  "with_ace p f s =
     (case wd_ace s of
        None \<Rightarrow> Inl UseAfterFree
      | Some (q, a) \<Rightarrow> if q \<noteq> p then Inl UseAfterFree
                      else bindF (f a) (\<lambda>(r, a). Inr (r, s\<lparr>wd_ace := Some (q, a)\<rparr>)))"

definition w_set_owner :: "'w mei_env \<Rightarrow> nat \<Rightarrow> csi_owner \<Rightarrow> 'w vsc_world \<Rightarrow> (int \<times> 'w vsc_world) result" where
  "w_set_owner E p w = with_csi p (csi_set_owner E w)"

definition w_set_mipi ::
  "'w mei_env \<Rightarrow> bytes \<Rightarrow> nat \<Rightarrow> mipi_conf \<Rightarrow> 'w vsc_world \<Rightarrow> (int \<times> 'w vsc_world) result" where
  "w_set_mipi E stack p m = with_csi p (csi_set_mipi_conf E stack m)"

definition w_set_cb :: "nat \<Rightarrow> nat option \<Rightarrow> nat \<Rightarrow> 'w vsc_world \<Rightarrow> 'w vsc_world result" where
  "w_set_cb p cb h s =
     bindF (with_csi p (\<lambda>c. Inr ((), csi_set_privacy_callback cb h c)) s) (\<lambda>(_, s). Inr s)"

definition w_ipu_own ::
  "'w mei_env \<Rightarrow> nat \<Rightarrow> 'w vsc_world \<Rightarrow> ((int \<times> camera_status option) \<times> 'w vsc_world) result" where
  "w_ipu_own E p = with_ace p (ipu_own_camera E)"

definition w_ace_own ::
  "'w mei_env \<Rightarrow> nat \<Rightarrow> 'w vsc_world \<Rightarrow> ((int \<times> camera_status option) \<times> 'w vsc_world) result" where
  "w_ace_own E p = with_ace p (ace_own_camera E)"

definition csi_ops_of :: "'w mei_env \<Rightarrow> bytes \<Rightarrow> 'w vsc_world vsc_csi_ops" where
  "csi_ops_of E stack = \<lparr>op_set_owner = Some (w_set_owner E), op_set_mipi_conf = Some (w_set_mipi E stack),
                         op_set_privacy_callback = Some w_set_cb\<rparr>"

definition ace_ops_of :: "'w mei_env \<Rightarrow> 'w vsc_world vsc_ace_ops" where
  "ace_ops_of E = \<lparr>op_ace_own_camera = Some (w_ace_own E), op_ipu_own_camera = Some (w_ipu_own E)\<rparr>"

text \<open>What was sent to each client and the callback installed, in a world.\<close>

definition w_csi_sent :: "'w vsc_world \<Rightarrow> bytes list" where
  "w_csi_sent s = (case wd_csi s of None \<Rightarrow> [] | Some (_, c) \<Rightarrow> c_sent c)"

definition w_csi_cb :: "'w vsc_world \<Rightarrow> nat option \<times> nat" where
  "w_csi_cb s = (case wd_csi s of None \<Rightarrow> (None, 0) | Some (_, c) \<Rightarrow> (c_callback c, c_handle c))"

definition w_ace_sent :: "'w vsc_world \<Rightarrow> u8 list" where
  "w_ace_sent s = (case wd_ace s of None \<Rightarrow> [] | Some (_, a) \<Rightarrow> ace_commands a)"

section \<open>The clients keep the hub's contract\<close>

lemma with_csi_Inr:
  "with_csi p f s = Inr (r, s') \<longleftrightarrow>
     (\<exists>c c'. wd_csi s = Some (p, c) \<and> f c = Inr (r, c') \<and> s' = s\<lparr>wd_csi := Some (p, c')\<rparr>)"
  by (auto simp: with_csi_def bindF_eq_Inr split: option.splits if_splits)

lemma with_ace_Inr:
  "with_ace p f s = Inr (r, s') \<longleftrightarrow>
     (\<exists>a a'. wd_ace s = Some (p, a) \<and> f a = Inr (r, a') \<and> s' = s\<lparr>wd_ace := Some (p, a')\<rparr>)"
  by (auto simp: with_ace_def bindF_eq_Inr split: option.splits if_splits)

lemmas world_simps = w_set_owner_def w_set_mipi_def w_set_cb_def w_ipu_own_def w_ace_own_def
  w_csi_sent_def w_csi_cb_def w_ace_sent_def with_csi_Inr with_ace_Inr

lemma own_camera_laws:
  assumes "set_camera_ownership E c a = Inr ((r, st), a')" and "c \<noteq> GET_FW_ID"
  shows "ace_commands a' = ace_commands a \<or> ace_commands a' = ace_commands a @ [c]"
    and "r = 0 \<Longrightarrow> st \<noteq> None \<and> ace_commands a' = ace_commands a @ [c]"
  using set_camera_ownership_any [OF assms] by auto

interpretation world: vsc_clients "w_set_owner E" "w_set_mipi E stack" w_set_cb w_csi_sent w_csi_cb
  "w_ipu_own E" "w_ace_own E" w_ace_sent
  for E :: "'w mei_env" and stack :: bytes
proof unfold_locales
  fix c w m cb h a and s s' :: "'w vsc_world" and r cs
  show "w_csi_cb s' = w_csi_cb s \<and> (w_csi_sent s' = w_csi_sent s \<or> w_csi_sent s' = w_csi_sent s @ [csi_owner_cmd w])"
    if "w_set_owner E c w s = Inr (r, s')" using that by (auto simp: world_simps dest: csi.owner_any)
  show "w_csi_sent s' = w_csi_sent s @ [csi_owner_cmd w]" if "w_set_owner E c w s = Inr (0, s')"
    using that by (auto simp: world_simps dest: csi.owner_ok)
  show "w_csi_cb s' = w_csi_cb s \<and> (w_csi_sent s' = w_csi_sent s \<or> (\<exists>z. w_csi_sent s' = w_csi_sent s @ [csi_mipi_cmd m z]))"
    if "w_set_mipi E stack c m s = Inr (r, s')" using that by (auto simp: world_simps dest!: csi.mipi_any)
  show "\<exists>z. w_csi_sent s' = w_csi_sent s @ [csi_mipi_cmd m z]" if "w_set_mipi E stack c m s = Inr (0, s')"
    using that by (auto simp: world_simps dest: csi.mipi_ok)
  show "w_csi_cb s' = (cb, h) \<and> w_csi_sent s' = w_csi_sent s" if "w_set_cb c cb h s = Inr s'"
    using that by (auto simp: world_simps bindF_eq_Inr csi_set_privacy_callback_def)
  show "w_csi_cb s' = w_csi_cb s \<and> w_csi_sent s' = w_csi_sent s \<and>
      (w_ace_sent s' = w_ace_sent s \<or> w_ace_sent s' = w_ace_sent s @ [IPU_OWN_CAMERA])"
    if "w_ipu_own E a s = Inr ((r, cs), s')"
    using that by (auto simp: world_simps ipu_own_camera_def dest: own_camera_laws(1))
  show "cs \<noteq> None \<and> w_ace_sent s' = w_ace_sent s @ [IPU_OWN_CAMERA]" if "w_ipu_own E a s = Inr ((0, cs), s')"
    using that by (auto simp: world_simps ipu_own_camera_def dest: own_camera_laws(2))
  show "w_csi_cb s' = w_csi_cb s \<and> w_csi_sent s' = w_csi_sent s \<and>
      (w_ace_sent s' = w_ace_sent s \<or> w_ace_sent s' = w_ace_sent s @ [ACE_OWN_CAMERA])"
    if "w_ace_own E a s = Inr ((r, cs), s')"
    using that by (auto simp: world_simps ace_own_camera_def dest: own_camera_laws(1))
  show "cs \<noteq> None \<and> w_ace_sent s' = w_ace_sent s @ [ACE_OWN_CAMERA]" if "w_ace_own E a s = Inr ((0, cs), s')"
    using that by (auto simp: world_simps ace_own_camera_def dest: own_camera_laws(2))
  show "w_ace_sent s' = w_ace_sent s" if "w_set_owner E c w s = Inr (r, s')"
    using that by (auto simp: world_simps)
  show "w_ace_sent s' = w_ace_sent s" if "w_set_mipi E stack c m s = Inr (r, s')"
    using that by (auto simp: world_simps)
  show "w_ace_sent s' = w_ace_sent s" if "w_set_cb c cb h s = Inr s'"
    using that by (auto simp: world_simps bindF_eq_Inr)
qed


section \<open>Properties of acquire and release\<close>

text \<open>The hub with both firmware clients registered, their objects at \<open>c\<close> and \<open>a\<close>.\<close>

definition hub_registered ::
  "'w mei_env \<Rightarrow> bytes \<Rightarrow> nat \<Rightarrow> nat \<Rightarrow> 'w vsc_world intel_vsc \<Rightarrow> bool" where
  "hub_registered E stack c a v \<longleftrightarrow>
     v_csi v = Some c \<and> v_ace v = Some a \<and> v_csi_registerred v \<and> v_ace_registerred v \<and>
     v_csi_ops v = Some (csi_ops_of E stack) \<and> v_ace_ops v = Some (ace_ops_of E)"

lemma hub_registered_world: "hub_registered E stack c a v \<Longrightarrow> world.registered E stack c a v"
  by (simp add: hub_registered_def world.registered_def csi_ops_of_def ace_ops_of_def)

text \<open>
  C4: Acquiring the camera runs the hand-over in order.  When it returns 0 the ACE firmware was sent
  exactly IPU_OWN_CAMERA, and the CSI firmware exactly the change of ownership to the IPU followed by
  the lane count and frequency of the caller, in this order.  The caller's privacy callback is
  installed in any case, also when the acquire fails: nothing is rolled back.  No CSI command is sent
  before the ACE command was accepted.
\<close>
theorem camera_acquire_effect:
  assumes "vsc_acquire_camera_sensor v (Some cfg) cb h st s = Inr ((r, st'), s')"
    and "hub_registered E stack c a v"
  shows "w_csi_cb s' = (cb, h) \<and>
    (r = 0 \<longrightarrow> w_ace_sent s' = w_ace_sent s @ [IPU_OWN_CAMERA] \<and>
       (\<exists>z. w_csi_sent s' = w_csi_sent s @
          [csi_owner_cmd CSI_IPU, csi_mipi_cmd \<lparr>lane_num = cfg_lane_num cfg, freq = cfg_freq cfg\<rparr> z])) \<and>
    (w_ace_sent s' = w_ace_sent s \<longrightarrow> w_csi_sent s' = w_csi_sent s)"
  by (rule world.acquire_effect [OF assms(1) hub_registered_world [OF assms(2)]])

text \<open>
  C5: Releasing the camera runs the hand-over backwards.  When it returns 0 the CSI firmware was sent
  exactly the change of ownership to the firmware and the ACE firmware then ACE_OWN_CAMERA; the
  privacy callback is removed in any case; without the CSI command no ACE command is sent.
\<close>
theorem camera_release_effect:
  assumes "vsc_release_camera_sensor v st s = Inr ((r, st'), s')" and "hub_registered E stack c a v"
  shows "w_csi_cb s' = (None, 0) \<and>
    (r = 0 \<longrightarrow> w_ace_sent s' = w_ace_sent s @ [ACE_OWN_CAMERA] \<and>
       w_csi_sent s' = w_csi_sent s @ [csi_owner_cmd CSI_FW]) \<and>
    (w_csi_sent s' = w_csi_sent s \<longrightarrow> w_ace_sent s' = w_ace_sent s)"
  by (rule world.release_effect [OF assms(1) hub_registered_world [OF assms(2)]])

text \<open>A hub whose clients were probed, and firmware that answers the commands of one call.\<close>

definition demo_hub :: "mei_rx list list vsc_world intel_vsc" where
  "demo_hub = snd (snd (mei_ace_probe scripted_mei True 0 0 2 (ace_ops_of scripted_mei) ([] :: mei_rx list list)
     (snd (snd (mei_csi_probe True 0 0 1 (csi_ops_of scripted_mei (replicate 8 0)) ([] :: mei_rx list list) intel_vsc_init)))))"

definition demo_world :: "mei_rx list list \<Rightarrow> mei_rx list list \<Rightarrow> mei_rx list list vsc_world" where
  "demo_world cs as = \<lparr>wd_csi = Some (1, new_csi cs), wd_ace = Some (2, (new_ace as)\<lparr>a_woken := True\<rparr>)\<rparr>"

definition ace_answer :: "u8 \<Rightarrow> mei_rx list" where
  "ace_answer cid =
     [Rx_data (ace_hdr_bytes \<lparr>h_module_id = 0, h_instance_id = 0, h_type = 4, h_rsp = 1, h_msg_tgt = 0,
        h_param_size = 0, h_cmd_id = cid, h_final_block = 0, h_init_block = 0\<rparr>),
      Rx_data (le_bytes 4 (0x1B100002 :: u32) @ le_bytes 4 (push_bit 22 (ucast cid) :: u32) @ [8, 1, 0, 0, 0])]"

definition csi_answer :: "u32 \<Rightarrow> mei_rx list" where
  "csi_answer cid = [Rx_data (le_bytes 4 cid @ le_bytes 4 (0 :: u32))]"

lemma demo_hub_registered: "hub_registered scripted_mei (replicate 8 0) 1 2 demo_hub"
  by (simp add: hub_registered_def demo_hub_def mei_ace_probe_def mei_csi_probe_def Let_def vsc_register_ace_def
      vsc_register_csi_def ace_ops_of_def csi_ops_of_def split: prod.splits)

theorem camera_acquire_effect_witness:
  "\<exists>st s'. vsc_acquire_camera_sensor demo_hub (Some \<lparr>cfg_freq = 400, cfg_lane_num = 2\<rparr>) (Some 7) 9 None
      (demo_world [csi_answer 0, csi_answer 2] [ace_answer IPU_OWN_CAMERA]) = Inr ((0, st), s') \<and>
    w_csi_cb s' = (Some 7, 9)"
proof -
  have "value_of (vsc_acquire_camera_sensor demo_hub (Some \<lparr>cfg_freq = 400, cfg_lane_num = 2\<rparr>) (Some 7) 9 None
      (demo_world [csi_answer 0, csi_answer 2] [ace_answer IPU_OWN_CAMERA])) = Inr (0, None)"
    by code_simp
  then obtain s' where run: "vsc_acquire_camera_sensor demo_hub (Some \<lparr>cfg_freq = 400, cfg_lane_num = 2\<rparr>) (Some 7) 9 None
      (demo_world [csi_answer 0, csi_answer 2] [ace_answer IPU_OWN_CAMERA]) = Inr ((0, None), s')"
    by (auto simp: value_of_Inr)
  then show ?thesis using camera_acquire_effect [OF run demo_hub_registered] by blast
qed

theorem camera_release_effect_witness:
  "\<exists>st s'. vsc_release_camera_sensor demo_hub None
      (demo_world [csi_answer 0] [ace_answer ACE_OWN_CAMERA]) = Inr ((0, st), s') \<and>
    w_csi_cb s' = (None, 0)"
proof -
  have "value_of (vsc_release_camera_sensor demo_hub None
      (demo_world [csi_answer 0] [ace_answer ACE_OWN_CAMERA])) = Inr (0, None)"
    by code_simp
  then obtain s' where run: "vsc_release_camera_sensor demo_hub None
      (demo_world [csi_answer 0] [ace_answer ACE_OWN_CAMERA]) = Inr ((0, None), s')"
    by (auto simp: value_of_Inr)
  then show ?thesis using camera_release_effect [OF run demo_hub_registered] by blast
qed

section \<open>Callers and client removal, interleaved\<close>

text \<open>
  \<open>y_pending t\<close> is the call of thread \<open>t\<close> that passed \<open>check_component_ready\<close> and has not yet run
  its part under \<open>vsc.mutex\<close>; that part is one step.  \<open>y_crash\<close> is the fault that ended the run.
\<close>

datatype hub_call =
    Acquire vsc_mipi_config "nat option" nat
  | Release

record 'w hub_sys =
  y_hub :: "'w vsc_world intel_vsc"
  y_world :: "'w vsc_world"
  y_pending :: "nat \<Rightarrow> hub_call option"
  y_crash :: "fault option"

text \<open>The parts of acquire and release that run under the mutex.\<close>

definition hub_body ::
  "'w vsc_world intel_vsc \<Rightarrow> hub_call \<Rightarrow> 'w vsc_world
   \<Rightarrow> ((int \<times> vsc_camera_status option) \<times> 'w vsc_world) result" where
  "hub_body v k s =
     (case k of
        Acquire cfg cb h \<Rightarrow> acquire_locked v cfg cb h None s
      | Release \<Rightarrow> release_locked v None s)"

text \<open>
  The steps.  \<open>quiet\<close> is the discipline under which a client may be removed: with it, only while no
  caller is between its check and the end of its body.
\<close>

inductive hub_step :: "'w mei_env \<Rightarrow> bytes \<Rightarrow> bool \<Rightarrow> 'w hub_sys \<Rightarrow> 'w hub_sys \<Rightarrow> bool"
  for E :: "'w mei_env" and stack :: bytes and quiet :: bool where
  enter: "y_crash y = None \<Longrightarrow> y_pending y t = None \<Longrightarrow> check_component_ready (y_hub y) \<ge> 0 \<Longrightarrow>
    hub_step E stack quiet y (y\<lparr>y_pending := (y_pending y)(t := Some k)\<rparr>)"
| run: "y_crash y = None \<Longrightarrow> y_pending y t = Some k \<Longrightarrow> hub_body (y_hub y) k (y_world y) = Inr (r, s) \<Longrightarrow>
    hub_step E stack quiet y (y\<lparr>y_pending := (y_pending y)(t := None), y_world := s\<rparr>)"
| crash: "y_crash y = None \<Longrightarrow> y_pending y t = Some k \<Longrightarrow> hub_body (y_hub y) k (y_world y) = Inl f \<Longrightarrow>
    hub_step E stack quiet y (y\<lparr>y_crash := Some f\<rparr>)"
| probe_csi: "y_crash y = None \<Longrightarrow> wd_csi (y_world y) = None \<Longrightarrow>
    mei_csi_probe True 0 0 p (csi_ops_of E stack) w (y_hub y) = (0, Some c, v) \<Longrightarrow>
    hub_step E stack quiet y (y\<lparr>y_hub := v, y_world := (y_world y)\<lparr>wd_csi := Some (p, c)\<rparr>\<rparr>)"
| probe_ace: "y_crash y = None \<Longrightarrow> wd_ace (y_world y) = None \<Longrightarrow>
    mei_ace_probe E True 0 0 p (ace_ops_of E) w (y_hub y) = (0, Some a, v) \<Longrightarrow>
    hub_step E stack quiet y (y\<lparr>y_hub := v, y_world := (y_world y)\<lparr>wd_ace := Some (p, a)\<rparr>\<rparr>)"
| remove_csi: "y_crash y = None \<Longrightarrow> wd_csi (y_world y) = Some (p, c) \<Longrightarrow>
    quiet \<longrightarrow> y_pending y = (\<lambda>_. None) \<Longrightarrow> mei_csi_remove c (y_hub y) = (gone, v) \<Longrightarrow>
    hub_step E stack quiet y
      (y\<lparr>y_hub := v, y_world := (y_world y)\<lparr>wd_csi := map_option (Pair p) gone\<rparr>\<rparr>)"
| remove_ace: "y_crash y = None \<Longrightarrow> wd_ace (y_world y) = Some (p, a) \<Longrightarrow>
    quiet \<longrightarrow> y_pending y = (\<lambda>_. None) \<Longrightarrow> mei_ace_remove a (y_hub y) = (gone, v) \<Longrightarrow>
    hub_step E stack quiet y
      (y\<lparr>y_hub := v, y_world := (y_world y)\<lparr>wd_ace := map_option (Pair p) gone\<rparr>\<rparr>)"
| rx_csi: "y_crash y = None \<Longrightarrow> wd_csi (y_world y) = Some (p, c) \<Longrightarrow> mei_csi_rx m c = Inr c' \<Longrightarrow>
    hub_step E stack quiet y (y\<lparr>y_world := (y_world y)\<lparr>wd_csi := Some (p, c')\<rparr>\<rparr>)"
| rx_ace: "y_crash y = None \<Longrightarrow> wd_ace (y_world y) = Some (p, a) \<Longrightarrow> mei_ace_rx E m a = Inr a' \<Longrightarrow>
    hub_step E stack quiet y (y\<lparr>y_world := (y_world y)\<lparr>wd_ace := Some (p, a')\<rparr>\<rparr>)"

inductive hub_reach :: "'w mei_env \<Rightarrow> bytes \<Rightarrow> bool \<Rightarrow> 'w hub_sys \<Rightarrow> bool"
  for E :: "'w mei_env" and stack :: bytes and quiet :: bool where
  boot: "hub_reach E stack quiet
    \<lparr>y_hub = intel_vsc_init, y_world = \<lparr>wd_csi = None, wd_ace = None\<rparr>, y_pending = (\<lambda>_. None), y_crash = None\<rparr>"
| step: "hub_reach E stack quiet y \<Longrightarrow> hub_step E stack quiet y y' \<Longrightarrow> hub_reach E stack quiet y'"

inductive_cases hub_stepE: "hub_step E stack quiet y y'"
inductive_simps hub_reach_simps: "hub_reach E stack quiet y"


text \<open>Faults that come from a message of the firmware, not from the life time of an object.\<close>

definition soft :: "'a result \<Rightarrow> bool" where
  "soft x \<longleftrightarrow> (\<forall>f. x = Inl f \<longrightarrow> f = OutOfBounds \<or> f = UninitRead)"

named_theorems soft_intros "computations that never touch a freed object"

lemma soft_Inr [soft_intros]: "soft (Inr a)" and soft_oob [soft_intros]: "soft (Inl OutOfBounds)"
  and soft_uninit [soft_intros]: "soft (Inl UninitRead)"
  by (simp_all add: soft_def)

lemma soft_bindF [soft_intros]: "soft x \<Longrightarrow> (\<And>a. x = Inr a \<Longrightarrow> soft (f a)) \<Longrightarrow> soft (bindF x f)"
  by (cases x) (auto simp: soft_def)

lemma soft_if [soft_intros]: "(b \<Longrightarrow> soft x) \<Longrightarrow> (\<not> b \<Longrightarrow> soft y) \<Longrightarrow> soft (if b then x else y)"
  by simp

lemma soft_access [soft_intros]: "soft (load o' n buf)" "soft (store o' src buf)" "soft (get_le o' n buf)"
  "soft (assigned v)"
  by (auto simp: soft_def load_def store_def get_le_def assigned_def bindF_def split: option.splits)

lemma soft_rx_all [soft_intros]: "(\<And>m s. soft (f m s)) \<Longrightarrow> soft (rx_all f ms s)"
  by (induction ms arbitrary: s) (auto intro: soft_intros)

lemma soft_case_prod [soft_intros]: "(\<And>a b. p = (a, b) \<Longrightarrow> soft (f a b)) \<Longrightarrow> soft (case p of (a, b) \<Rightarrow> f a b)"
  by (cases p) simp

lemma soft_csi_rx: "soft (mei_csi_rx m c)"
  unfolding mei_csi_rx_def by (cases m) (auto intro!: soft_intros)

lemma soft_csi_send: "soft (mei_csi_send E buf c)"
  unfolding mei_csi_send_def csi_wait_def Let_def by (auto intro!: soft_intros soft_csi_rx)

lemma soft_ace_hdr [soft_intros]: "soft (ace_notif_hdr_of bs)"
  unfolding ace_notif_hdr_of_def by (intro soft_intros)

lemma soft_camera_status [soft_intros]: "soft (camera_status_of bs)"
  unfolding camera_status_of_def by (intro soft_intros)

lemma soft_ace_rx: "soft (mei_ace_rx E m a)"
  unfolding mei_ace_rx_def handle_notify_def by (cases m) (auto intro!: soft_intros)

lemma soft_ace_sleep [soft_intros]: "soft (ace_sleep E a)"
  unfolding ace_sleep_def Let_def by (auto split: prod.splits intro!: soft_intros soft_ace_rx)

lemma soft_ownership: "soft (set_camera_ownership E c a)"
  unfolding set_camera_ownership_def construct_command_def send_command_sync_def wait_reply_def
    wait_response_def get_fw_id_def Let_def
  by (intro soft_intros)

section \<open>The clients of a live hub\<close>

definition alive :: "nat \<Rightarrow> nat \<Rightarrow> 'w vsc_world \<Rightarrow> bool" where
  "alive p q s \<longleftrightarrow> (\<exists>c. wd_csi s = Some (p, c)) \<and> (\<exists>a. wd_ace s = Some (q, a))"

definition keeps_alive :: "nat \<Rightarrow> nat \<Rightarrow> ('r \<times> 'w vsc_world) result \<Rightarrow> bool" where
  "keeps_alive p q x \<longleftrightarrow> soft x \<and> (\<forall>r s. x = Inr (r, s) \<longrightarrow> alive p q s)"

named_theorems alive_intros "calls that keep both clients allocated"

lemma keeps_alive_Inr [alive_intros]: "alive p q s \<Longrightarrow> keeps_alive p q (Inr (r, s))"
  by (simp add: keeps_alive_def soft_Inr)

lemma keeps_alive_bind [alive_intros]:
  "keeps_alive p q x \<Longrightarrow> (\<And>r s. alive p q s \<Longrightarrow> keeps_alive p q (f (r, s))) \<Longrightarrow> keeps_alive p q (bindF x f)"
  by (cases x) (fastforce simp: keeps_alive_def soft_def)+

lemma keeps_alive_split [alive_intros]:
  "alive p q s \<Longrightarrow> keeps_alive p q (f r s) \<Longrightarrow> keeps_alive p q (case (r, s) of (r, s) \<Rightarrow> f r s)"
  "(\<And>a b. keeps_alive p q (g a b s)) \<Longrightarrow> keeps_alive p q ((case z of (a, b) \<Rightarrow> g a b) s)"
  by (simp, cases z, simp)

lemma keeps_alive_assigned [alive_intros]:
  "(\<And>c. keeps_alive p q (f c)) \<Longrightarrow> keeps_alive p q (bindF (assigned v) f)"
  by (cases v) (auto simp: keeps_alive_def soft_def)

lemma keeps_alive_if [alive_intros]:
  "(b \<Longrightarrow> keeps_alive p q x) \<Longrightarrow> (\<not> b \<Longrightarrow> keeps_alive p q y) \<Longrightarrow> keeps_alive p q (if b then x else y)"
  by simp

lemma keeps_alive_set_cb [alive_intros]:
  "alive p q s \<Longrightarrow> (\<And>s. alive p q s \<Longrightarrow> keeps_alive p q (f s)) \<Longrightarrow> keeps_alive p q (bindF (w_set_cb p cb h s) f)"
  by (auto simp: alive_def w_set_cb_def with_csi_def)

lemma keeps_alive_csi: "alive p q s \<Longrightarrow> (\<And>c. soft (f c)) \<Longrightarrow> keeps_alive p q (with_csi p f s)"
  by (auto simp: keeps_alive_def alive_def with_csi_def bindF_eq_Inr intro!: soft_intros)

lemma keeps_alive_ace: "alive p q s \<Longrightarrow> (\<And>a. soft (f a)) \<Longrightarrow> keeps_alive p q (with_ace q f s)"
  by (auto simp: keeps_alive_def alive_def with_ace_def bindF_eq_Inr intro!: soft_intros)

lemma keeps_alive_ops [alive_intros]:
  assumes "alive p q s"
  shows "keeps_alive p q (w_set_owner E p w s)" "keeps_alive p q (w_set_mipi E stack p m s)"
    "keeps_alive p q (w_ipu_own E q s)" "keeps_alive p q (w_ace_own E q s)"
  using assms
  by (auto simp: w_set_owner_def w_set_mipi_def w_ipu_own_def w_ace_own_def csi_set_owner_def
      csi_set_mipi_conf_def ipu_own_camera_def ace_own_camera_def
      intro!: keeps_alive_csi keeps_alive_ace soft_csi_send soft_ownership)

lemma hub_body_alive:
  assumes "hub_registered E stack p q v" and "alive p q s"
  shows "keeps_alive p q (hub_body v k s)"
  using assms
  by (cases k) (simp_all add: hub_body_def acquire_locked_def release_locked_def hub_registered_def
      csi_ops_of_def ace_ops_of_def Let_def cong: if_cong,
      (intro alive_intros | assumption)+)

section \<open>The invariant under the discipline\<close>

definition hub_inv :: "'w mei_env \<Rightarrow> bytes \<Rightarrow> 'w hub_sys \<Rightarrow> bool" where
  "hub_inv E stack y \<longleftrightarrow>
     (v_csi_registerred (y_hub y) \<longrightarrow> (\<exists>p c. wd_csi (y_world y) = Some (p, c) \<and>
        v_csi (y_hub y) = Some p \<and> v_csi_ops (y_hub y) = Some (csi_ops_of E stack))) \<and>
     (v_ace_registerred (y_hub y) \<longrightarrow> (\<exists>q a. wd_ace (y_world y) = Some (q, a) \<and>
        v_ace (y_hub y) = Some q \<and> v_ace_ops (y_hub y) = Some (ace_ops_of E))) \<and>
     (y_pending y \<noteq> (\<lambda>_. None) \<longrightarrow> v_csi_registerred (y_hub y) \<and> v_ace_registerred (y_hub y)) \<and>
     (\<forall>f. y_crash y = Some f \<longrightarrow> f = OutOfBounds \<or> f = UninitRead)"

lemma hub_inv_pending:
  assumes "hub_inv E stack y" and "y_pending y t = Some k"
  obtains p q where "hub_registered E stack p q (y_hub y)" "alive p q (y_world y)"
proof -
  have "y_pending y \<noteq> (\<lambda>_. None)" using assms(2) by auto
  then show thesis using assms(1) that by (auto simp: hub_inv_def hub_registered_def alive_def)
qed

lemma hub_inv_step:
  assumes "hub_step E stack True y y'" and "hub_inv E stack y"
  shows "hub_inv E stack y'"
  using assms
proof (induction rule: hub_step.induct)
  case (run y t k r s)
  then obtain p q where pq: "hub_registered E stack p q (y_hub y)" "alive p q (y_world y)"
    by (auto elim: hub_inv_pending)
  then have "alive p q s" using hub_body_alive [OF pq, of k] run by (auto simp: keeps_alive_def)
  then show ?case using run pq by (auto simp: hub_inv_def hub_registered_def alive_def)
next
  case (crash y t k f)
  then obtain p q where pq: "hub_registered E stack p q (y_hub y)" "alive p q (y_world y)"
    by (auto elim: hub_inv_pending)
  then have "f = OutOfBounds \<or> f = UninitRead"
    using hub_body_alive [OF pq, of k] crash by (auto simp: keeps_alive_def soft_def)
  then show ?case using crash by (auto simp: hub_inv_def)
qed (auto simp: hub_inv_def check_component_ready_def mei_csi_probe_def mei_ace_probe_def vsc_register_csi_def
    vsc_register_ace_def mei_csi_remove_def mei_ace_remove_def vsc_unregister_csi_def vsc_unregister_ace_def
    csi_ops_of_def ace_ops_of_def Let_def split: prod.splits if_splits)

lemma hub_inv_reach: "hub_reach E stack True y \<Longrightarrow> hub_inv E stack y"
proof (induction rule: hub_reach.induct)
  case boot
  then show ?case by (simp add: hub_inv_def intel_vsc_init_def)
next
  case (step y y')
  then show ?case using hub_inv_step by blast
qed


section \<open>Properties of the interleaving\<close>

text \<open>
  C6: With clients removed only while no caller is between its check and the end of its body, no
  interleaving of callers, probes, removals and messages makes the hub touch a freed client or a NULL
  table: every state reached has no crash, or one caused by a message of the firmware that overruns a
  receive buffer or leaves a value unassigned.  A registered client is allocated, at the address the
  hub holds.
\<close>
theorem hub_live_clients:
  assumes "hub_reach E stack True y"
  shows "(\<forall>f. y_crash y = Some f \<longrightarrow> f \<noteq> UseAfterFree \<and> f \<noteq> NullDeref) \<and>
    (v_csi_registerred (y_hub y) \<longrightarrow> (\<exists>p c. wd_csi (y_world y) = Some (p, c) \<and> v_csi (y_hub y) = Some p)) \<and>
    (v_ace_registerred (y_hub y) \<longrightarrow> (\<exists>q a. wd_ace (y_world y) = Some (q, a) \<and> v_ace (y_hub y) = Some q))"
  using hub_inv_reach [OF assms] by (auto simp: hub_inv_def)

text \<open>Both clients probed, and a caller of release that passed its check.\<close>

definition ready_hub :: "mei_rx list list hub_sys" where
  "ready_hub =
     \<lparr>y_hub = demo_hub,
      y_world = \<lparr>wd_csi = Some (1, new_csi []),
                 wd_ace = Some (2, snd (trigger_get_fw_id scripted_mei (new_ace [])))\<rparr>,
      y_pending = (\<lambda>_. None)(0 := Some Release), y_crash = None\<rparr>"

lemma ready_hub_reach: "hub_reach scripted_mei (replicate 8 0) q ready_hub"
proof -
  let ?w0 = "\<lparr>wd_csi = None, wd_ace = None\<rparr> :: mei_rx list list vsc_world"
  let ?ops = "csi_ops_of scripted_mei (replicate 8 0)"
  let ?v1 = "snd (snd (mei_csi_probe True 0 0 1 ?ops ([] :: mei_rx list list) intel_vsc_init))"
  let ?y0 = "\<lparr>y_hub = intel_vsc_init, y_world = ?w0, y_pending = (\<lambda>_. None), y_crash = None\<rparr>"
  let ?y1 = "?y0\<lparr>y_hub := ?v1, y_world := (y_world ?y0)\<lparr>wd_csi := Some (1, new_csi [])\<rparr>\<rparr>"
  let ?a = "snd (trigger_get_fw_id scripted_mei (new_ace []))"
  let ?y2 = "?y1\<lparr>y_hub := demo_hub, y_world := (y_world ?y1)\<lparr>wd_ace := Some (2, ?a)\<rparr>\<rparr>"
  have s1: "hub_step scripted_mei (replicate 8 0) q ?y0 ?y1"
    by (rule hub_step.probe_csi [where w = "[]"])
      (simp_all add: mei_csi_probe_def Let_def split: prod.splits)
  have s2: "hub_step scripted_mei (replicate 8 0) q ?y1 ?y2"
    by (rule hub_step.probe_ace [where w = "[]"])
      (simp_all add: demo_hub_def mei_ace_probe_def Let_def split: prod.splits)
  have s3: "hub_step scripted_mei (replicate 8 0) q ?y2 (?y2\<lparr>y_pending := (y_pending ?y2)(0 := Some Release)\<rparr>)"
    using demo_hub_registered
    by (intro hub_step.enter) (simp_all add: hub_registered_def check_component_ready_def)
  show ?thesis
    using hub_reach.step [OF hub_reach.step [OF hub_reach.step [OF hub_reach.boot s1] s2] s3]
    by (simp add: ready_hub_def)
qed

theorem hub_live_clients_witness:
  "y_pending ready_hub 0 = Some Release \<and>
   (\<exists>p c. wd_csi (y_world ready_hub) = Some (p, c) \<and> v_csi (y_hub ready_hub) = Some p)"
  using hub_live_clients [OF ready_hub_reach] demo_hub_registered
  by (simp add: ready_hub_def hub_registered_def)

text \<open>
  C7: The discipline is needed and the code does not enforce it.  Both calls say that the components
  need not be checked again under the mutex, but a caller that found both clients ready can enter its
  body after the CSI client was unregistered and freed, and then calls through the freed object.
\<close>
theorem hub_remove_race:
  "\<exists>y. hub_reach scripted_mei (replicate 8 0) False y \<and> y_crash y = Some UseAfterFree \<and>
     \<not> v_csi_registerred (y_hub y)"
proof -
  let ?y = "ready_hub\<lparr>y_hub := vsc_unregister_csi demo_hub,
    y_world := (y_world ready_hub)\<lparr>wd_csi := None\<rparr>\<rparr>"
  have s1: "hub_step scripted_mei (replicate 8 0) False ready_hub ?y"
    using hub_step.remove_csi [of ready_hub 1 "new_csi []" False None]
    by (simp add: ready_hub_def mei_csi_remove_def)
  have s2: "hub_step scripted_mei (replicate 8 0) False ?y (?y\<lparr>y_crash := Some UseAfterFree\<rparr>)"
    using demo_hub_registered
    by (intro hub_step.crash [where t = 0 and k = Release])
      (simp_all add: ready_hub_def hub_registered_def hub_body_def release_locked_def vsc_unregister_csi_def
        csi_ops_of_def w_set_cb_def with_csi_def)
  show ?thesis
    using hub_reach.step [OF hub_reach.step [OF ready_hub_reach s1] s2]
    by (intro exI conjI, assumption) (simp_all add: vsc_unregister_csi_def)
qed

end
