(* ===== verification/Vsc_Transport.thy ===== *)
theory Vsc_Transport
  imports Vsc_Prelude
begin

text \<open>
  \<^verbatim>\<open>drivers/misc/mei/hw-vsc.c\<close>, the SPI transport: packets with a checksum over a full-duplex
  bus whose slave answers with a delay, the wake-up handshake on two GPIO lines, and the word-swapped
  transfers of the boot ROM.

  \<open>spi_env\<close> holds what is not in the repository: the SPI controller, the GPIO input, the interrupts
  that arrive during a sleep, the allocator, the clocks and the kernel's \<open>crc32\<close>.  Nothing is
  assumed of them except that a successful transfer of \<open>n\<close> bytes clocks in \<open>n\<close> bytes.
\<close>

section \<open>Data (hw-vsc.h)\<close>

datatype FRAG_TYPE =
    BOOT_IMAGE_TYPE | ARC_SEM_IMG_TYPE | EM7D_IMG_TYPE | ACER_IMG_TYPE | ACEV_IMG_TYPE | ACEC_IMG_TYPE
  | SKU_CONF_TYPE

text \<open>\<open>fr_data\<close> is the file from the fragment's first byte to its end; \<open>None\<close> is a NULL pointer.\<close>

record fragment =
  fr_location :: u32
  fr_data :: "bytes option"
  fr_size :: u32

abbreviation FW_SPI_PKG_SIZE :: nat where "FW_SPI_PKG_SIZE \<equiv> 512"
abbreviation VSC_ROM_SPI_PKG_SIZE :: nat where "VSC_ROM_SPI_PKG_SIZE \<equiv> 256"

record vsc_boot_fw =
  main_ver :: u32
  sub_ver :: u32
  key_src :: u32
  svn :: u32
  fw_tx_buf :: bytes
  fw_rx_buf :: bytes
  fw_file_name :: string
  sensor_file_name :: string
  sku_cnf_file_name :: string
  fw_option :: u32
  fw_cnt :: u32
  frags :: "FRAG_TYPE \<Rightarrow> fragment"

abbreviation PACKET_SYNC :: u8 where "PACKET_SYNC \<equiv> 0x31"
abbreviation MAX_SPI_MSG_SIZE :: nat where "MAX_SPI_MSG_SIZE \<equiv> 2048"
abbreviation MAX_MEI_MSG_SIZE :: nat where "MAX_MEI_MSG_SIZE \<equiv> 512"
abbreviation CRC_SIZE :: nat where "CRC_SIZE \<equiv> 4"
abbreviation XFER_TIMEOUT_BYTES :: nat where "XFER_TIMEOUT_BYTES \<equiv> 700"
abbreviation SPI_HDR_SIZE :: nat where "SPI_HDR_SIZE \<equiv> 8"
abbreviation MAX_XFER_BUFFER_SIZE :: nat where "MAX_XFER_BUFFER_SIZE \<equiv> 2760"

text \<open>\<open>sizeof(struct spi_xfer_packet)\<close>: the header and a buffer that fills up the transfer buffer.\<close>

abbreviation SPI_PACKET_SIZEOF :: nat where "SPI_PACKET_SIZEOF \<equiv> 2760"

abbreviation CMD_SPI_WRITE :: u8 where "CMD_SPI_WRITE \<equiv> 0x01"
abbreviation CMD_SPI_READ :: u8 where "CMD_SPI_READ \<equiv> 0x02"
abbreviation CMD_SPI_NACK :: u8 where "CMD_SPI_NACK \<equiv> 0x11"
abbreviation CMD_SPI_BUSY :: u8 where "CMD_SPI_BUSY \<equiv> 0x12"
abbreviation CMD_SPI_FATAL_ERR :: u8 where "CMD_SPI_FATAL_ERR \<equiv> 0x13"

record spi_xfer_hdr =
  x_sync :: u8
  x_cmd :: u8
  x_len :: u16
  x_seq :: u32

definition spi_hdr_bytes :: "spi_xfer_hdr \<Rightarrow> bytes" where
  "spi_hdr_bytes h = [x_sync h, x_cmd h] @ le_bytes 2 (x_len h) @ le_bytes 4 (x_seq h)"

definition spi_hdr_of :: "bytes \<Rightarrow> spi_xfer_hdr result" where
  "spi_hdr_of bs =
     bindF (load 0 2 bs) (\<lambda>b. bindF (get_le 2 2 bs) (\<lambda>l. bindF (get_le 4 4 bs) (\<lambda>s.
     Inr \<lparr>x_sync = b ! 0, x_cmd = b ! 1, x_len = l, x_seq = s\<rparr>)))"

text \<open>
  \<open>struct mei_vsc_hw\<close>.  \<open>v_wakeupfw\<close> and \<open>v_resetfw\<close> are the output lines, \<open>v_irq_off\<close> the disable depth
  of the interrupt, and \<open>v_wire\<close> records what the controller clocked out in the transfers it completed.
\<close>

record 'w mei_vsc_hw =
  v_rx_buf :: bytes
  v_tx_buf :: bytes
  v_rx_len :: u32
  v_resetfw :: bool
  v_wakeupfw :: bool
  v_irq_off :: int
  v_fw :: vsc_boot_fw
  v_host_ready :: bool
  v_fw_ready :: bool
  v_seq :: u32
  v_tx_buf1 :: bytes
  v_rx_buf1 :: bytes
  v_mutex :: bool
  v_disconnect :: bool
  v_lock_cnt :: nat
  v_write_lock_cnt :: int
  v_cam_sensor_name :: bytes
  v_wire :: "bytes list"
  v_env :: 'w

record 'w spi_env =
  spi_sync :: "bytes \<Rightarrow> 'w \<Rightarrow> (int \<times> bytes) \<times> 'w"
  gpio_wakeuphost :: "'w \<Rightarrow> bool \<times> 'w"
  wait_irqs :: "'w \<Rightarrow> nat \<times> 'w"
  kzalloc_ok :: "'w \<Rightarrow> bool \<times> 'w"
  ktime :: "'w \<Rightarrow> (u64 \<times> u64) \<times> 'w"
  crc32 :: "bytes \<Rightarrow> u32"

section \<open>The bus\<close>

text \<open>The bytes a transfer of \<open>n\<close> bytes clocks in.\<close>

definition clocked :: "nat \<Rightarrow> bytes \<Rightarrow> bytes" where
  "clocked n r = take n (r @ replicate n 0)"

definition spi_dev_xfer ::
  "'w spi_env \<Rightarrow> bytes \<Rightarrow> bytes option \<Rightarrow> nat \<Rightarrow> 'w mei_vsc_hw
   \<Rightarrow> ((int \<times> bytes option) \<times> 'w mei_vsc_hw) result" where
  "spi_dev_xfer E out_data in_data len hw =
     bindF (load 0 len out_data) (\<lambda>out.
     let ((ret, r), w) = spi_sync E out (v_env hw);
         hw = hw\<lparr>v_wire := v_wire hw @ (if ret = 0 then [out] else []), v_env := w\<rparr> in
     case in_data of
       None \<Rightarrow> Inr ((ret, None), hw)
     | Some inb \<Rightarrow>
         if len > length inb then Inl OutOfBounds
         else if ret \<noteq> 0 then Inr ((ret, Some inb), hw)
         else bindF (store 0 (clocked len r) inb) (\<lambda>inb. Inr ((ret, Some inb), hw)))"

definition PACKET_SIZE :: "bytes \<Rightarrow> nat result" where
  "PACKET_SIZE pkt = bindF (spi_hdr_of pkt) (\<lambda>h. Inr (SPI_HDR_SIZE + unat (x_len h) + CRC_SIZE))"

definition spi_crc :: "'w spi_env \<Rightarrow> bytes \<Rightarrow> u32" where
  "spi_crc E bs = NOT (crc32 E bs)"

definition spi_validate_packet :: "'w spi_env \<Rightarrow> bytes \<Rightarrow> 'w mei_vsc_hw \<Rightarrow> int result" where
  "spi_validate_packet E pkt hw =
     bindF (spi_hdr_of pkt) (\<lambda>hdr.
     bindF (get_le (SPI_HDR_SIZE + unat (x_len hdr)) 4 pkt) (\<lambda>base_crc.
     bindF (load 0 (SPI_HDR_SIZE + unat (x_len hdr)) pkt) (\<lambda>body.
     Inr (if base_crc \<noteq> spi_crc E body then - EINVAL
          else if x_cmd hdr = CMD_SPI_FATAL_ERR then - EIO
          else if x_cmd hdr = CMD_SPI_NACK \<or> x_cmd hdr = CMD_SPI_BUSY \<or> x_seq hdr \<noteq> v_seq hw then - EAGAIN
          else 0))))"

section \<open>The wake-up handshake\<close>

definition spi_rom_xfer_asserted :: "'w spi_env \<Rightarrow> 'w mei_vsc_hw \<Rightarrow> bool \<times> 'w mei_vsc_hw" where
  "spi_rom_xfer_asserted E hw = (let (b, w) = gpio_wakeuphost E (v_env hw) in (b, hw\<lparr>v_env := w\<rparr>))"

definition spi_xfer_asserted :: "'w spi_env \<Rightarrow> 'w mei_vsc_hw \<Rightarrow> bool \<times> 'w mei_vsc_hw" where
  "spi_xfer_asserted E hw = (if v_lock_cnt hw > 0 then spi_rom_xfer_asserted E hw else (False, hw))"

definition spi_xfer_lock :: "'w mei_vsc_hw \<Rightarrow> 'w mei_vsc_hw" where
  "spi_xfer_lock hw = hw\<lparr>v_wakeupfw := False\<rparr>"

definition spi_xfer_unlock :: "'w mei_vsc_hw \<Rightarrow> 'w mei_vsc_hw" where
  "spi_xfer_unlock hw = hw\<lparr>v_lock_cnt := v_lock_cnt hw - 1, v_wakeupfw := True\<rparr>"

definition spi_xfer_locked :: "'w mei_vsc_hw \<Rightarrow> bool" where
  "spi_xfer_locked hw \<longleftrightarrow> \<not> v_wakeupfw hw"

definition spi_need_read :: "'w spi_env \<Rightarrow> 'w mei_vsc_hw \<Rightarrow> bool \<times> 'w mei_vsc_hw" where
  "spi_need_read E hw = (let (b, hw) = spi_xfer_asserted E hw in (b \<and> \<not> spi_xfer_locked hw, hw))"

text \<open>The sleep ends when the condition holds or the timeout passes; interrupts count up meanwhile.\<close>

definition spi_xfer_wait_asserted :: "'w spi_env \<Rightarrow> 'w mei_vsc_hw \<Rightarrow> int \<times> 'w mei_vsc_hw" where
  "spi_xfer_wait_asserted E hw =
     (let (b, hw) = spi_xfer_asserted E hw;
          hw = (if b then hw
                else let (k, w) = wait_irqs E (v_env hw) in hw\<lparr>v_env := w, v_lock_cnt := v_lock_cnt hw + k\<rparr>);
          (b, hw) = spi_xfer_asserted E hw
      in (if \<not> b then - ETIME else 0, hw))"

definition spi_wakeup_request :: "'w spi_env \<Rightarrow> 'w mei_vsc_hw \<Rightarrow> int \<times> 'w mei_vsc_hw" where
  "spi_wakeup_request E hw = spi_xfer_wait_asserted E (spi_xfer_lock hw)"

definition spi_wakeup_release :: "'w mei_vsc_hw \<Rightarrow> 'w mei_vsc_hw" where
  "spi_wakeup_release hw = spi_xfer_unlock hw"

section \<open>Packets\<close>

definition find_sync_byte :: "bytes \<Rightarrow> nat option" where
  "find_sync_byte buf = find_index (\<lambda>b. b = PACKET_SYNC) buf"

abbreviation PACKET_PADDING_SIZE :: int where "PACKET_PADDING_SIZE \<equiv> 1"
abbreviation MAX_XFER_COUNT :: nat where "MAX_XFER_COUNT \<equiv> 5"

text \<open>
  The copy of a chunk to \<open>&ack_pkt[offset]\<close>: \<open>ack_pkt\<close> points to a packet, so the offset counts whole
  packets.
\<close>

definition ack_copy :: "nat \<Rightarrow> bytes \<Rightarrow> bytes \<Rightarrow> bytes result" where
  "ack_copy offset bs ack = (if bs = [] then Inr ack else store (SPI_PACKET_SIZEOF * offset) bs ack)"

text \<open>
  The transfer loop; the first argument is \<open>count_down\<close> before the decrement.  The result is the
  return code of the bus, \<open>next_xfer_len\<close> and the packet.
\<close>

fun xfer_loop ::
  "'w spi_env \<Rightarrow> nat \<Rightarrow> int \<Rightarrow> nat \<Rightarrow> bool \<Rightarrow> bytes \<Rightarrow> 'w mei_vsc_hw
   \<Rightarrow> ((int \<times> int \<times> bytes) \<times> 'w mei_vsc_hw) result" where
  "xfer_loop E 0 next_len offset synced ack hw = Inr ((0, next_len, ack), hw)"
| "xfer_loop E (Suc count_down) next_len offset synced ack hw =
     bindF (spi_dev_xfer E (v_tx_buf1 hw) (Some (v_rx_buf1 hw)) (nat next_len) hw) (\<lambda>((ret, rx), hw).
     bindF (deref rx) (\<lambda>rx_buf.
     let hw = hw\<lparr>v_rx_buf1 := rx_buf\<rparr> in
     if ret \<noteq> 0 then Inr ((ret, next_len, ack), hw)
     else
       let hw = hw\<lparr>v_tx_buf1 := replicate MAX_XFER_BUFFER_SIZE 0\<rparr> in
       case (if synced then Some (0, min (nat next_len) (SPI_PACKET_SIZEOF - offset))
             else map_option (\<lambda>i. (i, nat next_len - i)) (find_sync_byte (take (nat next_len) rx_buf))) of
         None \<Rightarrow> xfer_loop E count_down next_len offset synced ack hw
       | Some (i, len) \<Rightarrow>
           bindF (load i len rx_buf) (\<lambda>bs.
           bindF (ack_copy offset bs ack) (\<lambda>ack.
           let offset = offset + len in
           bindF (if offset \<ge> SPI_HDR_SIZE
                  then bindF (PACKET_SIZE ack) (\<lambda>n. Inr (int n - int offset + PACKET_PADDING_SIZE))
                  else Inr next_len) (\<lambda>next_len.
           if next_len > 0 then xfer_loop E count_down next_len offset True ack hw
           else Inr ((0, next_len, ack), hw))))))"

definition mei_vsc_xfer_internal ::
  "'w spi_env \<Rightarrow> bytes \<Rightarrow> bytes \<Rightarrow> 'w mei_vsc_hw \<Rightarrow> ((int \<times> bytes) \<times> 'w mei_vsc_hw) result" where
  "mei_vsc_xfer_internal E pkt ack_pkt hw =
     bindF (PACKET_SIZE pkt) (\<lambda>n.
     bindF (load 0 n pkt) (\<lambda>bs.
     bindF (store 0 bs (v_tx_buf1 hw)) (\<lambda>tx.
     let hw = hw\<lparr>v_tx_buf1 := tx, v_rx_buf1 := replicate MAX_XFER_BUFFER_SIZE 0\<rparr> in
     bindF (xfer_loop E MAX_XFER_COUNT (int (n + XFER_TIMEOUT_BYTES)) 0 False ack_pkt hw) (\<lambda>((ret, next_len, ack), hw).
     if ret \<noteq> 0 then Inr ((ret, ack), hw)
     else if next_len > 0 then Inr ((- EAGAIN, ack), hw)
     else bindF (spi_validate_packet E ack hw) (\<lambda>ret. Inr ((ret, ack), hw))))))"

text \<open>
  \<open>mei_vsc_xfer\<close>: the result is the code, the caller's receive buffer and what was stored through
  \<open>rx_len\<close>.
\<close>

definition tx_packet :: "'w spi_env \<Rightarrow> u8 \<Rightarrow> u32 \<Rightarrow> bytes \<Rightarrow> bytes result" where
  "tx_packet E cmd seq tx =
     (let hdr = spi_hdr_bytes \<lparr>x_sync = PACKET_SYNC, x_cmd = cmd, x_len = of_nat (length tx), x_seq = seq\<rparr> in
      bindF (store 0 (hdr @ tx) (replicate SPI_PACKET_SIZEOF 0)) (\<lambda>pkt.
      put_le (SPI_HDR_SIZE + length tx) 4 (spi_crc E (hdr @ tx)) pkt))"

text \<open>The acknowledge's payload, copied to the caller.\<close>

definition ack_deliver :: "bytes \<Rightarrow> bytes \<Rightarrow> int \<Rightarrow> (bytes \<times> u32) result" where
  "ack_deliver ack rx rx_max_len =
     bindF (spi_hdr_of ack) (\<lambda>h.
     if x_len h = 0 then Inr (rx, 0)
     else
       let len = (if uint (x_len h) < rx_max_len then uint (x_len h) else rx_max_len) in
       if len < 0 then Inl OutOfBounds
       else bindF (load SPI_HDR_SIZE (nat len) ack) (\<lambda>data. bindF (store 0 data rx) (\<lambda>rx.
            Inr (rx, of_int len))))"

text \<open>The part under the mutex, with the wake-up line released at the end of every path.\<close>

definition xfer_locked ::
  "'w spi_env \<Rightarrow> bytes \<Rightarrow> bytes \<Rightarrow> int \<Rightarrow> 'w mei_vsc_hw
   \<Rightarrow> ((int \<times> bytes option \<times> u32 option) \<times> 'w mei_vsc_hw) result" where
  "xfer_locked E pkt rx rx_max_len hw =
     (let out = (\<lambda>r rx l hw. Inr ((r, Some rx, Some l), (spi_wakeup_release hw)\<lparr>v_mutex := False\<rparr>));
          (ret, hw) = spi_wakeup_request E (hw\<lparr>v_mutex := True\<rparr>) in
      if ret \<noteq> 0 then out ret rx 0 hw
      else
        bindF (mei_vsc_xfer_internal E pkt (replicate SPI_PACKET_SIZEOF 0) hw) (\<lambda>((ret, ack), hw).
        if ret \<noteq> 0 then out ret rx 0 hw
        else bindF (ack_deliver ack rx rx_max_len) (\<lambda>(rx, l). out 0 rx l hw)))"

definition mei_vsc_xfer ::
  "'w spi_env \<Rightarrow> u8 \<Rightarrow> bytes option \<Rightarrow> nat \<Rightarrow> bytes option \<Rightarrow> int \<Rightarrow> 'w mei_vsc_hw
   \<Rightarrow> ((int \<times> bytes option \<times> u32 option) \<times> 'w mei_vsc_hw) result" where
  "mei_vsc_xfer E cmd tx tx_len rx rx_max_len hw =
     (case (tx, rx) of
        (Some txb, Some rxb) \<Rightarrow>
          if tx_len > MAX_SPI_MSG_SIZE then Inr ((- EINVAL, rx, None), hw)
          else
            let (ok, w) = kzalloc_ok E (v_env hw); hw = hw\<lparr>v_env := w\<rparr> in
            if \<not> ok then Inr ((- ENOMEM, rx, Some 0), hw)
            else
              let hw = hw\<lparr>v_seq := v_seq hw + 1\<rparr> in
              bindF (load 0 tx_len txb) (\<lambda>txd.
              bindF (tx_packet E cmd (v_seq hw) txd) (\<lambda>pkt. xfer_locked E pkt rxb rx_max_len hw))
      | _ \<Rightarrow> Inr ((- EINVAL, rx, None), hw))"

definition mei_vsc_read_raw ::
  "'w spi_env \<Rightarrow> bytes \<Rightarrow> int \<Rightarrow> 'w mei_vsc_hw \<Rightarrow> ((int \<times> bytes option \<times> u32 option) \<times> 'w mei_vsc_hw) result" where
  "mei_vsc_read_raw E buf max_len hw =
     (let ((rt, bt), w) = ktime E (v_env hw) in
      mei_vsc_xfer E CMD_SPI_READ (Some (le_bytes 8 rt @ le_bytes 8 bt)) 16 (Some buf) max_len (hw\<lparr>v_env := w\<rparr>))"

definition mei_vsc_write_raw :: "'w spi_env \<Rightarrow> bytes \<Rightarrow> nat \<Rightarrow> 'w mei_vsc_hw \<Rightarrow> (int \<times> 'w mei_vsc_hw) result" where
  "mei_vsc_write_raw E buf len hw =
     bindF (mei_vsc_xfer E CMD_SPI_WRITE (Some buf) len (Some [0]) 1 hw) (\<lambda>((ret, _, _), hw). Inr (ret, hw))"

section \<open>Transfers to the boot ROM\<close>

text \<open>\<open>___constant_swab32\<close> of every word.\<close>

fun swab_words :: "bytes \<Rightarrow> bytes" where
  "swab_words (a # b # c # d # bs) = d # c # b # a # swab_words bs"
| "swab_words bs = bs"

abbreviation LOADER_XFER_RETRY_COUNT :: nat where "LOADER_XFER_RETRY_COUNT \<equiv> 25"

text \<open>The wait for the ROM, with the retries left.\<close>

fun rom_wait :: "'w spi_env \<Rightarrow> nat \<Rightarrow> 'w mei_vsc_hw \<Rightarrow> bool \<times> 'w mei_vsc_hw" where
  "rom_wait E 0 hw = (False, hw)"
| "rom_wait E (Suc n) hw =
     (let (b, hw) = spi_rom_xfer_asserted E hw in if \<not> b then (True, hw) else rom_wait E n hw)"

definition spi_rom_dev_xfer ::
  "'w spi_env \<Rightarrow> bytes \<Rightarrow> bytes option \<Rightarrow> nat \<Rightarrow> 'w mei_vsc_hw
   \<Rightarrow> ((int \<times> bytes \<times> bytes option) \<times> 'w mei_vsc_hw) result" where
  "spi_rom_dev_xfer E out_data in_data len hw =
     (if len mod 4 \<noteq> 0 then Inr ((- EINVAL, out_data, in_data), hw)
      else
        bindF (load 0 len out_data) (\<lambda>o'.
        let out_data = swab_words o' @ drop len out_data;
            (ready, hw) = rom_wait E LOADER_XFER_RETRY_COUNT (hw\<lparr>v_mutex := True\<rparr>) in
        if \<not> ready then Inr ((- EAGAIN, out_data, in_data), hw\<lparr>v_mutex := False\<rparr>)
        else
          bindF (spi_dev_xfer E out_data in_data len hw) (\<lambda>((ret, in_data), hw).
          let hw = hw\<lparr>v_mutex := False\<rparr> in
          case in_data of
            None \<Rightarrow> Inr ((ret, out_data, None), hw)
          | Some inb \<Rightarrow>
              if ret \<noteq> 0 then Inr ((ret, out_data, Some inb), hw)
              else Inr ((0, out_data, Some (swab_words (take len inb) @ drop len inb)), hw))))"

section \<open>The packet layout\<close>

lemma spi_hdr_of_bytes: "spi_hdr_of (spi_hdr_bytes h @ p) = Inr h"
  by (simp add: spi_hdr_of_def spi_hdr_bytes_def load_def get_le_def word_of_le_le_bytes)

lemma length_spi_hdr_bytes [simp]: "length (spi_hdr_bytes h) = 8"
  by (simp add: spi_hdr_bytes_def)

lemma spi_hdr_of_take: "8 \<le> k \<Longrightarrow> spi_hdr_of (take k bs) = spi_hdr_of bs"
  by (auto simp: spi_hdr_of_def load_def get_le_def min_def drop_take)

lemma spi_hdr_of_append: "8 \<le> length bs \<Longrightarrow> spi_hdr_of (bs @ cs) = spi_hdr_of bs"
  by (auto simp: spi_hdr_of_def load_def get_le_def nth_append)

lemma spi_hdr_of_ok: "8 \<le> length bs \<Longrightarrow> \<exists>h. spi_hdr_of bs = Inr h"
  by (auto simp: spi_hdr_of_def load_def get_le_def)

lemma PACKET_SIZE_append: "8 \<le> length bs \<Longrightarrow> PACKET_SIZE (bs @ cs) = PACKET_SIZE bs"
  by (simp add: PACKET_SIZE_def spi_hdr_of_append)

lemma length_clocked [simp]: "length (clocked n r) = n"
  by (simp add: clocked_def)

section \<open>What a transfer changes\<close>

text \<open>A transfer over the bus touches the two transfer buffers and the outside world only.\<close>

definition bus_frame :: "'w mei_vsc_hw \<Rightarrow> 'w mei_vsc_hw \<Rightarrow> bool" where
  "bus_frame hw hw' \<longleftrightarrow>
     hw' = hw\<lparr>v_tx_buf1 := v_tx_buf1 hw', v_rx_buf1 := v_rx_buf1 hw',
              v_wire := v_wire hw', v_env := v_env hw'\<rparr> \<and>
     length (v_tx_buf1 hw') = length (v_tx_buf1 hw) \<and> length (v_rx_buf1 hw') = length (v_rx_buf1 hw)"

lemma bus_frame_refl [simp]: "bus_frame hw hw"
  by (simp add: bus_frame_def)

lemma bus_frame_trans [trans]: "bus_frame a b \<Longrightarrow> bus_frame b c \<Longrightarrow> bus_frame a c"
  by (cases a, cases b, cases c) (auto simp: bus_frame_def)

lemma bus_frame_upd [simp]:
  "bus_frame a (b\<lparr>v_env := w\<rparr>) = bus_frame a b" "bus_frame (a\<lparr>v_env := w\<rparr>) b = bus_frame a b"
  "bus_frame a (b\<lparr>v_wire := z\<rparr>) = bus_frame a b" "bus_frame (a\<lparr>v_wire := z\<rparr>) b = bus_frame a b"
  "length t = length (v_tx_buf1 b) \<Longrightarrow> bus_frame a (b\<lparr>v_tx_buf1 := t\<rparr>) = bus_frame a b"
  "length t = length (v_rx_buf1 b) \<Longrightarrow> bus_frame a (b\<lparr>v_rx_buf1 := t\<rparr>) = bus_frame a b"
  by (cases a, cases b, auto simp: bus_frame_def)+

lemma bus_frame_seq: "bus_frame hw hw' \<Longrightarrow> v_seq hw' = v_seq hw \<and> v_lock_cnt hw' = v_lock_cnt hw"
  by (cases hw, cases hw') (auto simp: bus_frame_def)

text \<open>A hardware object whose transfer buffers have their declared sizes.\<close>

definition vsc_wf :: "'w mei_vsc_hw \<Rightarrow> bool" where
  "vsc_wf hw \<longleftrightarrow> length (v_tx_buf1 hw) = MAX_XFER_BUFFER_SIZE \<and> length (v_rx_buf1 hw) = MAX_XFER_BUFFER_SIZE \<and>
     length (v_rx_buf hw) = MAX_SPI_MSG_SIZE \<and> length (v_tx_buf hw) = MAX_SPI_MSG_SIZE"

lemma vsc_wf_upd [simp]:
  "vsc_wf (hw\<lparr>v_env := w\<rparr>) = vsc_wf hw" "vsc_wf (hw\<lparr>v_wire := z\<rparr>) = vsc_wf hw" "vsc_wf (hw\<lparr>v_mutex := m\<rparr>) = vsc_wf hw"
  "vsc_wf (hw\<lparr>v_wakeupfw := m\<rparr>) = vsc_wf hw" "vsc_wf (hw\<lparr>v_lock_cnt := k\<rparr>) = vsc_wf hw"
  "vsc_wf (hw\<lparr>v_seq := q\<rparr>) = vsc_wf hw"
  by (simp_all add: vsc_wf_def)

lemma bus_frame_wf: "bus_frame hw hw' \<Longrightarrow> vsc_wf hw \<Longrightarrow> vsc_wf hw'"
  by (cases hw, cases hw') (auto simp: bus_frame_def vsc_wf_def)

text \<open>A transfer over the bus with a receive buffer.\<close>

lemma spi_dev_xfer_Inr:
  "spi_dev_xfer E out (Some inb) n hw = Inr ((ret, x), hw') \<longleftrightarrow>
     n \<le> length out \<and> n \<le> length inb \<and>
     (\<exists>r w. spi_sync E (take n out) (v_env hw) = ((ret, r), w) \<and>
        hw' = hw\<lparr>v_wire := v_wire hw @ (if ret = 0 then [take n out] else []), v_env := w\<rparr> \<and>
        x = Some (if ret \<noteq> 0 then inb else clocked n r @ drop n inb))"
  by (cases "spi_sync E (take n out) (v_env hw)"; cases "fst (spi_sync E (take n out) (v_env hw))")
    (auto simp: spi_dev_xfer_def bindF_eq_Inr load_eq_Inr store_def Let_def split: if_splits)


section \<open>The transfer loop\<close>

text \<open>One round of the loop, from a state with well-sized buffers.\<close>

lemma xfer_loop_round:
  assumes "xfer_loop E (Suc c) nl off syn ack hw = Inr ((ret, nl', ack'), hw')" and "vsc_wf hw"
  obtains (bus_error) "ret \<noteq> 0" "bus_frame hw hw'"
  | (no_sync) hw1 where "\<not> syn" "bus_frame hw hw1" "vsc_wf hw1"
      "xfer_loop E c nl off syn ack hw1 = Inr ((ret, nl', ack'), hw')"
  | (chunk) r w i bs ack1 nl1 hw1 where
      "spi_sync E (take (nat nl) (v_tx_buf1 hw)) (v_env hw) = ((0, r), w)"
      "if syn then i = 0 \<and> length bs = min (nat nl) (SPI_PACKET_SIZEOF - off) else
         find_sync_byte (clocked (nat nl) r) = Some i \<and> bs = drop i (clocked (nat nl) r)"
      "ack_copy off bs ack = Inr ack1"
      "if SPI_HDR_SIZE \<le> off + length bs
       then \<exists>n. PACKET_SIZE ack1 = Inr n \<and> nl1 = int n - int (off + length bs) + 1 else nl1 = nl"
      "bus_frame hw hw1" "vsc_wf hw1"
      "(if nl1 > 0 then xfer_loop E c nl1 (off + length bs) True ack1 hw1 else Inr ((0, nl1, ack1), hw1))
         = Inr ((ret, nl', ack'), hw')"
proof -
  obtain ret1 rx hw1 where x: "spi_dev_xfer E (v_tx_buf1 hw) (Some (v_rx_buf1 hw)) (nat nl) hw = Inr ((ret1, Some rx), hw1)"
    using assms(1) by (auto simp: bindF_eq_Inr)
  then obtain r w where sy: "spi_sync E (take (nat nl) (v_tx_buf1 hw)) (v_env hw) = ((ret1, r), w)"
    and len: "nat nl \<le> MAX_XFER_BUFFER_SIZE" and hw1: "hw1 = hw\<lparr>v_wire := v_wire hw @ (if ret1 = 0 then [take (nat nl) (v_tx_buf1 hw)] else []), v_env := w\<rparr>"
    and rx: "rx = (if ret1 \<noteq> 0 then v_rx_buf1 hw else clocked (nat nl) r @ drop (nat nl) (v_rx_buf1 hw))"
    using assms(2) by (auto simp: spi_dev_xfer_Inr vsc_wf_def)
  have lrx: "length rx = MAX_XFER_BUFFER_SIZE" using rx len assms(2) by (simp add: vsc_wf_def)
  let ?hw2 = "hw1\<lparr>v_rx_buf1 := rx, v_tx_buf1 := replicate MAX_XFER_BUFFER_SIZE 0\<rparr>"
  have fr: "bus_frame hw ?hw2" "vsc_wf ?hw2" using hw1 lrx assms(2) by (auto simp: vsc_wf_def)
  show thesis
  proof (cases "ret1 = 0")
    case False
    then have "ret = ret1" "hw' = hw1\<lparr>v_rx_buf1 := rx\<rparr>" using assms(1) x by auto
    then show thesis using bus_error False hw1 lrx assms(2) by (auto simp: vsc_wf_def)
  next
    case True
    have trx: "take (nat nl) rx = clocked (nat nl) r" using rx True by simp
    have rest: "(case (if syn then Some (0, min (nat nl) (SPI_PACKET_SIZEOF - off))
             else map_option (\<lambda>i. (i, nat nl - i)) (find_sync_byte (take (nat nl) rx))) of
         None \<Rightarrow> xfer_loop E c nl off syn ack ?hw2
       | Some (i, len) \<Rightarrow>
           bindF (load i len rx) (\<lambda>bs. bindF (ack_copy off bs ack) (\<lambda>ack.
           bindF (if off + len \<ge> SPI_HDR_SIZE
                  then bindF (PACKET_SIZE ack) (\<lambda>n. Inr (int n - int (off + len) + PACKET_PADDING_SIZE))
                  else Inr nl) (\<lambda>nl. if nl > 0 then xfer_loop E c nl (off + len) True ack ?hw2
           else Inr ((0, nl, ack), ?hw2))))) = Inr ((ret, nl', ack'), hw')"
      using assms(1) x True unfolding xfer_loop.simps Let_def by (simp split del: if_split)
    show thesis
    proof (cases "\<not> syn \<and> find_sync_byte (clocked (nat nl) r) = None")
      case True
      then show thesis using rest trx fr no_sync by auto
    next
      case no: False
      then obtain i where i: "(if syn then Some (0, min (nat nl) (SPI_PACKET_SIZEOF - off))
             else map_option (\<lambda>i. (i, nat nl - i)) (find_sync_byte (take (nat nl) rx)))
           = Some (i, if syn then min (nat nl) (SPI_PACKET_SIZEOF - off) else nat nl - i)"
        and ii: "if syn then i = 0 else find_sync_byte (clocked (nat nl) r) = Some i"
        using trx by (cases syn) auto
      let ?len = "if syn then min (nat nl) (SPI_PACKET_SIZEOF - off) else nat nl - i"
      obtain bs ack1 nl1 where bs: "load i ?len rx = Inr bs" and ac: "ack_copy off bs ack = Inr ack1"
        and n1: "(if off + ?len \<ge> SPI_HDR_SIZE
                  then bindF (PACKET_SIZE ack1) (\<lambda>n. Inr (int n - int (off + ?len) + PACKET_PADDING_SIZE))
                  else Inr nl) = Inr nl1"
        and fin: "(if nl1 > 0 then xfer_loop E c nl1 (off + ?len) True ack1 ?hw2
           else Inr ((0, nl1, ack1), ?hw2)) = Inr ((ret, nl', ack'), hw')"
        using rest unfolding i by (auto simp: bindF_eq_Inr simp del: if_split)
      have lbs: "length bs = ?len" using bs by (auto dest: load_length)
      have "bs = drop i (clocked (nat nl) r)" if "\<not> syn"
        using bs trx that by (simp add: load_eq_Inr flip: drop_take)
      then have A: "if syn then i = 0 \<and> length bs = min (nat nl) (SPI_PACKET_SIZEOF - off) else
         find_sync_byte (clocked (nat nl) r) = Some i \<and> bs = drop i (clocked (nat nl) r)"
        using ii lbs by (cases syn) auto
      have B: "if SPI_HDR_SIZE \<le> off + length bs
       then \<exists>n. PACKET_SIZE ack1 = Inr n \<and> nl1 = int n - int (off + length bs) + 1 else nl1 = nl"
        using n1 unfolding lbs [symmetric] by (auto simp: bindF_eq_Inr split: if_splits)
      have sy0: "spi_sync E (take (nat nl) (v_tx_buf1 hw)) (v_env hw) = ((0, r), w)" using sy True by simp
      show thesis
        by (rule chunk [OF sy0 A ac B fr fin [folded lbs]])
    qed
  qed
qed


lemma xfer_loop_frame:
  "xfer_loop E c nl off syn ack hw = Inr ((ret, nl', ack'), hw') \<Longrightarrow> vsc_wf hw \<Longrightarrow> bus_frame hw hw'"
proof (induction c arbitrary: nl off syn ack hw)
  case 0
  then show ?case by simp
next
  case (Suc c)
  from Suc.prems show ?case
  proof (cases rule: xfer_loop_round)
    case bus_error
    then show ?thesis by simp
  next
    case (no_sync hw1)
    then show ?thesis using Suc.IH bus_frame_trans by blast
  next
    case (chunk r w i bs ack1 nl1 hw1)
    then have "bus_frame hw1 hw'"
      using Suc.IH [of nl1 "off + length bs" True ack1 hw1] by (cases "nl1 > 0") auto
    with chunk(5) show ?thesis by (rule bus_frame_trans)
  qed
qed

text \<open>
  Once a chunk was copied, no further chunk can be: its destination lies outside the packet.  The only
  loop that goes on is one whose first chunk filled the packet and that copies nothing.
\<close>

lemma ack_copy_later:
  "ack_copy off bs ack = Inr ack1 \<Longrightarrow> length ack = SPI_PACKET_SIZEOF \<Longrightarrow> 0 < off \<Longrightarrow> bs = [] \<and> ack1 = ack"
  by (cases bs) (auto simp: ack_copy_def store_eq_Inr)

lemma xfer_loop_stuck:
  assumes "xfer_loop E c nl off True ack hw = Inr ((0, nl', ack'), hw')"
    and "length ack = SPI_PACKET_SIZEOF" "0 < off" "0 < nl" "vsc_wf hw"
    and "SPI_HDR_SIZE \<le> off \<Longrightarrow> \<exists>n. PACKET_SIZE ack = Inr n \<and> nl = int n - int off + 1"
  shows "0 < nl'"
  using assms
proof (induction c arbitrary: nl off ack hw)
  case 0
  then show ?case by simp
next
  case (Suc c)
  from Suc.prems(1,5) show ?case
  proof (cases rule: xfer_loop_round)
    case (chunk r w i bs ack1 nl1 hw1)
    then have "bs = []" "ack1 = ack" using ack_copy_later Suc.prems(2,3) by blast+
    moreover have "nl1 = nl" using chunk(4) calculation Suc.prems(6) by (auto split: if_splits)
    ultimately show ?thesis using chunk(6,7) Suc.IH [of nl off ack hw1] Suc.prems by auto
  qed auto
qed

lemma find_sync_drop:
  assumes "find_sync_byte bs = Some i" shows "i < length bs" and "drop i bs ! 0 = PACKET_SYNC"
  using assms by (auto simp: find_sync_byte_def find_index_Some)

text \<open>
  What the device clocked out in some successful transfer of \<open>n\<close> bytes, from the first sync byte on.
\<close>

definition received :: "'w spi_env \<Rightarrow> nat \<Rightarrow> bytes \<Rightarrow> bool" where
  "received E n p \<longleftrightarrow>
     (\<exists>t w r w' i. spi_sync E t w = ((0, r), w') \<and> find_sync_byte (clocked n r) = Some i \<and> p = drop i (clocked n r))"

lemma received_sync: "received E n p \<Longrightarrow> p \<noteq> [] \<and> p ! 0 = PACKET_SYNC \<and> length p \<le> n"
  unfolding received_def by (fastforce dest: find_sync_drop)

text \<open>
  A loop that ends in time has received the whole packet in the first chunk with a sync byte.
\<close>

lemma xfer_loop_complete:
  assumes "xfer_loop E c nl 0 False ack hw = Inr ((0, nl', ack'), hw')" and "nl' \<le> 0"
    and "length ack = SPI_PACKET_SIZEOF" "0 < nl" "vsc_wf hw"
  shows "\<exists>p n. received E (nat nl) p \<and> ack' = p @ drop (length p) ack \<and> length p \<le> SPI_PACKET_SIZEOF \<and>
    SPI_HDR_SIZE \<le> length p \<and> PACKET_SIZE ack' = Inr n \<and> n + 1 \<le> length p"
  using assms
proof (induction c arbitrary: hw)
  case 0
  then show ?case by simp
next
  case (Suc c)
  from Suc.prems(1,5) show ?case
  proof (cases rule: xfer_loop_round)
    case bus_error
    then show ?thesis by simp
  next
    case (no_sync hw1)
    then show ?thesis using Suc.IH Suc.prems by blast
  next
    case (chunk r w i bs ack1 nl1 hw1)
    then have i: "find_sync_byte (clocked (nat nl) r) = Some i" and bs: "bs = drop i (clocked (nat nl) r)" by auto
    have lbs: "length bs = nat nl - i" "0 < length bs" using bs find_sync_drop(1) [OF i] by auto
    then have ack1: "ack1 = bs @ drop (nat nl - i) ack" and le: "nat nl - i \<le> SPI_PACKET_SIZEOF"
      using chunk(3) Suc.prems(3) by (auto simp: ack_copy_def store_eq_Inr split: if_splits)
    then have lack1: "length ack1 = SPI_PACKET_SIZEOF" using lbs Suc.prems(3) by simp
    show ?thesis
    proof (cases "nl1 > 0")
      case True
      then have "xfer_loop E c nl1 (length bs) True ack1 hw1 = Inr ((0, nl', ack'), hw')" using chunk(7) by simp
      then have "0 < nl'"
        by (rule xfer_loop_stuck) (use lack1 lbs True chunk(4,6) in auto)
      then show ?thesis using Suc.prems(2) by simp
    next
      case False
      then have "ack' = ack1" "nl' = nl1" using chunk(7) by auto
      moreover have "SPI_HDR_SIZE \<le> length bs" using chunk(4) False Suc.prems(4) by (auto split: if_splits)
      moreover have "received E (nat nl) bs" using chunk(1) i bs by (auto simp: received_def)
      moreover have "\<exists>n. PACKET_SIZE ack1 = Inr n \<and> n + 1 \<le> length bs"
        using chunk(4) False calculation(3) by auto
      moreover have "ack1 = bs @ drop (length bs) ack" using ack1 lbs by simp
      ultimately show ?thesis using le lbs by auto
    qed
  qed
qed


text \<open>An acknowledge: a complete, checked packet for the sequence number \<open>s\<close>.\<close>

definition good_ack :: "'w spi_env \<Rightarrow> u32 \<Rightarrow> bytes \<Rightarrow> spi_xfer_hdr \<Rightarrow> bool" where
  "good_ack E s p h \<longleftrightarrow>
     spi_hdr_of p = Inr h \<and> SPI_HDR_SIZE + unat (x_len h) + CRC_SIZE < length p \<and>
     x_sync h = PACKET_SYNC \<and> x_seq h = s \<and> x_cmd h \<notin> {CMD_SPI_NACK, CMD_SPI_BUSY, CMD_SPI_FATAL_ERR} \<and>
     get_le (SPI_HDR_SIZE + unat (x_len h)) 4 p = Inr (spi_crc E (take (SPI_HDR_SIZE + unat (x_len h)) p))"

lemma get_le_append: "i + n \<le> length p \<Longrightarrow> get_le i n (p @ q) = get_le i n p"
  by (simp add: get_le_def load_def)

lemma xfer_internal_frame:
  assumes "mei_vsc_xfer_internal E pkt ack hw = Inr ((ret, ack'), hw')" and "vsc_wf hw"
  shows "bus_frame hw hw'"
proof -
  obtain n bs tx nl r1 hw1 where st: "store 0 bs (v_tx_buf1 hw) = Inr tx" and
    lp: "xfer_loop E MAX_XFER_COUNT (int (n + XFER_TIMEOUT_BYTES)) 0 False ack
      (hw\<lparr>v_tx_buf1 := tx, v_rx_buf1 := replicate MAX_XFER_BUFFER_SIZE 0\<rparr>) = Inr ((r1, nl, ack'), hw')"
    using assms(1) by (auto simp: mei_vsc_xfer_internal_def bindF_eq_Inr Let_def split: if_splits)
  have "length tx = MAX_XFER_BUFFER_SIZE" using store_length [OF st] assms(2) by (simp add: vsc_wf_def)
  then have "vsc_wf (hw\<lparr>v_tx_buf1 := tx, v_rx_buf1 := replicate MAX_XFER_BUFFER_SIZE 0\<rparr>)"
    "bus_frame hw (hw\<lparr>v_tx_buf1 := tx, v_rx_buf1 := replicate MAX_XFER_BUFFER_SIZE 0\<rparr>)"
    using assms(2) by (auto simp: vsc_wf_def)
  then show ?thesis using xfer_loop_frame [OF lp] bus_frame_trans by blast
qed

lemma xfer_internal_success:
  assumes "mei_vsc_xfer_internal E pkt (replicate SPI_PACKET_SIZEOF 0) hw = Inr ((0, ack), hw')" and "vsc_wf hw"
  shows "\<exists>n p h. received E n p \<and> good_ack E (v_seq hw) p h \<and> length p \<le> SPI_PACKET_SIZEOF \<and>
    ack = p @ replicate (SPI_PACKET_SIZEOF - length p) 0"
proof -
  obtain n bs tx nl where st: "store 0 bs (v_tx_buf1 hw) = Inr tx" and
    lp: "xfer_loop E MAX_XFER_COUNT (int (n + XFER_TIMEOUT_BYTES)) 0 False (replicate SPI_PACKET_SIZEOF 0)
      (hw\<lparr>v_tx_buf1 := tx, v_rx_buf1 := replicate MAX_XFER_BUFFER_SIZE 0\<rparr>) = Inr ((0, nl, ack), hw')"
    and nl: "nl \<le> 0" and val: "spi_validate_packet E ack hw' = Inr 0"
    using assms(1) by (auto simp: mei_vsc_xfer_internal_def bindF_eq_Inr Let_def split: if_splits)
  have "length tx = MAX_XFER_BUFFER_SIZE" using store_length [OF st] assms(2) by (simp add: vsc_wf_def)
  then have "vsc_wf (hw\<lparr>v_tx_buf1 := tx, v_rx_buf1 := replicate MAX_XFER_BUFFER_SIZE 0\<rparr>)"
    using assms(2) by (auto simp: vsc_wf_def)
  then obtain p m where p: "received E (n + XFER_TIMEOUT_BYTES) p" and ack: "ack = p @ replicate (SPI_PACKET_SIZEOF - length p) 0"
    and lp: "length p \<le> SPI_PACKET_SIZEOF" "SPI_HDR_SIZE \<le> length p" and m: "PACKET_SIZE ack = Inr m" "m < length p"
    using xfer_loop_complete [OF lp nl] by (fastforce simp: nat_add_distrib)
  obtain h where h: "spi_hdr_of ack = Inr h" and mm: "m = SPI_HDR_SIZE + unat (x_len h) + CRC_SIZE"
    using m(1) by (auto simp: PACKET_SIZE_def bindF_eq_Inr)
  have hp: "spi_hdr_of p = Inr h" using h lp(2) by (simp add: ack spi_hdr_of_append)
  have "x_sync h = p ! 0" using hp by (auto simp: spi_hdr_of_def bindF_eq_Inr load_eq_Inr)
  then have sync: "x_sync h = PACKET_SYNC" using received_sync [OF p] by simp
  have seq: "v_seq hw' = v_seq hw" using bus_frame_seq [OF xfer_internal_frame [OF assms]] by simp
  have "get_le (SPI_HDR_SIZE + unat (x_len h)) 4 ack = (get_le (SPI_HDR_SIZE + unat (x_len h)) 4 p :: u32 result)"
    unfolding ack by (rule get_le_append) (use m mm in simp)
  moreover have "take (SPI_HDR_SIZE + unat (x_len h)) ack = take (SPI_HDR_SIZE + unat (x_len h)) p"
    using m(2) mm by (simp add: ack)
  ultimately have "good_ack E (v_seq hw) p h"
    using val h hp sync seq m(2) mm
    by (auto simp: good_ack_def spi_validate_packet_def bindF_eq_Inr load_eq_Inr split: if_splits)
  then show ?thesis using p lp(1) ack by blast
qed


lemma wakeup_request_frame:
  assumes "spi_wakeup_request E hw = (r, hw')"
  shows "\<exists>k w. hw' = hw\<lparr>v_wakeupfw := False, v_lock_cnt := k, v_env := w\<rparr>"
proof -
  let ?upd = "\<lambda>h. h\<lparr>v_lock_cnt := 0, v_env := v_env hw\<rparr> = hw\<lparr>v_wakeupfw := False, v_lock_cnt := 0, v_env := v_env hw\<rparr>"
  have keep: "?upd (snd (spi_xfer_asserted E h))" if "?upd h" for h
    using that by (auto simp: spi_xfer_asserted_def spi_rom_xfer_asserted_def split: prod.splits)
  have "?upd (spi_xfer_lock hw)" by (simp add: spi_xfer_lock_def)
  then obtain b h1 where h1: "spi_xfer_asserted E (spi_xfer_lock hw) = (b, h1)" "?upd h1"
    using keep by (metis prod.collapse)
  define h2 where "h2 = (if b then h1 else let (k, w) = wait_irqs E (v_env h1) in h1\<lparr>v_env := w, v_lock_cnt := v_lock_cnt h1 + k\<rparr>)"
  have "?upd h2" using h1(2) by (auto simp: h2_def split: prod.splits)
  moreover have "hw' = snd (spi_xfer_asserted E h2)"
    using assms h1(1) by (auto simp: spi_wakeup_request_def spi_xfer_wait_asserted_def h2_def Let_def split: prod.splits if_splits)
  ultimately have "?upd hw'" using keep by blast
  then have "hw' = hw\<lparr>v_wakeupfw := False, v_lock_cnt := v_lock_cnt hw', v_env := v_env hw'\<rparr>"
    by (cases hw, cases hw') auto
  then show ?thesis by blast
qed

lemma tx_packet_length: "tx_packet E cmd s tx = Inr pkt \<Longrightarrow> length pkt = SPI_PACKET_SIZEOF"
  by (auto simp: tx_packet_def bindF_eq_Inr Let_def dest!: put_le_length store_length)

lemma ack_deliver_Inr:
  assumes "ack_deliver ack rx m = Inr (rx', l)" and "spi_hdr_of ack = Inr h"
  shows "if x_len h = 0 then l = 0 \<and> rx' = rx
    else 0 \<le> m \<and> nat (min (uint (x_len h)) m) \<le> length rx \<and> l = of_int (min (uint (x_len h)) m) \<and>
      rx' = take (nat (min (uint (x_len h)) m)) (drop SPI_HDR_SIZE ack) @ drop (nat (min (uint (x_len h)) m)) rx \<and>
      SPI_HDR_SIZE + nat (min (uint (x_len h)) m) \<le> length ack"
proof (cases "x_len h = 0")
  case True
  then show ?thesis using assms by (simp add: ack_deliver_def)
next
  case False
  let ?len = "min (uint (x_len h)) m"
  have len: "(if uint (x_len h) < m then uint (x_len h) else m) = ?len" by auto
  obtain data where "\<not> ?len < 0" "load SPI_HDR_SIZE (nat ?len) ack = Inr data" "store 0 data rx = Inr rx'" "l = of_int ?len"
    using assms False unfolding ack_deliver_def Let_def len by (auto simp: bindF_eq_Inr split: if_splits)
  then show ?thesis using False by (auto simp: load_eq_Inr store_eq_Inr)
qed

lemma xfer_locked_cases:
  assumes "xfer_locked E pkt rx m hw = Inr ((r, rx', l), hw')" and "vsc_wf hw"
  obtains (failed) hw1 where "r \<noteq> 0" "rx' = Some rx" "l = Some 0"
      "bus_frame (hw\<lparr>v_wakeupfw := False, v_mutex := True, v_lock_cnt := v_lock_cnt hw1\<rparr>) hw1"
      "hw' = (spi_wakeup_release hw1)\<lparr>v_mutex := False\<rparr>"
  | (acked) hw1 n p h ack rx1 l1 where "r = 0" "rx' = Some rx1" "l = Some l1"
      "bus_frame (hw\<lparr>v_wakeupfw := False, v_mutex := True, v_lock_cnt := v_lock_cnt hw1\<rparr>) hw1"
      "hw' = (spi_wakeup_release hw1)\<lparr>v_mutex := False\<rparr>"
      "received E n p" "good_ack E (v_seq hw) p h" "spi_hdr_of ack = Inr h"
      "ack = p @ replicate (SPI_PACKET_SIZEOF - length p) 0" "ack_deliver ack rx m = Inr (rx1, l1)"
proof -
  obtain ret hw2 where wk: "spi_wakeup_request E (hw\<lparr>v_mutex := True\<rparr>) = (ret, hw2)" by fastforce
  obtain k w where hw2: "hw2 = hw\<lparr>v_mutex := True, v_wakeupfw := False, v_lock_cnt := k, v_env := w\<rparr>"
    using wakeup_request_frame [OF wk] by auto
  then have fr: "bus_frame (hw\<lparr>v_wakeupfw := False, v_mutex := True, v_lock_cnt := k\<rparr>) hw2"
    and wf: "vsc_wf hw2" and sq: "v_seq hw2 = v_seq hw" and kk: "k = v_lock_cnt hw2"
    using assms(2) by (auto simp: bus_frame_def)
  show thesis
  proof (cases "ret = 0")
    case False
    then show thesis using assms(1) wk fr failed [of hw2] kk by (auto simp: xfer_locked_def)
  next
    case True
    then obtain ri ack hw3 where xi: "mei_vsc_xfer_internal E pkt (replicate SPI_PACKET_SIZEOF 0) hw2 = Inr ((ri, ack), hw3)"
      and rest: "(if ri \<noteq> 0 then Inr ((ri, Some rx, Some 0), (spi_wakeup_release hw3)\<lparr>v_mutex := False\<rparr>)
        else bindF (ack_deliver ack rx m) (\<lambda>(rx, l). Inr ((0, Some rx, Some l), (spi_wakeup_release hw3)\<lparr>v_mutex := False\<rparr>)))
        = Inr ((r, rx', l), hw')"
      using assms(1) wk by (auto simp: xfer_locked_def bindF_eq_Inr cong: if_cong)
    have fr3: "bus_frame (hw\<lparr>v_wakeupfw := False, v_mutex := True, v_lock_cnt := v_lock_cnt hw3\<rparr>) hw3"
      using bus_frame_trans [OF fr xfer_internal_frame [OF xi wf]] bus_frame_seq [OF xfer_internal_frame [OF xi wf]] kk by simp
    show thesis
    proof (cases "ri = 0")
      case False
      then show thesis using rest fr3 failed [of hw3] by auto
    next
      case True
      then obtain n p h where "received E n p" "good_ack E (v_seq hw) p h" "length p \<le> SPI_PACKET_SIZEOF"
        "ack = p @ replicate (SPI_PACKET_SIZEOF - length p) 0"
        using xfer_internal_success [of E pkt hw2 ack hw3] xi wf sq by auto
      moreover from this have "spi_hdr_of ack = Inr h" by (simp add: good_ack_def spi_hdr_of_append)
      moreover obtain rx1 l1 where "ack_deliver ack rx m = Inr (rx1, l1)" "r = 0" "rx' = Some rx1" "l = Some l1"
        "hw' = (spi_wakeup_release hw3)\<lparr>v_mutex := False\<rparr>"
        using rest True by (auto simp: bindF_eq_Inr)
      ultimately show thesis using fr3 acked by blast
    qed
  qed
qed

section \<open>A transfer that is answered\<close>

lemma store_at_end: "length a + length b \<le> n \<Longrightarrow>
    store (length a) b (a @ replicate (n - length a) z) = Inr (a @ b @ replicate (n - (length a + length b)) z)"
  by (simp add: store_def)

lemma tx_packet_bytes:
  assumes "length tx \<le> MAX_SPI_MSG_SIZE"
    and h_def: "h = spi_hdr_bytes \<lparr>x_sync = PACKET_SYNC, x_cmd = cmd, x_len = of_nat (length tx), x_seq = s\<rparr>"
  shows "tx_packet E cmd s tx = Inr (h @ tx @ le_bytes 4 (spi_crc E (h @ tx)) @ replicate (2748 - length tx) 0)"
proof -
  have lh: "length h = 8" by (simp add: h_def)
  have "store 0 (h @ tx) (replicate SPI_PACKET_SIZEOF 0) = Inr ((h @ tx) @ replicate (SPI_PACKET_SIZEOF - length (h @ tx)) 0)"
    using assms(1) lh by (simp add: store_def)
  then show ?thesis
    using assms(1) store_at_end [of "h @ tx" "le_bytes 4 (spi_crc E (h @ tx))" SPI_PACKET_SIZEOF 0] lh
    unfolding tx_packet_def put_le_def Let_def h_def [symmetric] by simp
qed

lemma tx_packet_size:
  assumes "length tx \<le> MAX_SPI_MSG_SIZE" and "tx_packet E cmd s tx = Inr pkt"
  shows "PACKET_SIZE pkt = Inr (length tx + 12)"
proof -
  have "unat (of_nat (length tx) :: u16) = length tx"
    using assms(1) by (simp add: unsigned_of_nat take_bit_eq_mod)
  then show ?thesis
    using assms(2) unfolding tx_packet_bytes [OF assms(1) refl]
    by (auto simp: PACKET_SIZE_def spi_hdr_of_bytes)
qed

text \<open>The round that copies the first piece, in full.\<close>

lemma xfer_loop_first:
  assumes "vsc_wf hw" and "n \<le> MAX_XFER_BUFFER_SIZE" and "spi_sync E (take n (v_tx_buf1 hw)) (v_env hw) = ((0, r), w)"
    and "find_sync_byte (clocked n r) = Some i" and "p = drop i (clocked n r)"
    and "length ack = SPI_PACKET_SIZEOF" and "SPI_HDR_SIZE \<le> length p" and "PACKET_SIZE p = Inr k"
    and "ack1 = p @ drop (length p) ack" and "nl = int k - int (length p) + 1"
    and "hw1 = hw\<lparr>v_wire := v_wire hw @ [take n (v_tx_buf1 hw)], v_env := w, v_rx_buf1 := clocked n r @ drop n (v_rx_buf1 hw),
                  v_tx_buf1 := replicate MAX_XFER_BUFFER_SIZE 0\<rparr>"
  shows "xfer_loop E (Suc c) (int n) 0 False ack hw =
    (if nl > 0 then xfer_loop E c nl (length p) True ack1 hw1 else Inr ((0, nl, ack1), hw1))" and "vsc_wf hw1"
proof -
  let ?rx = "clocked n r @ drop n (v_rx_buf1 hw)"
  have x: "spi_dev_xfer E (v_tx_buf1 hw) (Some (v_rx_buf1 hw)) n hw =
      Inr ((0, Some ?rx), hw\<lparr>v_wire := v_wire hw @ [take n (v_tx_buf1 hw)], v_env := w\<rparr>)"
    using assms(1-3) by (simp add: spi_dev_xfer_Inr vsc_wf_def)
  have i: "i < n" using find_sync_drop(1) [OF assms(4)] by simp
  have lp: "length p = n - i" using assms(5) by simp
  have ld: "load i (n - i) ?rx = Inr p"
    using i assms(2,5) by (simp add: load_def)
  have cp: "ack_copy 0 p ack = Inr ack1"
    using lp assms(2,6,7,9) by (auto simp: ack_copy_def store_def)
  have "PACKET_SIZE ack1 = Inr k" using assms(7-9) by (simp add: PACKET_SIZE_append)
  then show "xfer_loop E (Suc c) (int n) 0 False ack hw =
    (if nl > 0 then xfer_loop E c nl (length p) True ack1 hw1 else Inr ((0, nl, ack1), hw1))"
    using x assms(4,7,10,11) ld cp lp i by (simp add: Let_def)
  show "vsc_wf hw1" using assms(1,2,11) by (simp add: vsc_wf_def)
qed

lemma xfer_delivers:
  assumes "vsc_wf hw" and "length tx \<le> MAX_SPI_MSG_SIZE" and "kzalloc_ok E (v_env hw) = (True, w0)"
    and "spi_wakeup_request E (hw\<lparr>v_env := w0, v_seq := v_seq hw + 1, v_mutex := True\<rparr>) = (0, hw1)"
    and "\<forall>t. fst (spi_sync E t (v_env hw1)) = (0, r)" and "n = length tx + 712"
    and "find_sync_byte (clocked n r) = Some i" and "p = drop i (clocked n r)" and "good_ack E (v_seq hw + 1) p h"
    and "0 < x_len h" and "k = nat (min (uint (x_len h)) m)" and "0 \<le> m" and "k \<le> length rx"
  shows "\<exists>hw'. mei_vsc_xfer E cmd (Some tx) (length tx) (Some rx) m hw =
    Inr ((0, Some (take k (drop SPI_HDR_SIZE p) @ drop k rx), Some (of_nat k)), hw')"
proof -
  have ga: "spi_hdr_of p = Inr h" "12 + unat (x_len h) < length p" "x_seq h = v_seq hw + 1"
    "x_cmd h \<notin> {CMD_SPI_NACK, CMD_SPI_BUSY, CMD_SPI_FATAL_ERR}"
    "get_le (8 + unat (x_len h)) 4 p = Inr (spi_crc E (take (8 + unat (x_len h)) p))"
    using assms(9) by (auto simp: good_ack_def)
  have n: "n \<le> MAX_XFER_BUFFER_SIZE" "length p \<le> n" using assms(2,6,8) by auto
  obtain pkt where pkt: "tx_packet E cmd (v_seq hw + 1) tx = Inr pkt" using tx_packet_bytes [OF assms(2) refl] by blast
  note ps = tx_packet_size [OF assms(2) pkt] and lpkt = tx_packet_length [OF pkt]
  obtain k1 w1 where hw1: "hw1 = hw\<lparr>v_seq := v_seq hw + 1, v_mutex := True, v_wakeupfw := False, v_lock_cnt := k1, v_env := w1\<rparr>"
    using wakeup_request_frame [OF assms(4)] by auto
  let ?txb = "take (length tx + 12) pkt @ drop (length tx + 12) (v_tx_buf1 hw1)"
  let ?hw2 = "hw1\<lparr>v_tx_buf1 := ?txb, v_rx_buf1 := replicate MAX_XFER_BUFFER_SIZE 0\<rparr>"
  have wf: "vsc_wf hw1" using assms(1) hw1 by (simp add: vsc_wf_def)
  then have wf2: "vsc_wf ?hw2" using assms(2) lpkt by (simp add: vsc_wf_def)
  have sz: "PACKET_SIZE p = Inr (12 + unat (x_len h))" using ga(1) by (simp add: PACKET_SIZE_def)
  let ?ack = "p @ drop (length p) (replicate SPI_PACKET_SIZEOF 0)"
  have "fst (spi_sync E (take n (v_tx_buf1 ?hw2)) (v_env ?hw2)) = (0, r)" using assms(5) by simp
  then obtain w2 where sy: "spi_sync E (take n (v_tx_buf1 ?hw2)) (v_env ?hw2) = ((0, r), w2)"
    by (metis prod.collapse)
  let ?nl = "int (12 + unat (x_len h)) - int (length p) + 1"
  have neg: "\<not> 0 < ?nl" using ga(2) by linarith
  have first: "length (replicate SPI_PACKET_SIZEOF (0 :: u8)) = SPI_PACKET_SIZEOF" "SPI_HDR_SIZE \<le> length p"
    using ga(2) by simp_all
  obtain hw3 where lp: "xfer_loop E (Suc 4) (int n) 0 False (replicate SPI_PACKET_SIZEOF 0) ?hw2 = Inr ((0, ?nl, ?ack), hw3)"
    using xfer_loop_first(1) [OF wf2 n(1) sy assms(7,8) first sz refl refl refl, of 4] unfolding if_not_P [OF neg] by blast
  have wf_seq: "v_seq hw3 = v_seq hw + 1" using bus_frame_seq [OF xfer_loop_frame [OF lp wf2]] hw1 by simp
  have hack: "spi_hdr_of ?ack = Inr h" using ga(1,2) by (simp add: spi_hdr_of_append)
  have "spi_validate_packet E ?ack hw3 = Inr 0"
    using ga hack wf_seq n by (auto simp: spi_validate_packet_def get_le_append load_def)
  moreover have "uint (x_len h) = int (unat (x_len h))" by simp
  then have "\<not> 0 < 13 + (uint (x_len h) - int (length p))" using ga(2) by linarith
  ultimately have xi: "mei_vsc_xfer_internal E pkt (replicate SPI_PACKET_SIZEOF 0) hw1 = Inr ((0, ?ack), hw3)"
    using ps lpkt lp wf assms(2,6) ga(2)
    by (simp add: mei_vsc_xfer_internal_def load_def store_def vsc_wf_def Let_def add.commute)
  have kl: "k \<le> unat (x_len h)" "int k = min (uint (x_len h)) m"
    using assms(11,12) by (auto simp: min_def nat_le_iff)
  have "ack_deliver ?ack rx m = Inr (take k (drop SPI_HDR_SIZE p) @ drop k rx, of_nat k)"
  proof -
    have len: "(if uint (x_len h) < m then uint (x_len h) else m) = int k" using kl(2) by simp
    have "load SPI_HDR_SIZE k ?ack = Inr (take k (drop SPI_HDR_SIZE p))"
      using kl(1) ga(2) by (simp add: load_def)
    moreover have "x_len h \<noteq> 0" using assms(10) by auto
    moreover have "\<not> length p - SPI_HDR_SIZE \<le> k" using kl(1) ga(2) by simp
    ultimately show ?thesis
      using hack assms(13) by (simp add: ack_deliver_def Let_def len store_def min_def)
  qed
  then show ?thesis
    using assms(2,3,4) pkt xi by (simp add: mei_vsc_xfer_def xfer_locked_def load_def Let_def)
qed


text \<open>A scripted device and a checksum to run the model with.\<close>


definition sum_crc :: "bytes \<Rightarrow> u32" where "sum_crc bs = foldr (\<lambda>b s. ucast b + 3 * s) bs 0"

definition scripted_spi :: "bytes list spi_env" where
  "scripted_spi =
     \<lparr>spi_sync = (\<lambda>t w. case w of [] \<Rightarrow> ((- EIO, []), []) | r # w \<Rightarrow> ((0, r), w)),
      gpio_wakeuphost = (\<lambda>w. (True, w)), wait_irqs = (\<lambda>w. (1, w)), kzalloc_ok = (\<lambda>w. (True, w)),
      ktime = (\<lambda>w. ((0, 0), w)), crc32 = sum_crc\<rparr>"

definition no_fw :: vsc_boot_fw where
  "no_fw = \<lparr>main_ver = 0, sub_ver = 0, key_src = 0, svn = 0, fw_tx_buf = replicate FW_SPI_PKG_SIZE 0,
     fw_rx_buf = replicate FW_SPI_PKG_SIZE 0, fw_file_name = [], sensor_file_name = [], sku_cnf_file_name = [],
     fw_option = 0, fw_cnt = 0, frags = (\<lambda>_. \<lparr>fr_location = 0, fr_data = None, fr_size = 0\<rparr>)\<rparr>"

definition new_vsc_hw :: "'w \<Rightarrow> 'w mei_vsc_hw" where
  "new_vsc_hw w = \<lparr>v_rx_buf = replicate MAX_SPI_MSG_SIZE 0, v_tx_buf = replicate MAX_SPI_MSG_SIZE 0, v_rx_len = 0,
     v_resetfw = True, v_wakeupfw = True, v_irq_off = 0, v_fw = no_fw, v_host_ready = False, v_fw_ready = False,
     v_seq = 0, v_tx_buf1 = replicate MAX_XFER_BUFFER_SIZE 0, v_rx_buf1 = replicate MAX_XFER_BUFFER_SIZE 0,
     v_mutex = False, v_disconnect = False, v_lock_cnt = 0, v_write_lock_cnt = 0,
     v_cam_sensor_name = replicate 32 0, v_wire = [], v_env = w\<rparr>"

definition demo_reply :: bytes where
  "demo_reply = (let p = spi_hdr_bytes \<lparr>x_sync = PACKET_SYNC, x_cmd = 0x10, x_len = 2, x_seq = 1\<rparr> @ [7, 9]
     in [0, 0] @ p @ le_bytes 4 (NOT (sum_crc p)))"


lemma new_vsc_hw_wf [simp]: "vsc_wf (new_vsc_hw w)"
  by (simp add: vsc_wf_def new_vsc_hw_def)

text \<open>An acknowledge with the payload 7, 9 for the first sequence number, after two idle bytes.\<close>

lemma clocked_short: "length r \<le> n \<Longrightarrow> clocked n r = r @ replicate (n - length r) 0"
  by (simp add: clocked_def)

lemma demo_reply_parts:
  "length demo_reply = 16" "find_sync_byte (demo_reply @ z) = Some 2"
  "drop 2 demo_reply = spi_hdr_bytes \<lparr>x_sync = PACKET_SYNC, x_cmd = 0x10, x_len = 2, x_seq = 1\<rparr> @ [7, 9] @
     le_bytes 4 (NOT (sum_crc (spi_hdr_bytes \<lparr>x_sync = PACKET_SYNC, x_cmd = 0x10, x_len = 2, x_seq = 1\<rparr> @ [7, 9])))"
  by (simp_all add: demo_reply_def Let_def find_sync_byte_def spi_hdr_bytes_def)

lemma demo_ack_good:
  "good_ack scripted_spi 1 (drop 2 demo_reply @ replicate (Suc m) 0)
     \<lparr>x_sync = PACKET_SYNC, x_cmd = 0x10, x_len = 2, x_seq = 1\<rparr>"
  by (simp add: good_ack_def demo_reply_parts(3) spi_hdr_of_bytes get_le_def load_def word_of_le_le_bytes
      spi_crc_def scripted_spi_def)

definition demo_hw :: "bytes list mei_vsc_hw" where
  "demo_hw = new_vsc_hw [demo_reply]"

abbreviation demo_clocked :: bytes where
  "demo_clocked \<equiv> clocked (length [5 :: u8] + 712) demo_reply"

lemma demo_wake:
  "spi_wakeup_request scripted_spi (demo_hw\<lparr>v_env := [demo_reply], v_seq := v_seq demo_hw + 1, v_mutex := True\<rparr>) =
     (0, demo_hw\<lparr>v_seq := 1, v_mutex := True, v_wakeupfw := False, v_lock_cnt := 1\<rparr>)"
  by (simp add: spi_wakeup_request_def spi_xfer_wait_asserted_def spi_xfer_lock_def spi_xfer_asserted_def
      spi_rom_xfer_asserted_def scripted_spi_def new_vsc_hw_def demo_hw_def)

lemma demo_hw_fields [simp]: "vsc_wf demo_hw" "v_seq demo_hw = 0" "v_env demo_hw = [demo_reply]"
  by (simp_all add: demo_hw_def) (simp_all add: new_vsc_hw_def)

lemma demo_clocked_eq: "demo_clocked = demo_reply @ replicate 697 0"
  by (simp add: clocked_short demo_reply_parts(1))

lemma demo_received:
  "find_sync_byte demo_clocked = Some 2" "drop 2 demo_clocked = drop 2 demo_reply @ replicate (Suc 696) 0"
  "good_ack scripted_spi (v_seq demo_hw + 1) (drop 2 demo_clocked)
     \<lparr>x_sync = PACKET_SYNC, x_cmd = 0x10, x_len = 2, x_seq = 1\<rparr>"
proof -
  show "find_sync_byte demo_clocked = Some 2" unfolding demo_clocked_eq by (rule demo_reply_parts(2))
  show p: "drop 2 demo_clocked = drop 2 demo_reply @ replicate (Suc 696) 0"
    unfolding demo_clocked_eq by (simp add: demo_reply_parts(1))
  show "good_ack scripted_spi (v_seq demo_hw + 1) (drop 2 demo_clocked)
     \<lparr>x_sync = PACKET_SYNC, x_cmd = 0x10, x_len = 2, x_seq = 1\<rparr>"
    using demo_ack_good [of 696] unfolding p by simp
qed

lemma demo_payload: "take 2 (drop SPI_HDR_SIZE (drop 2 demo_clocked)) = [7, 9]"
  unfolding demo_received(2) demo_reply_parts(3) by (simp add: spi_hdr_bytes_def)

lemma demo_run:
  "\<exists>hw'. mei_vsc_xfer scripted_spi CMD_SPI_READ (Some [5]) (length [5 :: u8]) (Some [0, 0, 3]) 3 demo_hw =
     Inr ((0, Some (take 2 (drop SPI_HDR_SIZE (drop 2 demo_clocked)) @ drop 2 [0, 0, 3]), Some (of_nat 2)), hw')"
  by (rule xfer_delivers [OF demo_hw_fields(1) _ _ demo_wake _ refl demo_received(1) refl demo_received(3)])
    (simp_all add: scripted_spi_def)

section \<open>Properties of a transfer\<close>

text \<open>
  C17: A correct answer is delivered.  If the firmware wakes up and the first transfer clocks in, from
  its first sync byte on, a complete packet with a matching checksum, this sequence number and no
  error command, then the transfer returns 0 with the payload, cut to the caller's buffer.
\<close>
theorem vsc_xfer_delivers:
  assumes "vsc_wf hw" and "length tx \<le> MAX_SPI_MSG_SIZE" and "kzalloc_ok E (v_env hw) = (True, w0)"
    and "spi_wakeup_request E (hw\<lparr>v_env := w0, v_seq := v_seq hw + 1, v_mutex := True\<rparr>) = (0, hw1)"
    and "\<forall>t. fst (spi_sync E t (v_env hw1)) = (0, r)" and "n = length tx + 712"
    and "find_sync_byte (clocked n r) = Some i" and "p = drop i (clocked n r)" and "good_ack E (v_seq hw + 1) p h"
    and "0 < x_len h" and "k = nat (min (uint (x_len h)) m)" and "0 \<le> m" and "k \<le> length rx"
  shows "\<exists>hw'. mei_vsc_xfer E cmd (Some tx) (length tx) (Some rx) m hw =
    Inr ((0, Some (take k (drop SPI_HDR_SIZE p) @ drop k rx), Some (of_nat k)), hw')"
  by (rule xfer_delivers [OF assms])

theorem vsc_xfer_delivers_witness:
  "\<exists>hw'. mei_vsc_xfer scripted_spi CMD_SPI_READ (Some [5]) (length [5 :: u8]) (Some [0, 0, 3]) 3 demo_hw =
     Inr ((0, Some (take 2 (drop SPI_HDR_SIZE (drop 2 demo_clocked)) @ drop 2 [0, 0, 3]), Some (of_nat 2)), hw')"
  by (rule vsc_xfer_delivers [OF demo_hw_fields(1) _ _ demo_wake _ refl demo_received(1) refl demo_received(3)])
    (simp_all add: scripted_spi_def)

lemma bus_frame_fields:
  "bus_frame a b \<Longrightarrow> v_wakeupfw b = v_wakeupfw a \<and> v_seq b = v_seq a \<and> v_mutex b = v_mutex a"
  by (cases a, cases b) (auto simp: bus_frame_def)

text \<open>How a transfer with both buffers ends.\<close>

lemma xfer_refused:
  assumes "mei_vsc_xfer E cmd (Some tx) tlen (Some rx) m hw = Inr ((r, rx', l), hw')"
  obtains (refused) w where "r = - EINVAL \<or> r = - ENOMEM" "hw' = hw\<lparr>v_env := w\<rparr>" "rx' = Some rx"
  | (sent) pkt w where "xfer_locked E pkt rx m (hw\<lparr>v_env := w, v_seq := v_seq hw + 1\<rparr>) = Inr ((r, rx', l), hw')"
proof -
  obtain ok w where kz: "kzalloc_ok E (v_env hw) = (ok, w)" by fastforce
  show thesis
  proof (cases "tlen > MAX_SPI_MSG_SIZE")
    case True
    then have "r = - EINVAL" "hw' = hw\<lparr>v_env := v_env hw\<rparr>" "rx' = Some rx"
      using assms by (simp_all add: mei_vsc_xfer_def)
    then show thesis using refused by blast
  next
    case small: False
    show thesis
    proof (cases ok)
      case False
      then have "r = - ENOMEM" "hw' = hw\<lparr>v_env := w\<rparr>" "rx' = Some rx"
        using assms small kz by (simp_all add: mei_vsc_xfer_def)
      then show thesis using refused by blast
    next
      case True
      then obtain txd pkt where "tx_packet E cmd (v_seq hw + 1) txd = Inr pkt"
        "xfer_locked E pkt rx m (hw\<lparr>v_env := w, v_seq := v_seq hw + 1\<rparr>) = Inr ((r, rx', l), hw')"
        using assms small kz by (auto simp: mei_vsc_xfer_def bindF_eq_Inr Let_def)
      then show thesis using sent by blast
    qed
  qed
qed

lemma xfer_integrity:
  assumes "mei_vsc_xfer E cmd (Some tx) tlen (Some rx) m hw = Inr ((0, rx', l), hw')" and "vsc_wf hw" and "0 \<le> m"
  shows "\<exists>n p h. received E n p \<and> good_ack E (v_seq hw + 1) p h \<and>
    (let k = nat (min (uint (x_len h)) m) in
       l = Some (of_nat k) \<and> rx' = Some (take k (drop SPI_HDR_SIZE p) @ drop k rx))"
  using assms(1)
proof (cases rule: xfer_refused)
  case (sent pkt w)
  have wf: "vsc_wf (hw\<lparr>v_env := w, v_seq := v_seq hw + 1\<rparr>)" using assms(2) by simp
  from sent wf show ?thesis
  proof (cases rule: xfer_locked_cases)
    case (acked hw1 n p h ack rx1 l1)
    let ?k = "nat (min (uint (x_len h)) m)"
    have ga: "12 + unat (x_len h) < length p" using acked(7) by (simp add: good_ack_def)
    have k: "?k \<le> unat (x_len h)" "int ?k = min (uint (x_len h)) m" using assms(3) by (auto simp: min_def nat_le_iff)
    have tk: "take ?k (drop SPI_HDR_SIZE ack) = take ?k (drop SPI_HDR_SIZE p)"
      using k(1) ga by (simp add: acked(9))
    have l: "of_int (min (uint (x_len h)) m) = (of_nat ?k :: u32)" by (metis k(2) of_int_of_nat_eq)
    have z: "x_len h = 0 \<Longrightarrow> ?k = 0" using assms(3) by simp
    have "l1 = of_nat ?k \<and> rx1 = take ?k (drop SPI_HDR_SIZE p) @ drop ?k rx"
      using ack_deliver_Inr [OF acked(10,8)] unfolding l tk by (cases "x_len h = 0") (auto dest: z)
    then show ?thesis using acked(2,3,6,7) by (auto simp: Let_def)
  qed simp
qed simp

text \<open>
  C18: What a successful transfer received.  When \<open>mei_vsc_xfer\<close> returns 0, the device really clocked
  out, in one transfer and from its first sync byte on, a complete packet whose checksum is right,
  whose sequence number is the one of this request and which is no NACK, BUSY or fatal error; the
  caller's buffer starts with its payload, cut to the buffer, and the length reported is that of the
  part copied.  A packet that arrives in two pieces is never accepted.
\<close>
theorem vsc_xfer_integrity:
  assumes "mei_vsc_xfer E cmd (Some tx) tlen (Some rx) m hw = Inr ((0, rx', l), hw')" and "vsc_wf hw" and "0 \<le> m"
  shows "\<exists>n p h. received E n p \<and> good_ack E (v_seq hw + 1) p h \<and>
    (let k = nat (min (uint (x_len h)) m) in
       l = Some (of_nat k) \<and> rx' = Some (take k (drop SPI_HDR_SIZE p) @ drop k rx))"
  by (rule xfer_integrity [OF assms])

theorem vsc_xfer_integrity_witness:
  "\<exists>rx' l hw' n p h. mei_vsc_xfer scripted_spi CMD_SPI_READ (Some [5]) (length [5 :: u8]) (Some [0, 0, 3]) 3 demo_hw =
     Inr ((0, rx', l), hw') \<and> received scripted_spi n p \<and> good_ack scripted_spi 1 p h"
proof -
  obtain rx' l hw' where run: "mei_vsc_xfer scripted_spi CMD_SPI_READ (Some [5]) (length [5 :: u8]) (Some [0, 0, 3]) 3 demo_hw =
     Inr ((0, rx', l), hw')"
    using demo_run by blast
  show ?thesis using vsc_xfer_integrity [OF run demo_hw_fields(1)] run by auto
qed

lemma xfer_released:
  assumes "mei_vsc_xfer E cmd (Some tx) tlen (Some rx) m hw = Inr ((r, rx', l), hw')" and "vsc_wf hw"
  shows "(\<exists>w. (r = - EINVAL \<or> r = - ENOMEM) \<and> hw' = hw\<lparr>v_env := w\<rparr>) \<or>
    bus_frame (hw\<lparr>v_seq := v_seq hw + 1, v_wakeupfw := True, v_mutex := False, v_lock_cnt := v_lock_cnt hw'\<rparr>) hw'"
  using assms(1)
proof (cases rule: xfer_refused)
  case (sent pkt w)
  have wf: "vsc_wf (hw\<lparr>v_env := w, v_seq := v_seq hw + 1\<rparr>)" using assms(2) by simp
  have fin: "bus_frame (hw\<lparr>v_seq := v_seq hw + 1, v_wakeupfw := True, v_mutex := False, v_lock_cnt := v_lock_cnt hw'\<rparr>) hw'"
    if "bus_frame (hw\<lparr>v_env := w, v_seq := v_seq hw + 1, v_wakeupfw := False, v_mutex := True, v_lock_cnt := v_lock_cnt hw1\<rparr>) hw1"
      and "hw' = (spi_wakeup_release hw1)\<lparr>v_mutex := False\<rparr>" for hw1
    using that by (cases hw, cases hw1) (auto simp: bus_frame_def spi_wakeup_release_def spi_xfer_unlock_def)
  from sent wf show ?thesis
  proof (cases rule: xfer_locked_cases)
    case (failed hw1)
    then show ?thesis using fin by blast
  next
    case (acked hw1 n p h ack rx1 l1)
    then show ?thesis using fin by blast
  qed
qed auto

text \<open>
  C19: The bus is handed back.  However a transfer ends without a fault, the wake-up line is released
  and the mutex free; the sequence number advanced by one, or the transfer was refused before
  anything was sent; no other field of the device changed.
\<close>
theorem vsc_xfer_released:
  assumes "mei_vsc_xfer E cmd (Some tx) tlen (Some rx) m hw = Inr ((r, rx', l), hw')" and "vsc_wf hw"
  shows "(\<exists>w. (r = - EINVAL \<or> r = - ENOMEM) \<and> hw' = hw\<lparr>v_env := w\<rparr>) \<or>
    bus_frame (hw\<lparr>v_seq := v_seq hw + 1, v_wakeupfw := True, v_mutex := False, v_lock_cnt := v_lock_cnt hw'\<rparr>) hw'"
  by (rule xfer_released [OF assms])

theorem vsc_xfer_released_witness:
  "\<exists>rx' l hw'. mei_vsc_xfer scripted_spi CMD_SPI_READ (Some [5]) (length [5 :: u8]) (Some [0, 0, 3]) 3 demo_hw =
     Inr ((0, rx', l), hw') \<and> v_wakeupfw hw' \<and> v_seq hw' = 1"
proof -
  obtain rx' l hw' where run: "mei_vsc_xfer scripted_spi CMD_SPI_READ (Some [5]) (length [5 :: u8]) (Some [0, 0, 3]) 3 demo_hw =
     Inr ((0, rx', l), hw')"
    using demo_run by blast
  then show ?thesis using vsc_xfer_released [OF run demo_hw_fields(1)] by (auto dest: bus_frame_fields)
qed

lemma clocked_Nil [simp]: "clocked n r = [] \<longleftrightarrow> n = 0"
  by (metis length_0_conv length_clocked)

text \<open>The second piece of an answer never fits.\<close>

lemma second_piece:
  assumes "0 < nl" and "0 < off" and "off < SPI_PACKET_SIZEOF" and "length ack = SPI_PACKET_SIZEOF" and "vsc_wf hw"
    and "\<forall>t. fst (fst (spi_sync E t (v_env hw))) = 0"
  shows "xfer_loop E (Suc c) nl off True ack hw = Inl OutOfBounds"
proof (cases "nat nl \<le> MAX_XFER_BUFFER_SIZE")
  case False
  then show ?thesis using assms(5) by (simp add: spi_dev_xfer_def load_def vsc_wf_def)
next
  case True
  obtain ret r w where sy0: "spi_sync E (take (nat nl) (v_tx_buf1 hw)) (v_env hw) = ((ret, r), w)"
    by (metis prod.collapse)
  then have sy: "spi_sync E (take (nat nl) (v_tx_buf1 hw)) (v_env hw) = ((0, r), w)"
    using assms(6) by (metis fst_conv)
  have x: "spi_dev_xfer E (v_tx_buf1 hw) (Some (v_rx_buf1 hw)) (nat nl) hw =
      Inr ((0, Some (clocked (nat nl) r @ drop (nat nl) (v_rx_buf1 hw))),
        hw\<lparr>v_wire := v_wire hw @ [take (nat nl) (v_tx_buf1 hw)], v_env := w\<rparr>)"
    using sy True assms(5) by (simp add: spi_dev_xfer_Inr vsc_wf_def)
  let ?rx = "clocked (nat nl) r @ drop (nat nl) (v_rx_buf1 hw)"
  let ?len = "min (nat nl) (SPI_PACKET_SIZEOF - off)"
  have ld: "load 0 ?len ?rx = Inr (take ?len ?rx)" using True assms(5) by (simp add: load_def vsc_wf_def)
  have ne: "length (take ?len ?rx) = ?len" "0 < ?len" using True assms(1,3,5) by (auto simp: vsc_wf_def)
  then have "take ?len ?rx \<noteq> []" by auto
  then have "ack_copy off (take ?len ?rx) ack = Inl OutOfBounds"
    using assms(2-4) ne unfolding ack_copy_def store_def by (simp del: take_append)
  then show ?thesis using x ld by (simp add: Let_def)
qed

text \<open>
  C20: The loop for answers that come in pieces overruns its packet.  The destination of the second
  piece is \<open>&ack_pkt[offset]\<close>, which counts packets instead of bytes: when the first piece with a sync
  byte holds a header but not the whole packet with its padding byte, and the bus keeps working, the
  code always writes outside the packet (or transfers more than its buffers hold).
\<close>
theorem ack_pieces_overflow:
  assumes "vsc_wf hw" and "length pkt = SPI_PACKET_SIZEOF" and "PACKET_SIZE pkt = Inr k" and "k \<le> 2060"
    and "n = k + XFER_TIMEOUT_BYTES"
    and "\<forall>t. spi_sync E t (v_env hw) = ((0, r), w)" and "\<forall>t. fst (fst (spi_sync E t w)) = 0"
    and "find_sync_byte (clocked n r) = Some i" and "p = drop i (clocked n r)" and "spi_hdr_of p = Inr h"
    and "SPI_HDR_SIZE \<le> length p" and "length p < SPI_PACKET_SIZEOF"
    and "length p \<le> SPI_HDR_SIZE + unat (x_len h) + CRC_SIZE"
  shows "mei_vsc_xfer_internal E pkt (replicate SPI_PACKET_SIZEOF 0) hw = Inl OutOfBounds"
proof -
  let ?tx = "take k pkt @ drop k (v_tx_buf1 hw)"
  let ?hw2 = "hw\<lparr>v_tx_buf1 := ?tx, v_rx_buf1 := replicate MAX_XFER_BUFFER_SIZE 0\<rparr>"
  have st: "store 0 (take k pkt) (v_tx_buf1 hw) = Inr ?tx" and wf2: "vsc_wf ?hw2"
    using assms(1,2,4) by (auto simp: store_def vsc_wf_def)
  have sy: "spi_sync E (take n (v_tx_buf1 ?hw2)) (v_env ?hw2) = ((0, r), w)" using assms(6) by simp
  have sz: "PACKET_SIZE p = Inr (12 + unat (x_len h))" using assms(10) by (simp add: PACKET_SIZE_def)
  let ?nl = "int (12 + unat (x_len h)) - int (length p) + 1"
  let ?ack = "p @ drop (length p) (replicate SPI_PACKET_SIZEOF 0)"
  let ?hw1 = "?hw2\<lparr>v_wire := v_wire ?hw2 @ [take n (v_tx_buf1 ?hw2)], v_env := w, v_rx_buf1 := clocked n r @ drop n (v_rx_buf1 ?hw2),
                  v_tx_buf1 := replicate MAX_XFER_BUFFER_SIZE 0\<rparr>"
  have n: "n \<le> MAX_XFER_BUFFER_SIZE" using assms(4,5) by simp
  have pos: "0 < ?nl" using assms(13) by linarith
  note first = xfer_loop_first [OF wf2 n sy assms(8,9) _ assms(11) sz refl refl refl, of "replicate SPI_PACKET_SIZEOF 0"]
  have "xfer_loop E (Suc 4) (int n) 0 False (replicate SPI_PACKET_SIZEOF 0) ?hw2 =
      xfer_loop E (Suc 3) ?nl (length p) True ?ack ?hw1"
    using first(1) [of 4] pos by simp
  also have "\<dots> = Inl OutOfBounds"
    by (rule second_piece [OF pos]) (use assms(7,11,12) first(2) in auto)
  finally have "xfer_loop E 5 (int n) 0 False (replicate SPI_PACKET_SIZEOF 0) ?hw2 = Inl OutOfBounds"
    by simp
  then show ?thesis
    using assms(2-5) st by (simp add: mei_vsc_xfer_internal_def load_def Let_def)
qed

text \<open>A device that splits its answer: it announces a payload of 1000 bytes, of which 704 come at once.\<close>

definition long_hdr :: bytes where
  "long_hdr = spi_hdr_bytes \<lparr>x_sync = PACKET_SYNC, x_cmd = 0x10, x_len = 1000, x_seq = 1\<rparr>"

theorem ack_pieces_overflow_witness:
  "mei_vsc_xfer_internal (scripted_spi\<lparr>spi_sync := \<lambda>t w. ((0, long_hdr), w)\<rparr>)
     (spi_hdr_bytes \<lparr>x_sync = PACKET_SYNC, x_cmd = 1, x_len = 0, x_seq = 1\<rparr> @ replicate 2752 0)
     (replicate SPI_PACKET_SIZEOF 0) (new_vsc_hw []) = Inl OutOfBounds"
proof -
  have l: "length long_hdr = 8" by (simp add: long_hdr_def)
  have c: "clocked (12 + XFER_TIMEOUT_BYTES) long_hdr = long_hdr @ replicate 704 0" using l by (simp add: clocked_short)
  have sync: "find_sync_byte (clocked (12 + XFER_TIMEOUT_BYTES) long_hdr) = Some 0"
    unfolding c by (simp add: find_sync_byte_def long_hdr_def spi_hdr_bytes_def)
  have hdr: "spi_hdr_of (drop 0 (clocked (12 + XFER_TIMEOUT_BYTES) long_hdr)) =
      Inr \<lparr>x_sync = PACKET_SYNC, x_cmd = 0x10, x_len = 1000, x_seq = 1\<rparr>"
    unfolding c by (simp add: long_hdr_def spi_hdr_of_bytes)
  have "length (spi_hdr_bytes \<lparr>x_sync = PACKET_SYNC, x_cmd = 1, x_len = 0, x_seq = 1\<rparr> @ replicate 2752 (0 :: u8)) = SPI_PACKET_SIZEOF"
    by simp
  moreover have "PACKET_SIZE (spi_hdr_bytes \<lparr>x_sync = PACKET_SYNC, x_cmd = 1, x_len = 0, x_seq = 1\<rparr> @ replicate 2752 0) = Inr 12"
    by (simp add: PACKET_SIZE_def spi_hdr_of_bytes)
  ultimately show ?thesis
    by (rule ack_pieces_overflow [OF new_vsc_hw_wf _ _ _ refl _ _ sync refl hdr]) simp_all
qed

section \<open>The word swap\<close>

lemma swab_words_involution: "swab_words (swab_words bs) = bs"
  by (induction bs rule: swab_words.induct) simp_all

lemma length_swab_words [simp]: "length (swab_words bs) = length bs"
  by (induction bs rule: swab_words.induct) simp_all

section \<open>Transfers to the boot ROM\<close>

lemma rom_wait_frame: "rom_wait E n hw = (b, hw') \<Longrightarrow> \<exists>w. hw' = hw\<lparr>v_env := w\<rparr>"
proof (induction n arbitrary: hw)
  case 0
  then show ?case by (auto intro: exI [of _ "v_env hw"])
next
  case (Suc n)
  then show ?case
    by (fastforce simp: spi_rom_xfer_asserted_def Let_def split: prod.splits if_splits)
qed

lemma swab_words_take_drop:
  "len mod 4 = 0 \<Longrightarrow> len \<le> length out \<Longrightarrow> swab_words (take len (swab_words (take len out) @ x)) = take len out"
  by (simp add: swab_words_involution)

lemma spi_dev_xfer_wire:
  assumes "spi_dev_xfer E out inb n hw = Inr ((ret, inb'), hw')"
  shows "n \<le> length out \<and> (\<exists>w. hw' = hw\<lparr>v_wire := v_wire hw @ (if ret = 0 then [take n out] else []), v_env := w\<rparr>) \<and>
    (case inb of None \<Rightarrow> inb' = None
     | Some i \<Rightarrow> \<exists>r. n \<le> length i \<and> inb' = Some (if ret = 0 then clocked n r @ drop n i else i))"
proof (cases inb)
  case None
  then show ?thesis
    using assms by (auto simp: spi_dev_xfer_def bindF_eq_Inr load_eq_Inr Let_def split: prod.splits)
next
  case (Some i)
  then show ?thesis using assms by (auto simp: spi_dev_xfer_Inr)
qed

lemma rom_xfer:
  assumes "spi_rom_dev_xfer E out inb len hw = Inr ((ret, out', inb'), hw')" and "len mod 4 = 0"
  shows "len \<le> length out \<and> out' = swab_words (take len out) @ drop len out \<and>
    (\<exists>w sent. hw' = hw\<lparr>v_mutex := False, v_wire := v_wire hw @ sent, v_env := w\<rparr> \<and>
       (sent = [] \<and> ret \<noteq> 0 \<or> sent = [swab_words (take len out)] \<and> ret = 0)) \<and>
    (inb = None \<longrightarrow> inb' = None) \<and>
    (\<forall>i. inb = Some i \<longrightarrow> (\<exists>r. inb' = Some (if ret = 0 then swab_words (clocked len r) @ drop len i else i)))"
proof -
  obtain ready hw1 where rw: "rom_wait E LOADER_XFER_RETRY_COUNT (hw\<lparr>v_mutex := True\<rparr>) = (ready, hw1)" by fastforce
  obtain w where hw1: "hw1 = hw\<lparr>v_mutex := True, v_env := w\<rparr>" using rom_wait_frame [OF rw] by auto
  have len: "len \<le> length out" using assms by (auto simp: spi_rom_dev_xfer_def bindF_eq_Inr load_eq_Inr)
  let ?o = "swab_words (take len out) @ drop len out"
  have tk: "take len ?o = swab_words (take len out)" using len by simp
  have rest: "(if \<not> ready then Inr ((- EAGAIN, ?o, inb), hw1\<lparr>v_mutex := False\<rparr>)
      else bindF (spi_dev_xfer E ?o inb len hw1) (\<lambda>((ret, in_data), hw).
        let hw = hw\<lparr>v_mutex := False\<rparr> in
        case in_data of None \<Rightarrow> Inr ((ret, ?o, None), hw)
        | Some inb \<Rightarrow> if ret \<noteq> 0 then Inr ((ret, ?o, Some inb), hw)
            else Inr ((0, ?o, Some (swab_words (take len inb) @ drop len inb)), hw))) = Inr ((ret, out', inb'), hw')"
    using assms rw len by (simp add: spi_rom_dev_xfer_def load_def Let_def)
  show ?thesis
  proof (cases ready)
    case False
    then have "ret = - EAGAIN" "out' = ?o" "inb' = inb" "hw' = hw1\<lparr>v_mutex := False\<rparr>" using rest by auto
    then show ?thesis using len hw1
      by (auto intro: exI [of _ w] exI [of _ "[]"])
  next
    case True
    then obtain r1 in1 hw2 where sx: "spi_dev_xfer E ?o inb len hw1 = Inr ((r1, in1), hw2)"
      using rest by (auto simp: bindF_eq_Inr)
    have fin: "(case in1 of None \<Rightarrow> Inr ((r1, ?o, None), hw2\<lparr>v_mutex := False\<rparr>)
        | Some inb \<Rightarrow> if r1 \<noteq> 0 then Inr ((r1, ?o, Some inb), hw2\<lparr>v_mutex := False\<rparr>)
            else Inr ((0, ?o, Some (swab_words (take len inb) @ drop len inb)), hw2\<lparr>v_mutex := False\<rparr>))
        = (Inr ((ret, out', inb'), hw') :: ((int \<times> bytes \<times> bytes option) \<times> 'a mei_vsc_hw) result)"
      using rest True sx by (simp add: Let_def)
    have res: "out' = ?o" "hw' = hw2\<lparr>v_mutex := False\<rparr>" "ret = r1"
        "inb' = (case in1 of None \<Rightarrow> None | Some i \<Rightarrow> Some (if ret \<noteq> 0 then i else swab_words (take len i) @ drop len i))"
      using fin by (cases in1; auto split: if_splits)+
    note d = spi_dev_xfer_wire [OF sx, unfolded tk, folded res(3)]
    from d obtain w2 where w2: "hw2 = hw1\<lparr>v_wire := v_wire hw1 @ (if ret = 0 then [swab_words (take len out)] else []), v_env := w2\<rparr>"
      by blast
    have "\<exists>w sent. hw' = hw\<lparr>v_mutex := False, v_wire := v_wire hw @ sent, v_env := w\<rparr> \<and>
       (sent = [] \<and> ret \<noteq> 0 \<or> sent = [swab_words (take len out)] \<and> ret = 0)"
      using res(2) w2 hw1
      by (intro exI [of _ w2] exI [of _ "if ret = 0 then [swab_words (take len out)] else []"]) simp
    moreover have "inb = None \<longrightarrow> inb' = None" using d res(4) by auto
    moreover have "\<exists>r. inb' = Some (if ret = 0 then swab_words (clocked len r) @ drop len i else i)" if "inb = Some i" for i
      using d res(4) that by (auto simp: split: if_splits)
    ultimately show ?thesis using len res(1) by blast
  qed
qed

text \<open>
  Transfers to the ROM are word swapped on the wire and back in memory.  For a length that is a
  multiple of 4, exactly the bytes of the buffer with each word reversed are clocked out, once, if the
  transfer succeeds and nothing otherwise; the caller's buffer is left swapped (swapping it again gives
  the original), the mutex is free, and a receive buffer gets what was clocked in, each word reversed.
\<close>
lemma rom_xfer_swapped:
  assumes "spi_rom_dev_xfer E out (Some i) len hw = Inr ((ret, out', inb'), hw')" and "len mod 4 = 0"
  shows "swab_words (take len out') = take len out \<and> drop len out' = drop len out \<and> \<not> v_mutex hw' \<and>
    v_wire hw' = v_wire hw @ (if ret = 0 then [swab_words (take len out)] else []) \<and>
    (\<exists>r. inb' = Some (if ret = 0 then swab_words (clocked len r) @ drop len i else i))"
  using rom_xfer [OF assms] by (auto simp: swab_words_involution)

end
