(* ===== verification/Vsc_Firmware.thy ===== *)
theory Vsc_Firmware
  imports Vsc_Transport
begin

text \<open>
  \<^verbatim>\<open>drivers/misc/mei/hw-vsc.c\<close>, the firmware loader: the reset lines, the silicon check over the
  boot ROM, the three firmware files and their fragments, and the download of the boot loader and of
  the images.

  A pointer into a firmware file is an offset; an access outside the file faults.  The frames are the
  bytes of \<open>fw.tx_buf\<close> at the offsets of the packed structs.  \<open>request_firmware\<close> is a parameter.
\<close>

section \<open>Constants\<close>

abbreviation VSC_MAGIC_NUM :: u32 where "VSC_MAGIC_NUM \<equiv> 0x49505343"
abbreviation VSC_FILE_MAGIC :: u32 where "VSC_FILE_MAGIC \<equiv> 0x46564353"
abbreviation VSC_FW_MAGIC :: u32 where "VSC_FW_MAGIC \<equiv> 0x49574653"
abbreviation SKU_CONFIG_LOC :: u32 where "SKU_CONFIG_LOC \<equiv> 0x5001A000"
abbreviation SKU_MAX_SIZE :: nat where "SKU_MAX_SIZE \<equiv> 4100"
abbreviation VSC_CMD_QUERY :: u8 where "VSC_CMD_QUERY \<equiv> 0"
abbreviation VSC_CMD_DL_SET :: u8 where "VSC_CMD_DL_SET \<equiv> 1"
abbreviation VSC_CMD_DL_START :: u8 where "VSC_CMD_DL_START \<equiv> 2"
abbreviation VSC_CMD_DL_CONT :: u8 where "VSC_CMD_DL_CONT \<equiv> 3"
abbreviation VSC_CMD_DUMP_MEM :: u8 where "VSC_CMD_DUMP_MEM \<equiv> 4"
abbreviation VSC_CMD_RESERVED :: u8 where "VSC_CMD_RESERVED \<equiv> 8"
abbreviation VSC_TOKEN_BOOTLOADER_REQ :: u8 where "VSC_TOKEN_BOOTLOADER_REQ \<equiv> 1"
abbreviation VSC_TOKEN_DUMP_RESP :: u8 where "VSC_TOKEN_DUMP_RESP \<equiv> 4"
abbreviation VSC_TOKEN_ERROR :: u8 where "VSC_TOKEN_ERROR \<equiv> 7"
abbreviation VSC_TOKEN_CAM_BOOT :: u8 where "VSC_TOKEN_CAM_BOOT \<equiv> 10"
abbreviation MAX_SVN_VALUE :: u32 where "MAX_SVN_VALUE \<equiv> 0xFFFFFFFE"
abbreviation EFUSE1_ADDR :: u32 where "EFUSE1_ADDR \<equiv> 0xE0030038"
abbreviation STRAP_ADDR :: u32 where "STRAP_ADDR \<equiv> 0xE0030100"

datatype IMAGE_TYPE =
    IMG_DEBUG | IMG_BOOTLOADER | IMG_EM7D | IMG_ARCSEM | IMG_ACE_RUNTIME | IMG_ACE_VISION
  | IMG_ACE_CONFIG | IMG_SKU_CONFIG

definition img_code :: "IMAGE_TYPE \<Rightarrow> u8" where
  "img_code t = (case t of IMG_DEBUG \<Rightarrow> 0 | IMG_BOOTLOADER \<Rightarrow> 1 | IMG_EM7D \<Rightarrow> 2 | IMG_ARCSEM \<Rightarrow> 3
     | IMG_ACE_RUNTIME \<Rightarrow> 4 | IMG_ACE_VISION \<Rightarrow> 5 | IMG_ACE_CONFIG \<Rightarrow> 6 | IMG_SKU_CONFIG \<Rightarrow> 7)"

record 'w fw_env = "'w spi_env" +
  request_firmware :: "string \<Rightarrow> 'w \<Rightarrow> (int \<times> bytes option) \<times> 'w"

section \<open>Frames\<close>

text \<open>Several fields stored into a frame, in order.\<close>

fun put_all :: "(nat \<times> bytes) list \<Rightarrow> bytes \<Rightarrow> bytes result" where
  "put_all [] buf = Inr buf"
| "put_all ((off, b) # fs) buf = bindF (store off b buf) (put_all fs)"

definition memset0 :: "nat \<Rightarrow> nat \<times> bytes" where
  "memset0 n = (0, replicate n 0)"

definition frame_hdr :: "u8 \<Rightarrow> nat \<times> bytes" where
  "frame_hdr cmd = (0, le_bytes 4 VSC_MAGIC_NUM @ [cmd])"

definition dump_mem_data :: "u32 \<Rightarrow> u16 \<Rightarrow> (nat \<times> bytes) list" where
  "dump_mem_data addr len = [(8, le_bytes 4 addr), (6, le_bytes 2 len)]"

text \<open>The fields \<open>data.dl_start\<close> without the checksum, in the ROM's and in the boot loader's layout.\<close>

definition rom_dl_start :: "u8 \<Rightarrow> u16 \<Rightarrow> u32 \<Rightarrow> u32 \<Rightarrow> (nat \<times> bytes) list" where
  "rom_dl_start img_type opt len loc = [(5, [img_type]), (8, le_bytes 4 len), (12, le_bytes 4 loc), (6, le_bytes 2 opt)]"

definition fw_dl_start :: "u8 \<Rightarrow> u16 \<Rightarrow> u32 \<Rightarrow> u32 \<Rightarrow> (nat \<times> bytes) list" where
  "fw_dl_start img_type opt len loc = [(7, [img_type]), (8, le_bytes 4 len), (12, le_bytes 4 loc), (5, le_bytes 2 opt)]"

definition sum_CRC :: "bytes \<Rightarrow> u32" where
  "sum_CRC bs = fold (\<lambda>b crc. crc + ucast b) bs 0"

text \<open>The checksum of the first \<open>n\<close> bytes, stored at \<open>off\<close>.\<close>

definition put_crc :: "nat \<Rightarrow> nat \<Rightarrow> bytes \<Rightarrow> bytes result" where
  "put_crc n off buf = bindF (load 0 n buf) (\<lambda>bs. put_le off 4 (sum_CRC bs) buf)"

definition set_tx :: "bytes \<Rightarrow> 'w mei_vsc_hw \<Rightarrow> 'w mei_vsc_hw" where
  "set_tx b hw = hw\<lparr>v_fw := (v_fw hw)\<lparr>fw_tx_buf := b\<rparr>\<rparr>"

definition set_rx :: "bytes \<Rightarrow> 'w mei_vsc_hw \<Rightarrow> 'w mei_vsc_hw" where
  "set_rx b hw = hw\<lparr>v_fw := (v_fw hw)\<lparr>fw_rx_buf := b\<rparr>\<rparr>"

text \<open>A frame filled in and transferred; the reply goes to \<open>fw.rx_buf\<close> if \<open>reply\<close> is set.\<close>

definition send_frame ::
  "('w, 'x) spi_env_scheme \<Rightarrow> (nat \<times> bytes) list \<Rightarrow> (bytes \<Rightarrow> bytes result) \<Rightarrow> bool \<Rightarrow> nat \<Rightarrow> 'w mei_vsc_hw
   \<Rightarrow> (int \<times> 'w mei_vsc_hw) result" where
  "send_frame E flds fin reply len hw =
     bindF (put_all flds (fw_tx_buf (v_fw hw))) (\<lambda>f.
     bindF (fin f) (\<lambda>f.
     bindF (spi_rom_dev_xfer (spi_env.truncate E) f (if reply then Some (fw_rx_buf (v_fw hw)) else None) len (set_tx f hw))
       (\<lambda>((ret, out, inb), hw).
     let hw = set_tx out hw in
     Inr (ret, case inb of None \<Rightarrow> hw | Some r \<Rightarrow> set_rx r hw))))"

text \<open>\<open>memset(token, 0, sizeof(*token))\<close>, with the token in \<open>fw.rx_buf\<close> and in \<open>rx_buf\<close>.\<close>

definition clear_token :: "nat \<Rightarrow> 'w mei_vsc_hw \<Rightarrow> 'w mei_vsc_hw result" where
  "clear_token n hw = bindF (put_all [memset0 n] (fw_rx_buf (v_fw hw))) (\<lambda>r. Inr (set_rx r hw))"

definition clear_rx :: "nat \<Rightarrow> 'w mei_vsc_hw \<Rightarrow> 'w mei_vsc_hw result" where
  "clear_rx n hw = bindF (put_all [memset0 n] (v_rx_buf hw)) (\<lambda>r. Inr (hw\<lparr>v_rx_buf := r\<rparr>))"

definition token_of :: "'w mei_vsc_hw \<Rightarrow> u8 result" where
  "token_of hw = bindF (load 4 1 (fw_rx_buf (v_fw hw))) (\<lambda>b. Inr (b ! 0))"

definition payload_word :: "'w mei_vsc_hw \<Rightarrow> u32 result" where
  "payload_word hw = get_le 8 4 (fw_rx_buf (v_fw hw))"

section \<open>Reset and silicon check\<close>

definition vsc_reset :: "'w mei_vsc_hw \<Rightarrow> int \<times> 'w mei_vsc_hw" where
  "vsc_reset hw =
     (let hw = hw\<lparr>v_resetfw := True\<rparr>; hw = hw\<lparr>v_resetfw := False\<rparr>; hw = hw\<lparr>v_resetfw := True\<rparr>
      in (0, hw\<lparr>v_wakeupfw := True\<rparr>))"

text \<open>\<open>snprintf\<close> of a template around the sensor name, a C string in an array of 32 bytes.\<close>

definition cstring :: "bytes \<Rightarrow> string result" where
  "cstring bs = (if 0 \<in> set bs then Inr (map (\<lambda>b. char_of (unat b)) (takeWhile (\<lambda>b. b \<noteq> 0) bs)) else Inl OutOfBounds)"

definition snprintf_name :: "string \<Rightarrow> bytes \<Rightarrow> string \<Rightarrow> string result" where
  "snprintf_name pre name post = bindF (cstring name) (\<lambda>s. Inr (take 255 (pre @ s @ post)))"

text \<open>The last part of the check: the file names, for silicon A1.\<close>

definition set_file_names :: "'w mei_vsc_hw \<Rightarrow> 'w mei_vsc_hw result" where
  "set_file_names hw =
     (let fw = v_fw hw; dir = (if key_src fw = 0 then ''vsc/soc_a1/'' else ''vsc/soc_a1_prod/'');
          suf = (if key_src fw = 0 then ''_a1.bin'' else ''_a1_prod.bin'') in
      if sub_ver fw \<noteq> 2 then Inr hw
      else
        bindF (snprintf_name (dir @ ''ivsc_pkg_'') (v_cam_sensor_name hw) (''_0'' @ suf)) (\<lambda>sensor.
        bindF (snprintf_name (dir @ ''ivsc_skucfg_'') (v_cam_sensor_name hw) (''_0_1'' @ suf)) (\<lambda>sku.
        Inr (hw\<lparr>v_fw := fw\<lparr>fw_file_name := dir @ ''ivsc_fw'' @ suf, sensor_file_name := sensor, sku_cnf_file_name := sku\<rparr>\<rparr>))))"

definition check_strap :: "('w, 'x) spi_env_scheme \<Rightarrow> 'w mei_vsc_hw \<Rightarrow> (int \<times> 'w mei_vsc_hw) result" where
  "check_strap E hw =
     bindF (clear_token VSC_ROM_SPI_PKG_SIZE hw) (\<lambda>hw.
     bindF (send_frame E (memset0 VSC_ROM_SPI_PKG_SIZE # frame_hdr VSC_CMD_DUMP_MEM # dump_mem_data STRAP_ADDR 4)
              Inr True VSC_ROM_SPI_PKG_SIZE hw) (\<lambda>(ret, hw).
     bindF (token_of hw) (\<lambda>token.
     if ret \<noteq> 0 \<or> token = VSC_TOKEN_ERROR then Inr (ret, hw)
     else
       bindF (send_frame E [frame_hdr VSC_CMD_RESERVED] Inr True VSC_ROM_SPI_PKG_SIZE hw) (\<lambda>(ret, hw).
       bindF (token_of hw) (\<lambda>token.
       if ret \<noteq> 0 \<or> token = VSC_TOKEN_ERROR \<or> token \<noteq> VSC_TOKEN_DUMP_RESP then Inr (- EINVAL, hw)
       else
         bindF (payload_word hw) (\<lambda>strap.
         bindF (set_file_names (hw\<lparr>v_fw := (v_fw hw)\<lparr>key_src := drop_bit 16 strap AND 1\<rparr>\<rparr>)) (\<lambda>hw.
         Inr (0, hw))))))))"

definition check_silicon :: "('w, 'x) spi_env_scheme \<Rightarrow> 'w mei_vsc_hw \<Rightarrow> (int \<times> 'w mei_vsc_hw) result" where
  "check_silicon E hw =
     bindF (send_frame E (frame_hdr VSC_CMD_DUMP_MEM # dump_mem_data EFUSE1_ADDR 4) Inr True VSC_ROM_SPI_PKG_SIZE hw) (\<lambda>(ret, hw).
     bindF (token_of hw) (\<lambda>token.
     if ret \<noteq> 0 \<or> token = VSC_TOKEN_ERROR then Inr (ret, hw)
     else
       bindF (clear_token VSC_ROM_SPI_PKG_SIZE hw) (\<lambda>hw.
       bindF (send_frame E [memset0 VSC_ROM_SPI_PKG_SIZE, frame_hdr VSC_CMD_RESERVED] Inr True VSC_ROM_SPI_PKG_SIZE hw) (\<lambda>(ret, hw).
       bindF (token_of hw) (\<lambda>token.
       if ret \<noteq> 0 \<or> token = VSC_TOKEN_ERROR \<or> token \<noteq> VSC_TOKEN_DUMP_RESP then Inr (- EIO, hw)
       else
         bindF (payload_word hw) (\<lambda>efuse1.
         let hw = hw\<lparr>v_fw := (v_fw hw)\<lparr>main_ver := drop_bit 4 efuse1 AND 0xF, sub_ver := efuse1 AND 0xF\<rparr>\<rparr> in
         if main_ver (v_fw hw) \<noteq> 0 then Inr (- EINVAL, hw)
         else if sub_ver (v_fw hw) \<noteq> 0 \<and> sub_ver (v_fw hw) \<noteq> 2 then Inr (- EINVAL, hw)
         else check_strap E hw))))))"

section \<open>The firmware files\<close>

text \<open>
  A file is its bytes; a pointer into it is an offset.  \<open>andthen\<close> is the sequence of two steps where
  the first returns early on an error code.
\<close>

definition andthen :: "(int \<times> 's) result \<Rightarrow> ('s \<Rightarrow> (int \<times> 's) result) \<Rightarrow> (int \<times> 's) result" where
  "andthen x f = bindF x (\<lambda>(ret, s). if ret \<noteq> 0 then Inr (ret, s) else f s)"

definition image_loc :: "bytes \<Rightarrow> nat \<Rightarrow> u32 result" where
  "image_loc file i = get_le (12 + 4 * i) 4 file"

definition sign_magic :: "bytes \<Rightarrow> nat \<Rightarrow> u32 result" where
  "sign_magic file off = get_le off 4 file"

definition sign_size :: "bytes \<Rightarrow> nat \<Rightarrow> u32 result" where
  "sign_size file off = get_le (off + 4) 4 file"

definition set_frag :: "FRAG_TYPE \<Rightarrow> bytes option \<Rightarrow> u32 \<Rightarrow> u32 \<Rightarrow> vsc_boot_fw \<Rightarrow> vsc_boot_fw" where
  "set_frag t data sz loc fw = fw\<lparr>frags := (frags fw)(t := \<lparr>fr_location = loc, fr_data = data, fr_size = sz\<rparr>)\<rparr>"

text \<open>A fragment at offset \<open>off\<close> whose location must not be 0.\<close>

definition need_frag :: "bytes \<Rightarrow> FRAG_TYPE \<Rightarrow> nat \<Rightarrow> nat \<Rightarrow> vsc_boot_fw \<Rightarrow> (int \<times> vsc_boot_fw) result" where
  "need_frag file t off i fw =
     bindF (sign_size file off) (\<lambda>size. bindF (image_loc file i) (\<lambda>loc.
     Inr (if loc = 0 then - EINVAL else 0, set_frag t (Some (drop (off + 8) file)) size loc fw)))"

text \<open>
  A fragment placed behind another one at the next 4K boundary, unless the file names a location of its
  own; \<open>cmp\<close> is the location the code compares the file's with.
\<close>

definition align4k :: "u32 \<Rightarrow> u32 \<Rightarrow> u32" where
  "align4k loc sz = (loc + sz + 0xFFF) AND NOT 0xFFF"

definition pick_location :: "u32 \<Rightarrow> u32 \<Rightarrow> u32 \<Rightarrow> u32" where
  "pick_location calc cmp img = (if img \<noteq> 0 \<and> cmp \<noteq> img then img else calc)"

definition acev_place :: "bytes \<Rightarrow> nat \<Rightarrow> nat \<Rightarrow> vsc_boot_fw \<Rightarrow> vsc_boot_fw result" where
  "acev_place file off i fw =
     (let acer = frags fw ACER_IMG_TYPE in
      bindF (sign_size file off) (\<lambda>size. bindF (image_loc file i) (\<lambda>img.
      Inr (set_frag ACEV_IMG_TYPE (Some (drop (off + 8) file)) size
             (pick_location (align4k (fr_location acer) (fr_size acer)) (fr_location acer) img) fw))))"

definition acec_place :: "bytes \<Rightarrow> nat \<Rightarrow> nat \<Rightarrow> vsc_boot_fw \<Rightarrow> vsc_boot_fw result" where
  "acec_place file off i fw =
     (let acev = frags fw ACEV_IMG_TYPE; calc = align4k (fr_location acev) (fr_size acev) in
      bindF (sign_size file off) (\<lambda>size. bindF (image_loc file i) (\<lambda>img.
      Inr (set_frag ACEC_IMG_TYPE (Some (drop (off + 8) file)) size (pick_location calc calc img) fw))))"

text \<open>The firmwares behind the one at \<open>off\<close>: their offsets, or \<open>None\<close> for \<open>-EINVAL\<close>.\<close>

fun fw_walk :: "bytes \<Rightarrow> nat \<Rightarrow> nat \<Rightarrow> nat list option result" where
  "fw_walk file 0 off = Inr (Some [])"
| "fw_walk file (Suc n) off =
     bindF (sign_size file off) (\<lambda>size.
     let next = off + 8 + unat size in
     if next > length file then Inr None
     else bindF (sign_magic file next) (\<lambda>m.
          if m \<noteq> VSC_FW_MAGIC then Inr None
          else bindF (fw_walk file n next) (\<lambda>r. Inr (map_option ((#) next) r))))"

abbreviation IMG_CNT_MAX :: u32 where "IMG_CNT_MAX \<equiv> 6"
abbreviation IMG_BOOT_ARC_EM7D :: u32 where "IMG_BOOT_ARC_EM7D \<equiv> 3"
abbreviation IMG_ACEV_ACECNF :: u32 where "IMG_ACEV_ACECNF \<equiv> 2"
abbreviation IMG_ARC_ACER_ACEV_ACECNF_EM7D :: u32 where "IMG_ARC_ACER_ACEV_ACECNF_EM7D \<equiv> 5"

text \<open>\<open>SIG_SIZE + sizeof(struct manifest) + CSSHEADER_SIZE\<close>, counted from the end of the boot loader.\<close>

abbreviation MANIFEST_BACK :: int where "MANIFEST_BACK \<equiv> 384 + 28 + 128"

definition manifest_svn :: "bytes \<Rightarrow> nat \<Rightarrow> u32 \<Rightarrow> u32 result" where
  "manifest_svn file boot sz =
     (let off = int (boot + 8) + uint sz - MANIFEST_BACK in
      if off < 0 then Inl OutOfBounds else get_le (nat off) 4 file)"

definition check_svn :: "u32 \<Rightarrow> vsc_boot_fw \<Rightarrow> int \<times> vsc_boot_fw" where
  "check_svn man fw =
     (let fw = (if man = MAX_SVN_VALUE then fw\<lparr>svn := MAX_SVN_VALUE\<rparr> else if svn fw = 0 then fw\<lparr>svn := man\<rparr> else fw) in
      (if sub_ver fw = 0 \<and> svn fw \<noteq> MAX_SVN_VALUE \<or> sub_ver fw = 2 \<and> svn fw = MAX_SVN_VALUE then - EINVAL else 0, fw))"

text \<open>The fragments of a main file whose firmwares are at the offsets \<open>fs\<close>.\<close>

definition ace_frags :: "bytes \<Rightarrow> nat \<Rightarrow> nat list \<Rightarrow> vsc_boot_fw \<Rightarrow> (int \<times> vsc_boot_fw) result" where
  "ace_frags file count fs fw =
     (if count < 4 then Inr (0, fw)
      else
        andthen (need_frag file ACER_IMG_TYPE (fs ! 1) 2 fw) (\<lambda>fw.
        bindF (if count \<ge> 5 then acev_place file (fs ! 2) 3 fw else Inr fw) (\<lambda>fw.
        bindF (if count \<ge> 6 then acec_place file (fs ! 3) 4 fw else Inr fw) (\<lambda>fw. Inr (0, fw)))))"

definition main_frags :: "bytes \<Rightarrow> nat \<Rightarrow> nat \<Rightarrow> nat list \<Rightarrow> vsc_boot_fw \<Rightarrow> (int \<times> vsc_boot_fw) result" where
  "main_frags file count boot fs fw =
     andthen (need_frag file BOOT_IMAGE_TYPE boot 0 fw) (\<lambda>fw.
     andthen (need_frag file ARC_SEM_IMG_TYPE (fs ! 0) 1 fw) (\<lambda>fw.
     andthen (ace_frags file count fs fw) (\<lambda>fw.
     need_frag file EM7D_IMG_TYPE (fs ! (count - 2)) (count - 1) fw)))"

definition parse_main_fw :: "bytes \<Rightarrow> vsc_boot_fw \<Rightarrow> (int \<times> vsc_boot_fw) result" where
  "parse_main_fw file fw =
     bindF (get_le 0 4 file) (\<lambda>magic :: u32.
     if magic \<noteq> VSC_FILE_MAGIC then Inr (- EINVAL, fw)
     else bindF (get_le 8 4 file) (\<lambda>image_count :: u32.
     if image_count < IMG_BOOT_ARC_EM7D \<or> image_count > IMG_CNT_MAX then Inr (- EINVAL, fw)
     else bindF (get_le 4 4 file) (\<lambda>opt :: u32.
     let fw = fw\<lparr>fw_option := opt AND 0xFFFF, fw_cnt := image_count - 1\<rparr>;
         count = unat image_count; boot = 12 + 4 * count in
     if boot > length file then Inr (- EINVAL, fw)
     else bindF (sign_magic file boot) (\<lambda>m.
     if m \<noteq> VSC_FW_MAGIC then Inr (- EINVAL, fw)
     else bindF (sign_size file boot) (\<lambda>size.
     bindF (manifest_svn file boot size) (\<lambda>man.
     andthen (Inr (check_svn man fw)) (\<lambda>fw.
     let first = boot + 8 + unat size in
     bindF (fw_walk file (count - 2) first) (\<lambda>r.
     case r of None \<Rightarrow> Inr (- EINVAL, fw)
     | Some fs \<Rightarrow> main_frags file count boot (first # fs) fw))))))))"

definition parse_sensor_fw :: "bytes \<Rightarrow> vsc_boot_fw \<Rightarrow> (int \<times> vsc_boot_fw) result" where
  "parse_sensor_fw file fw =
     bindF (get_le 0 4 file) (\<lambda>magic :: u32.
     if magic \<noteq> VSC_FILE_MAGIC then Inr (- EINVAL, fw)
     else bindF (get_le 8 4 file) (\<lambda>image_count :: u32.
     if image_count < IMG_ACEV_ACECNF \<or> image_count > IMG_CNT_MAX then Inr (- EINVAL, fw)
     else
       let fw = fw\<lparr>fw_cnt := fw_cnt fw + image_count\<rparr> in
       if fw_cnt fw > IMG_CNT_MAX then Inr (- EINVAL, fw)
       else
         let vis = 12 + 4 * unat image_count in
         bindF (sign_size file vis) (\<lambda>vis_size.
         let conf = vis + 8 + unat vis_size in
         bindF (sign_magic file vis) (\<lambda>m.
         if m \<noteq> VSC_FW_MAGIC then Inr (- EINVAL, fw)
         else
           bindF (acev_place file vis 0 fw) (\<lambda>fw.
           bindF (sign_magic file conf) (\<lambda>m.
           if m \<noteq> VSC_FW_MAGIC then Inr (- EINVAL, fw)
           else bindF (acec_place file conf 1 fw) (\<lambda>fw. Inr (0, fw))))))))"

text \<open>\<open>fw->size\<close> is compared, as a \<open>size_t\<close>, with the 32-bit size.\<close>

definition parse_sku_cnf_fw :: "bytes \<Rightarrow> vsc_boot_fw \<Rightarrow> (int \<times> vsc_boot_fw) result" where
  "parse_sku_cnf_fw file fw =
     (if length file \<le> 4 then Inr (- EINVAL, fw)
      else bindF (get_le 0 4 file) (\<lambda>cfg.
        let fw = set_frag SKU_CONF_TYPE (Some file) (cfg + 4) SKU_CONFIG_LOC fw in
        Inr (if length file \<noteq> unat (cfg + 4) \<or> length file > SKU_MAX_SIZE then - EINVAL else 0, fw)))"

section \<open>Downloads\<close>

definition dl_cont_frame :: "bool \<Rightarrow> bytes \<Rightarrow> (nat \<times> bytes) list" where
  "dl_cont_frame end_flag bs =
     [memset0 VSC_ROM_SPI_PKG_SIZE, frame_hdr VSC_CMD_DL_CONT, (6, le_bytes 2 (of_nat (length bs) :: u16)),
      (5, [if end_flag then 1 else 0]), (8, bs)]"

definition fw_cont_frame :: "bool \<Rightarrow> bytes \<Rightarrow> (nat \<times> bytes) list" where
  "fw_cont_frame end_flag bs = [memset0 FW_SPI_PKG_SIZE, (0, bs)]"

text \<open>
  The loop of both download functions: frames of \<open>pkg\<close> bytes that carry at most \<open>max_len\<close> bytes each.
  \<open>ptr\<close> is the rest of the data, \<open>remain\<close> the number of bytes left to send.
\<close>

fun dl_loop ::
  "('w, 'x) spi_env_scheme \<Rightarrow> nat \<Rightarrow> nat \<Rightarrow> (bool \<Rightarrow> bytes \<Rightarrow> (nat \<times> bytes) list) \<Rightarrow> bytes \<Rightarrow> nat \<Rightarrow> 'w mei_vsc_hw
   \<Rightarrow> (int \<times> 'w mei_vsc_hw) result" where
  "dl_loop E pkg max_len frame ptr remain hw =
     (if remain = 0 \<or> max_len = 0 then Inr (0, hw)
      else
        let len = min max_len remain in
        bindF (clear_token pkg hw) (\<lambda>hw.
        bindF (load 0 len ptr) (\<lambda>bs.
        andthen (send_frame E (frame (remain = len) bs) Inr False pkg hw)
          (dl_loop E pkg max_len frame (drop len ptr) (remain - len)))))"

declare dl_loop.simps [simp del]

definition load_boot ::
  "('w, 'x) spi_env_scheme \<Rightarrow> bytes option \<Rightarrow> nat \<Rightarrow> 'w mei_vsc_hw \<Rightarrow> (int \<times> 'w mei_vsc_hw) result" where
  "load_boot E data sz hw =
     (case data of None \<Rightarrow> Inr (- EINVAL, hw)
      | Some ptr \<Rightarrow>
          if sz = 0 then Inr (- EINVAL, hw)
          else dl_loop E VSC_ROM_SPI_PKG_SIZE (VSC_ROM_SPI_PKG_SIZE - 8) dl_cont_frame ptr sz hw)"

definition load_bootloader :: "('w, 'x) spi_env_scheme \<Rightarrow> 'w mei_vsc_hw \<Rightarrow> (int \<times> 'w mei_vsc_hw) result" where
  "load_bootloader E hw =
     (let frag = frags (v_fw hw) BOOT_IMAGE_TYPE in
      if fr_size frag = 0 then Inr (- EINVAL, hw)
      else
        andthen (send_frame E [frame_hdr VSC_CMD_QUERY] Inr True VSC_ROM_SPI_PKG_SIZE hw) (\<lambda>hw.
        bindF (token_of hw) (\<lambda>token.
        if token \<noteq> VSC_TOKEN_BOOTLOADER_REQ \<and> token \<noteq> VSC_TOKEN_DUMP_RESP then Inr (- EINVAL, hw)
        else
          bindF (clear_token VSC_ROM_SPI_PKG_SIZE hw) (\<lambda>hw.
          andthen (send_frame E
              (memset0 VSC_ROM_SPI_PKG_SIZE # frame_hdr VSC_CMD_DL_START #
               rom_dl_start (img_code IMG_BOOTLOADER) (ucast (fw_option (v_fw hw))) (fr_size frag) (fr_location frag))
              (put_crc 16 16) False VSC_ROM_SPI_PKG_SIZE hw)
            (load_boot E (fr_data frag) (unat (fr_size frag)))))))"

definition load_fw_bin ::
  "('w, 'x) spi_env_scheme \<Rightarrow> bytes option \<Rightarrow> nat \<Rightarrow> 'w mei_vsc_hw \<Rightarrow> (int \<times> 'w mei_vsc_hw) result" where
  "load_fw_bin E data sz hw =
     (case data of None \<Rightarrow> Inr (- EINVAL, hw)
      | Some ptr \<Rightarrow>
          if sz = 0 then Inr (- EINVAL, hw)
          else dl_loop E FW_SPI_PKG_SIZE FW_SPI_PKG_SIZE fw_cont_frame ptr sz hw)"

definition load_fw_frag ::
  "('w, 'x) spi_env_scheme \<Rightarrow> fragment \<Rightarrow> IMAGE_TYPE \<Rightarrow> 'w mei_vsc_hw \<Rightarrow> (int \<times> 'w mei_vsc_hw) result" where
  "load_fw_frag E frag img_type hw =
     bindF (clear_rx FW_SPI_PKG_SIZE hw) (\<lambda>hw.
     andthen (send_frame E
         (memset0 FW_SPI_PKG_SIZE # frame_hdr VSC_CMD_DL_START #
          fw_dl_start (img_code img_type) (ucast (fw_option (v_fw hw))) (fr_size frag) (fr_location frag))
         (put_crc 16 16) False FW_SPI_PKG_SIZE hw)
       (load_fw_bin E (fr_data frag) (unat (fr_size frag))))"

text \<open>A fragment as \<open>load_fw\<close> finds it: \<open>None\<close> when its size is 0.\<close>

definition frag_at :: "vsc_boot_fw \<Rightarrow> FRAG_TYPE \<Rightarrow> fragment option" where
  "frag_at fw t = (let f = frags fw t in if fr_size f > 0 then Some f else None)"

definition frag_words :: "fragment option \<Rightarrow> u32 list" where
  "frag_words f = (case f of None \<Rightarrow> [] | Some f \<Rightarrow> [fr_location f, fr_size f])"

text \<open>The words \<open>payload[index++]\<close> of the \<open>dl_set\<close> frame.\<close>

definition dl_set_words :: "vsc_boot_fw \<Rightarrow> u32 list" where
  "dl_set_words fw =
     frag_words (frag_at fw ARC_SEM_IMG_TYPE) @
     (case frag_at fw ACER_IMG_TYPE of None \<Rightarrow> []
      | Some acer \<Rightarrow> frag_words (Some acer) @ frag_words (frag_at fw ACEV_IMG_TYPE) @ frag_words (frag_at fw ACEC_IMG_TYPE)) @
     frag_words (frag_at fw EM7D_IMG_TYPE)"

definition load_opt ::
  "('w, 'x) spi_env_scheme \<Rightarrow> fragment option \<Rightarrow> IMAGE_TYPE \<Rightarrow> 'w mei_vsc_hw \<Rightarrow> (int \<times> 'w mei_vsc_hw) result" where
  "load_opt E f img_type hw = (case f of None \<Rightarrow> Inr (0, hw) | Some f \<Rightarrow> load_fw_frag E f img_type hw)"

definition load_fw :: "('w, 'x) spi_env_scheme \<Rightarrow> 'w mei_vsc_hw \<Rightarrow> (int \<times> 'w mei_vsc_hw) result" where
  "load_fw E hw =
     (let fw = v_fw hw; at = frag_at fw; crc_pos = 8 + 4 * unat (fw_cnt fw * 2) in
      if at ARC_SEM_IMG_TYPE = None \<or> at EM7D_IMG_TYPE = None then Inr (- EINVAL, hw)
      else
        bindF (clear_rx FW_SPI_PKG_SIZE hw) (\<lambda>hw.
        andthen (send_frame E
            ([memset0 FW_SPI_PKG_SIZE, frame_hdr VSC_CMD_DL_SET, (5, le_bytes 2 (ucast (fw_option fw) :: u16)),
              (7, [ucast (fw_cnt fw)])] @
             map (\<lambda>(i, w). (8 + 4 * i, le_bytes 4 w)) (List.enumerate 0 (dl_set_words fw)))
            (put_crc crc_pos crc_pos) False FW_SPI_PKG_SIZE hw) (\<lambda>hw.
        andthen (load_opt E (at ARC_SEM_IMG_TYPE) IMG_ARCSEM hw) (\<lambda>hw.
        andthen (load_opt E (at ACER_IMG_TYPE) IMG_ACE_RUNTIME hw) (\<lambda>hw.
        andthen (load_opt E (at ACEV_IMG_TYPE) IMG_ACE_VISION hw) (\<lambda>hw.
        andthen (load_opt E (at ACEC_IMG_TYPE) IMG_ACE_CONFIG hw) (\<lambda>hw.
        andthen (load_opt E (at EM7D_IMG_TYPE) IMG_EM7D hw) (\<lambda>hw.
        andthen (load_opt E (at SKU_CONF_TYPE) IMG_SKU_CONFIG hw) (\<lambda>hw.
        send_frame E [memset0 FW_SPI_PKG_SIZE, frame_hdr VSC_TOKEN_CAM_BOOT] (put_crc 16 8) False FW_SPI_PKG_SIZE hw)))))))))"

section \<open>The whole initialisation\<close>

definition get_firmware ::
  "'w fw_env \<Rightarrow> (vsc_boot_fw \<Rightarrow> string) \<Rightarrow> 'w mei_vsc_hw \<Rightarrow> (int \<times> bytes option) \<times> 'w mei_vsc_hw" where
  "get_firmware E name hw =
     (let (r, w) = request_firmware E (name (v_fw hw)) (v_env hw) in (r, hw\<lparr>v_env := w\<rparr>))"

definition with_fw ::
  "(vsc_boot_fw \<Rightarrow> (int \<times> vsc_boot_fw) result) \<Rightarrow> 'w mei_vsc_hw \<Rightarrow> (int \<times> 'w mei_vsc_hw) result" where
  "with_fw f hw = bindF (f (v_fw hw)) (\<lambda>(ret, fw). Inr (ret, hw\<lparr>v_fw := fw\<rparr>))"

text \<open>
  \<open>init_hw\<close> with the files still held on return, newest first.  The labels \<open>release_cnf\<close>,
  \<open>release_sensor\<close> and \<open>release\<close> give back the three, two and one files; giving back the NULL pointer
  of a file that was not requested does nothing.
\<close>

definition init_cnf ::
  "'w fw_env \<Rightarrow> bytes list \<Rightarrow> 'w mei_vsc_hw \<Rightarrow> ((int \<times> bytes list) \<times> 'w mei_vsc_hw) result" where
  "init_cnf E held hw =
     (let ((ret, cnf), hw) = get_firmware E sku_cnf_file_name hw in
      case cnf of
        None \<Rightarrow> Inr ((ret, []), hw)
      | Some cnf \<Rightarrow>
          if ret < 0 then Inr ((ret, []), hw)
          else
            bindF (andthen (with_fw (parse_sku_cnf_fw cnf) hw) (\<lambda>hw. andthen (load_bootloader E hw) (load_fw E)))
              (\<lambda>(ret, hw). Inr ((ret, if ret \<noteq> 0 then [] else cnf # held), hw)))"

definition init_hw :: "'w fw_env \<Rightarrow> 'w mei_vsc_hw \<Rightarrow> ((int \<times> bytes list) \<times> 'w mei_vsc_hw) result" where
  "init_hw E hw =
     bindF (check_silicon E hw) (\<lambda>(ret, hw).
     if ret \<noteq> 0 then Inr ((ret, []), hw)
     else
       let ((ret, fw), hw) = get_firmware E fw_file_name hw in
       case fw of
         None \<Rightarrow> Inr ((ret, []), hw)
       | Some fw \<Rightarrow>
           if ret < 0 then Inr ((ret, []), hw)
           else
             bindF (with_fw (parse_main_fw fw) hw) (\<lambda>(ret, hw).
             if ret \<noteq> 0 then Inr ((ret, []), hw)
             else if fw_cnt (v_fw hw) < IMG_ARC_ACER_ACEV_ACECNF_EM7D then
               let ((ret, sensor), hw) = get_firmware E sensor_file_name hw in
               case sensor of
                 None \<Rightarrow> Inr ((ret, []), hw)
               | Some sensor \<Rightarrow>
                   if ret < 0 then Inr ((ret, []), hw)
                   else
                     bindF (with_fw (parse_sensor_fw sensor) hw) (\<lambda>(ret, hw).
                     if ret \<noteq> 0 then Inr ((ret, []), hw) else init_cnf E [sensor, fw] hw)
             else init_cnf E [fw] hw))"

end
