(* ===== verification/Vsc_Download.thy ===== *)
theory Vsc_Download
  imports Vsc_Firmware
begin

text \<open>
  Laws of the downloads of \<^theory_text>\<open>Vsc_Firmware\<close>: what goes over the wire, frame by frame, when the boot
  loader and the images are loaded, on every path, and that a bus without failures completes them.
\<close>

section \<open>Frames and the wire\<close>

lemma andthen_eq_Inr:
  "andthen x f = Inr (ret, s') \<longleftrightarrow>
     (ret \<noteq> 0 \<and> x = Inr (ret, s')) \<or> (\<exists>s. x = Inr (0, s) \<and> f s = Inr (ret, s'))"
  by (cases x) (auto simp: andthen_def split: if_splits prod.splits)

lemma andthen_simps [simp]:
  "andthen (Inl e) f = Inl e" "andthen (Inr (0, s)) f = f s" "ret \<noteq> 0 \<Longrightarrow> andthen (Inr (ret, s)) f = Inr (ret, s)"
  by (simp_all add: andthen_def)

text \<open>The download buffers have the sizes of the struct.\<close>

definition fw_wf :: "'w mei_vsc_hw \<Rightarrow> bool" where
  "fw_wf hw \<longleftrightarrow> length (fw_tx_buf (v_fw hw)) = FW_SPI_PKG_SIZE \<and> length (fw_rx_buf (v_fw hw)) = FW_SPI_PKG_SIZE \<and>
     length (v_rx_buf hw) = MAX_SPI_MSG_SIZE"

text \<open>
  \<open>loads hw sent hw'\<close>: the frames \<open>sent\<close> went over the wire, word swapped, and nothing else changed
  than the three buffers, the mutex and the environment.
\<close>

definition loads :: "'w mei_vsc_hw \<Rightarrow> bytes list \<Rightarrow> 'w mei_vsc_hw \<Rightarrow> bool" where
  "loads hw sent hw' \<longleftrightarrow> (\<exists>tx rx rb m w.
     hw' = hw\<lparr>v_fw := (v_fw hw)\<lparr>fw_tx_buf := tx, fw_rx_buf := rx\<rparr>, v_rx_buf := rb, v_mutex := m,
              v_wire := v_wire hw @ map swab_words sent, v_env := w\<rparr> \<and>
     length tx = length (fw_tx_buf (v_fw hw)) \<and> length rx = length (fw_rx_buf (v_fw hw)) \<and>
     length rb = length (v_rx_buf hw))"

lemma loads_refl: "loads hw [] hw"
  unfolding loads_def
  by (rule exI [of _ "fw_tx_buf (v_fw hw)"], rule exI [of _ "fw_rx_buf (v_fw hw)"], rule exI [of _ "v_rx_buf hw"],
      rule exI [of _ "v_mutex hw"], rule exI [of _ "v_env hw"]) simp

lemma loads_trans: "loads a s b \<Longrightarrow> loads b t c \<Longrightarrow> loads a (s @ t) c"
  by (cases a, cases b, cases c) (auto simp: loads_def, blast)

lemma loads_wf: "loads a s b \<Longrightarrow> fw_wf b \<longleftrightarrow> fw_wf a"
  by (cases a, cases b) (auto simp: loads_def fw_wf_def)

lemma loads_fields:
  assumes "loads a s b"
  shows "v_wire b = v_wire a @ map swab_words s" "frags (v_fw b) = frags (v_fw a)" "fw_cnt (v_fw b) = fw_cnt (v_fw a)"
    "fw_option (v_fw b) = fw_option (v_fw a)"
  using assms by (auto simp: loads_def)

lemma loads_set:
  "length b = length (fw_tx_buf (v_fw hw)) \<Longrightarrow> loads hw [] (set_tx b hw)"
  "length b = length (fw_rx_buf (v_fw hw)) \<Longrightarrow> loads hw [] (set_rx b hw)"
  "length b = length (v_rx_buf hw) \<Longrightarrow> loads hw [] (hw\<lparr>v_rx_buf := b\<rparr>)"
  "loads hw sent (hw\<lparr>v_mutex := m, v_wire := v_wire hw @ map swab_words sent, v_env := w\<rparr>)"
proof -
  note ex = exI [of _ "fw_tx_buf (v_fw hw)"] exI [of _ "fw_rx_buf (v_fw hw)"] exI [of _ "v_rx_buf hw"]
    exI [of _ "v_mutex hw"] exI [of _ "v_env hw"]
  show "length b = length (fw_tx_buf (v_fw hw)) \<Longrightarrow> loads hw [] (set_tx b hw)"
    unfolding loads_def set_tx_def by (rule exI [of _ b], rule ex(2), rule ex(3), rule ex(4), rule ex(5)) simp
  show "length b = length (fw_rx_buf (v_fw hw)) \<Longrightarrow> loads hw [] (set_rx b hw)"
    unfolding loads_def set_rx_def by (rule ex(1), rule exI [of _ b], rule ex(3), rule ex(4), rule ex(5)) simp
  show "length b = length (v_rx_buf hw) \<Longrightarrow> loads hw [] (hw\<lparr>v_rx_buf := b\<rparr>)"
    unfolding loads_def by (rule ex(1), rule ex(2), rule exI [of _ b], rule ex(4), rule ex(5)) simp
  show "loads hw sent (hw\<lparr>v_mutex := m, v_wire := v_wire hw @ map swab_words sent, v_env := w\<rparr>)"
    unfolding loads_def by (rule ex(1), rule ex(2), rule ex(3), rule exI [of _ m], rule exI [of _ w]) simp
qed

lemma clear_token_Inr: "clear_token n hw = Inr hw' \<Longrightarrow> loads hw [] hw'"
  by (auto simp: clear_token_def memset0_def bindF_eq_Inr intro!: loads_set dest: store_length)

lemma clear_rx_Inr: "clear_rx n hw = Inr hw' \<Longrightarrow> loads hw [] hw'"
  by (auto simp: clear_rx_def memset0_def bindF_eq_Inr intro!: loads_set dest: store_length)

lemma put_all_length: "put_all fs b = Inr b' \<Longrightarrow> length b' = length b"
  by (induction fs b rule: put_all.induct) (auto simp: bindF_eq_Inr dest: store_length)

lemma send_frame_loads:
  assumes "send_frame E fs fin reply len hw = Inr (ret, hw')" and "len mod 4 = 0"
    and "\<And>a b. fin a = Inr b \<Longrightarrow> length b = length a"
    and "put_all fs (fw_tx_buf (v_fw hw)) = Inr a" and "fin a = Inr f"
    and "len \<le> length (fw_rx_buf (v_fw hw))"
  shows "loads hw (if ret = 0 then [take len f] else []) hw'"
proof -
  obtain rt out inb hw1 where x: "spi_rom_dev_xfer (spi_env.truncate E) f (if reply then Some (fw_rx_buf (v_fw hw)) else None) len (set_tx f hw) =
      Inr ((rt, out, inb), hw1)" and rt: "rt = ret"
    and hw': "hw' = (case inb of None \<Rightarrow> set_tx out hw1 | Some r \<Rightarrow> set_rx r (set_tx out hw1))"
    using assms(1,4,5) unfolding send_frame_def bindF_eq_Inr Let_def by (auto simp: bindF_eq_Inr)
  have l: "length f = length (fw_tx_buf (v_fw hw))" using assms(3,5) put_all_length [OF assms(4)] by simp
  note r = rom_xfer [OF x [unfolded rt] assms(2)]
  have lo: "length out = length f" using r by auto
  let ?sent = "if ret = 0 then [take len f] else []"
  obtain w where hw1: "hw1 = (set_tx f hw)\<lparr>v_mutex := False, v_wire := v_wire (set_tx f hw) @ map swab_words ?sent, v_env := w\<rparr>"
    using r by auto
  have l1: "loads hw ([] @ ?sent) hw1"
    unfolding hw1 by (rule loads_trans [OF loads_set(1) [OF l] loads_set(4)])
  have tx: "loads hw1 [] (set_tx out hw1)"
    by (rule loads_set) (simp add: hw1 set_tx_def lo)
  have "loads (set_tx out hw1) [] hw'"
  proof (cases inb)
    case None
    then show ?thesis by (simp add: hw' loads_refl)
  next
    case (Some i)
    then have "length i = length (fw_rx_buf (v_fw hw))" using r assms(6) by (auto split: if_splits)
    then have "length i = length (fw_rx_buf (v_fw (set_tx out hw1)))" by (simp add: hw1 set_tx_def)
    then show ?thesis using Some loads_set(2) [of i "set_tx out hw1"] by (simp add: hw')
  qed
  from loads_trans [OF loads_trans [OF l1 tx] this] show ?thesis by simp
qed


text \<open>The frames as the bytes the device gets.\<close>

definition dl_cont_bytes :: "bool \<Rightarrow> bytes \<Rightarrow> bytes" where
  "dl_cont_bytes end_flag bs =
     le_bytes 4 VSC_MAGIC_NUM @ [VSC_CMD_DL_CONT, if end_flag then 1 else 0] @ le_bytes 2 (of_nat (length bs) :: u16) @
     bs @ replicate (VSC_ROM_SPI_PKG_SIZE - 8 - length bs) 0"

lemma store_zeros:
  "length a = off \<Longrightarrow> length b \<le> k \<Longrightarrow> store off b (a @ replicate k 0 @ c) = Inr (a @ b @ replicate (k - length b) 0 @ c)"
  by (simp add: store_def)

lemma dl_cont_put:
  assumes "length bs \<le> VSC_ROM_SPI_PKG_SIZE - 8" and "VSC_ROM_SPI_PKG_SIZE \<le> length tx"
  shows "put_all (dl_cont_frame e bs) tx = Inr (dl_cont_bytes e bs @ drop VSC_ROM_SPI_PKG_SIZE tx)"
proof -
  let ?m = "le_bytes 4 VSC_MAGIC_NUM" let ?l = "le_bytes 2 (of_nat (length bs) :: u16)" let ?d = "drop VSC_ROM_SPI_PKG_SIZE tx"
  have "store 0 (replicate 256 0) tx = Inr (replicate 256 0 @ ?d)" using assms(2) by (simp add: store_def)
  moreover have "store 0 (?m @ [VSC_CMD_DL_CONT]) (replicate 256 0 @ ?d) = Inr ((?m @ [VSC_CMD_DL_CONT]) @ replicate 251 0 @ ?d)"
    using store_zeros [of "[]" 0 "?m @ [VSC_CMD_DL_CONT]" 256 ?d] by simp
  moreover have "store 6 ?l ((?m @ [VSC_CMD_DL_CONT]) @ replicate 251 0 @ ?d) =
      Inr ((?m @ [VSC_CMD_DL_CONT, 0]) @ ?l @ replicate 248 0 @ ?d)"
    using store_zeros [of "?m @ [VSC_CMD_DL_CONT, 0]" 6 ?l 250 ?d] replicate_Suc [of 250 "0 :: u8"] by simp
  moreover have "store 5 [if e then 1 else 0] ((?m @ [VSC_CMD_DL_CONT, 0]) @ ?l @ replicate 248 0 @ ?d) =
      Inr ((?m @ [VSC_CMD_DL_CONT, if e then 1 else 0] @ ?l) @ replicate 248 0 @ ?d)"
    by (simp add: store_def)
  moreover have "store 8 bs ((?m @ [VSC_CMD_DL_CONT, if e then 1 else 0] @ ?l) @ replicate 248 0 @ ?d) =
      Inr (dl_cont_bytes e bs @ ?d)"
    using store_zeros [of "?m @ [VSC_CMD_DL_CONT, if e then 1 else 0] @ ?l" 8 bs 248 ?d] assms(1) by (simp add: dl_cont_bytes_def)
  ultimately show ?thesis by (simp add: dl_cont_frame_def memset0_def frame_hdr_def)
qed

text \<open>A buffer cut into pieces of \<open>n\<close> bytes, and the frames of the boot loader for the pieces.\<close>

function chunks :: "nat \<Rightarrow> bytes \<Rightarrow> bytes list" where
  "chunks n bs = (if n = 0 \<or> bs = [] then [] else take n bs # chunks n (drop n bs))"
  by pat_completeness auto
termination by (relation "measure (\<lambda>(n, bs). length bs)") (auto simp: length_greater_0_conv [symmetric] simp del: length_greater_0_conv)

declare chunks.simps [simp del]

lemma concat_chunks: "0 < n \<Longrightarrow> concat (chunks n bs) = bs"
proof (induction n bs rule: chunks.induct)
  case (1 n bs)
  then show ?case by (subst chunks.simps) simp
qed

fun dl_frames :: "(bool \<Rightarrow> bytes \<Rightarrow> bytes) \<Rightarrow> bytes list \<Rightarrow> bytes list" where
  "dl_frames f [] = []"
| "dl_frames f (c # cs) = f (cs = []) c # dl_frames f cs"

lemma length_dl_frames [simp]: "length (dl_frames f cs) = length cs"
  by (induction cs) simp_all

lemma chunks_step:
  "0 < n \<Longrightarrow> 0 < m \<Longrightarrow> bs \<noteq> [] \<Longrightarrow> chunks n (take m bs) = take (min n m) bs # chunks n (take (m - min n m) (drop (min n m) bs))"
proof -
  assume "0 < n" "0 < m" "bs \<noteq> []"
  moreover have "drop n (take m bs) = take (m - min n m) (drop (min n m) bs)"
    by (simp add: drop_take min_def)
  ultimately show ?thesis by (subst chunks.simps) (simp add: min_def)
qed

lemma chunks_Nil_iff: "chunks n bs = [] \<longleftrightarrow> n = 0 \<or> bs = []"
  by (subst chunks.simps) simp

text \<open>What the loop puts on the wire, when each frame has the content \<open>g\<close>.\<close>

lemma dl_loop_frames:
  assumes "dl_loop E pkg n frame ptr remain hw = Inr (ret, hw')" and "fw_wf hw" and "remain \<le> length ptr"
    and "0 < n" and "pkg mod 4 = 0" and "pkg \<le> FW_SPI_PKG_SIZE"
    and put: "\<And>e bs tx. length bs \<le> n \<Longrightarrow> length tx = FW_SPI_PKG_SIZE \<Longrightarrow>
      put_all (frame e bs) tx = Inr (g e bs @ drop pkg tx) \<and> length (g e bs) = pkg"
  shows "\<exists>k. loads hw (take k (dl_frames g (chunks n (take remain ptr)))) hw' \<and>
    (ret = 0 \<longleftrightarrow> k = length (chunks n (take remain ptr))) \<and> k \<le> length (chunks n (take remain ptr))"
  using assms(1-3)
proof (induction remain arbitrary: ptr hw rule: less_induct)
  case (less remain)
  show ?case
  proof (cases "remain = 0")
    case True
    then have "ret = 0" "hw' = hw" using less.prems(1) by (simp_all add: dl_loop.simps)
    then show ?thesis using True by (simp add: loads_refl chunks.simps)
  next
    case False
    let ?len = "min n remain"
    let ?send = "send_frame E (frame (remain = ?len) (take ?len ptr)) Inr False pkg"
    obtain hw1 where c: "clear_token pkg hw = Inr hw1"
      and r: "andthen (?send hw1) (dl_loop E pkg n frame (drop ?len ptr) (remain - ?len)) = Inr (ret, hw')"
      using less.prems(1,3) False assms(4) by (subst (asm) dl_loop.simps) (auto simp: bindF_eq_Inr load_eq_Inr Let_def)
    note l1 = clear_token_Inr [OF c]
    have wf1: "fw_wf hw1" using loads_wf [OF l1] less.prems(2) by simp
    let ?f = "g (remain = ?len) (take ?len ptr)"
    let ?tx = "fw_tx_buf (v_fw hw1)"
    have p: "put_all (frame (remain = ?len) (take ?len ptr)) ?tx = Inr (?f @ drop pkg ?tx)" "length ?f = pkg"
      using put [of "take ?len ptr" ?tx] less.prems(3) wf1 by (simp_all add: fw_wf_def)
    have tk: "take pkg (?f @ drop pkg ?tx) = ?f" using p(2) by simp
    have send: "loads hw (if rt = 0 then [?f] else []) hw2" if s: "?send hw1 = Inr (rt, hw2)" for rt hw2
    proof -
      have "loads hw1 (if rt = 0 then [take pkg (?f @ drop pkg ?tx)] else []) hw2"
        by (rule send_frame_loads [OF s assms(5) _ p(1) refl]) (use wf1 assms(6) in \<open>auto simp: fw_wf_def\<close>)
      from loads_trans [OF l1 this [unfolded tk]] show ?thesis by simp
    qed
    let ?rest = "chunks n (take (remain - ?len) (drop ?len ptr))"
    have "ptr \<noteq> []" using False less.prems(3) by auto
    then have cs: "chunks n (take remain ptr) = take ?len ptr # ?rest" using chunks_step assms(4) False by blast
    have "?rest = [] \<longleftrightarrow> remain = ?len" using less.prems(3) assms(4) by (auto simp: chunks_Nil_iff)
    then have fs: "dl_frames g (chunks n (take remain ptr)) = ?f # dl_frames g ?rest"
      by (simp only: cs dl_frames.simps)
    from r consider (stop) "ret \<noteq> 0" "?send hw1 = Inr (ret, hw')"
      | (go) hw2 where "?send hw1 = Inr (0, hw2)" "dl_loop E pkg n frame (drop ?len ptr) (remain - ?len) hw2 = Inr (ret, hw')"
      by (auto simp: andthen_eq_Inr)
    then show ?thesis
    proof cases
      case stop
      then show ?thesis using send [OF stop(2)] by (intro exI [of _ 0]) (simp add: fs cs)
    next
      case go
      note l2 = send [OF go(1), simplified]
      have "fw_wf hw2" using loads_wf [OF l2] less.prems(2) by simp
      then obtain k where k: "loads hw2 (take k (dl_frames g ?rest)) hw'" "ret = 0 \<longleftrightarrow> k = length ?rest" "k \<le> length ?rest"
        using less.IH [OF _ go(2)] False less.prems(3) assms(4) by fastforce
      show ?thesis unfolding fs
        using loads_trans [OF l2 k(1)] k(2,3) by (intro exI [of _ "Suc k"]) (simp add: cs)
    qed
  qed
qed

lemma load_boot_frames:
  assumes "load_boot E (Some data) sz hw = Inr (ret, hw')" and "fw_wf hw" and "sz \<le> length data" and "0 < sz"
  shows "\<exists>k. loads hw (take k (dl_frames dl_cont_bytes (chunks 248 (take sz data)))) hw' \<and>
    (ret = 0 \<longleftrightarrow> k = length (chunks 248 (take sz data))) \<and> k \<le> length (chunks 248 (take sz data))"
proof -
  have "dl_loop E VSC_ROM_SPI_PKG_SIZE 248 dl_cont_frame data sz hw = Inr (ret, hw')"
    using assms(1,4) by (simp add: load_boot_def)
  then show ?thesis
    by (rule dl_loop_frames [OF _ assms(2,3)]) (use dl_cont_put in \<open>auto simp: dl_cont_bytes_def\<close>)
qed

definition fw_cont_bytes :: "bool \<Rightarrow> bytes \<Rightarrow> bytes" where
  "fw_cont_bytes end_flag bs = bs @ replicate (FW_SPI_PKG_SIZE - length bs) 0"

lemma load_fw_bin_frames:
  assumes "load_fw_bin E (Some data) sz hw = Inr (ret, hw')" and "fw_wf hw" and "sz \<le> length data" and "0 < sz"
  shows "\<exists>k. loads hw (take k (dl_frames fw_cont_bytes (chunks FW_SPI_PKG_SIZE (take sz data)))) hw' \<and>
    (ret = 0 \<longleftrightarrow> k = length (chunks FW_SPI_PKG_SIZE (take sz data))) \<and> k \<le> length (chunks FW_SPI_PKG_SIZE (take sz data))"
proof -
  have "dl_loop E FW_SPI_PKG_SIZE FW_SPI_PKG_SIZE fw_cont_frame data sz hw = Inr (ret, hw')"
    using assms(1,4) by (simp add: load_fw_bin_def)
  then show ?thesis
    by (rule dl_loop_frames [OF _ assms(2,3)])
      (auto simp: fw_cont_frame_def fw_cont_bytes_def memset0_def store_def)
qed

section \<open>The download of the images\<close>

definition frame_head :: "u8 \<Rightarrow> bytes" where
  "frame_head cmd = le_bytes 4 VSC_MAGIC_NUM @ [cmd]"

definition fw_start_bytes :: "IMAGE_TYPE \<Rightarrow> u32 \<Rightarrow> u32 \<Rightarrow> u32 \<Rightarrow> bytes" where
  "fw_start_bytes t opt sz loc =
     (let h = frame_head VSC_CMD_DL_START @ le_bytes 2 (ucast opt :: u16) @ [img_code t] @ le_bytes 4 sz @ le_bytes 4 loc
      in h @ le_bytes 4 (sum_CRC h) @ replicate 492 0)"

definition fw_boot_bytes :: bytes where
  "fw_boot_bytes =
     (let h = frame_head VSC_TOKEN_CAM_BOOT @ [0, 0, 0] in h @ le_bytes 4 (sum_CRC h) @ replicate 500 0)"

definition dl_set_bytes :: "vsc_boot_fw \<Rightarrow> bytes" where
  "dl_set_bytes fw =
     (let h = frame_head VSC_CMD_DL_SET @ le_bytes 2 (ucast (fw_option fw) :: u16) @ [ucast (fw_cnt fw)] @
              concat (map (le_bytes 4) (dl_set_words fw));
          base = h @ replicate (FW_SPI_PKG_SIZE - length h) 0;
          p = 8 + 4 * unat (fw_cnt fw * 2)
      in take p base @ le_bytes 4 (sum_CRC (take p base)) @ drop (p + 4) base)"

definition frag_script :: "u32 \<Rightarrow> IMAGE_TYPE \<times> fragment option \<Rightarrow> bytes list" where
  "frag_script opt = (\<lambda>(t, f). case f of None \<Rightarrow> []
     | Some f \<Rightarrow> fw_start_bytes t opt (fr_size f) (fr_location f) #
         dl_frames fw_cont_bytes (chunks FW_SPI_PKG_SIZE (take (unat (fr_size f)) (case fr_data f of None \<Rightarrow> [] | Some d \<Rightarrow> d))))"

text \<open>The download the boot loader expects, in its order.\<close>

definition fw_script :: "vsc_boot_fw \<Rightarrow> bytes list" where
  "fw_script fw =
     dl_set_bytes fw #
     concat (map (frag_script (fw_option fw))
       [(IMG_ARCSEM, frag_at fw ARC_SEM_IMG_TYPE), (IMG_ACE_RUNTIME, frag_at fw ACER_IMG_TYPE),
        (IMG_ACE_VISION, frag_at fw ACEV_IMG_TYPE), (IMG_ACE_CONFIG, frag_at fw ACEC_IMG_TYPE),
        (IMG_EM7D, frag_at fw EM7D_IMG_TYPE), (IMG_SKU_CONFIG, frag_at fw SKU_CONF_TYPE)]) @
     [fw_boot_bytes]"

lemma length_frame_head [simp]: "length (frame_head c) = 5"
  by (simp add: frame_head_def)

lemma put_head:
  assumes "length tx = FW_SPI_PKG_SIZE"
  shows "put_all (memset0 FW_SPI_PKG_SIZE # frame_hdr c # fs) tx = put_all fs (frame_head c @ replicate 507 0)"
proof -
  have "store 0 (replicate FW_SPI_PKG_SIZE 0) tx = Inr (replicate FW_SPI_PKG_SIZE 0)" using assms by (simp add: store_def)
  moreover have "store 0 (frame_head c) (replicate FW_SPI_PKG_SIZE 0) = Inr (frame_head c @ replicate 507 0)"
    using store_zeros [of "[]" 0 "frame_head c" FW_SPI_PKG_SIZE "[]"] by simp
  ultimately show ?thesis by (simp add: memset0_def frame_hdr_def frame_head_def)
qed

lemma put_crc_Inr:
  "n \<le> length a \<Longrightarrow> off + 4 \<le> length a \<Longrightarrow>
     put_crc n off a = Inr (take off a @ le_bytes 4 (sum_CRC (take n a)) @ drop (off + 4) a)"
  by (simp add: put_crc_def load_def put_le_def store_def)

lemma put_crc_bounds: "put_crc n off a = Inr b \<Longrightarrow> n \<le> length a \<and> off + 4 \<le> length a"
  by (auto simp: put_crc_def bindF_eq_Inr load_eq_Inr put_le_def store_eq_Inr)

lemma put_crc_length: "put_crc n off a = Inr b \<Longrightarrow> length b = length a"
  by (auto simp: put_crc_def bindF_eq_Inr dest: put_le_length)

lemma put_words:
  "length a = 8 + 4 * k \<Longrightarrow> 4 * length ws \<le> m \<Longrightarrow>
   put_all (map (\<lambda>(i, w). (8 + 4 * i, le_bytes 4 w)) (List.enumerate k ws)) (a @ replicate m 0) =
     Inr ((a @ concat (map (le_bytes 4) (ws :: u32 list))) @ replicate (m - 4 * length ws) 0)"
proof (induction ws arbitrary: a k m)
  case Nil
  then show ?case by simp
next
  case (Cons w ws)
  have "store (8 + 4 * k) (le_bytes 4 w) (a @ replicate m 0) = Inr ((a @ le_bytes 4 w) @ replicate (m - 4) 0)"
    using store_zeros [of a "8 + 4 * k" "le_bytes 4 w" m "[]"] Cons.prems by simp
  then show ?case using Cons.IH [of "a @ le_bytes 4 w" "Suc k" "m - 4"] Cons.prems by simp
qed

lemma put_fw_start:
  assumes "length tx = FW_SPI_PKG_SIZE"
  shows "put_all (memset0 FW_SPI_PKG_SIZE # frame_hdr VSC_CMD_DL_START # fw_dl_start t opt sz loc) tx =
    Inr (frame_head VSC_CMD_DL_START @ le_bytes 2 opt @ [t] @ le_bytes 4 sz @ le_bytes 4 loc @ replicate 496 0)"
proof -
  let ?h = "frame_head VSC_CMD_DL_START"
  have "store 7 [t] (?h @ replicate 507 0) = Inr ((?h @ [0, 0]) @ [t] @ replicate 504 0)"
    using store_zeros [of "?h @ [0, 0]" 7 "[t]" 505 "[]"] replicate_add [of 2 505 "0 :: u8"] by (simp add: numeral_2_eq_2)
  moreover have "store 8 (le_bytes 4 sz) ((?h @ [0, 0]) @ [t] @ replicate 504 0) =
      Inr ((?h @ [0, 0]) @ [t] @ le_bytes 4 sz @ replicate 500 0)"
    using store_zeros [of "?h @ [0, 0, t]" 8 "le_bytes 4 sz" 504 "[]"] by simp
  moreover have "store 12 (le_bytes 4 loc) ((?h @ [0, 0]) @ [t] @ le_bytes 4 sz @ replicate 500 0) =
      Inr ((?h @ [0, 0]) @ [t] @ le_bytes 4 sz @ le_bytes 4 loc @ replicate 496 0)"
    using store_zeros [of "?h @ [0, 0, t] @ le_bytes 4 sz" 12 "le_bytes 4 loc" 500 "[]"] by simp
  moreover have "store 5 (le_bytes 2 opt) ((?h @ [0, 0]) @ [t] @ le_bytes 4 sz @ le_bytes 4 loc @ replicate 496 0) =
      Inr (?h @ le_bytes 2 opt @ [t] @ le_bytes 4 sz @ le_bytes 4 loc @ replicate 496 0)"
    by (simp add: store_def)
  ultimately show ?thesis by (simp add: put_head [OF assms] fw_dl_start_def)
qed


text \<open>\<open>runs hw script ret hw'\<close>: the frames of the script were sent, all of them when \<open>ret\<close> is 0, else a proper prefix.\<close>

definition runs :: "'w mei_vsc_hw \<Rightarrow> bytes list \<Rightarrow> int \<Rightarrow> 'w mei_vsc_hw \<Rightarrow> bool" where
  "runs hw script ret hw' \<longleftrightarrow>
     (\<exists>k \<le> length script. loads hw (take k script) hw' \<and> (ret = 0 \<longleftrightarrow> k = length script))"

lemma runs_refl: "runs hw [] 0 hw"
  by (simp add: runs_def loads_refl)

lemma runs_loads: "loads hw [] hw1 \<Longrightarrow> runs hw1 s r hw2 \<Longrightarrow> runs hw s r hw2"
  unfolding runs_def using loads_trans by fastforce

lemma runs_0: "runs hw s 0 hw' \<longleftrightarrow> loads hw s hw'"
  by (auto simp: runs_def)

lemma runs_wf: "runs hw s r hw' \<Longrightarrow> fw_wf hw' \<longleftrightarrow> fw_wf hw"
  using loads_wf by (auto simp: runs_def)

lemma runs_seq:
  assumes "andthen x f = Inr (ret, hw')" and "\<And>r h. x = Inr (r, h) \<Longrightarrow> runs hw s r h"
    and "\<And>h. x = Inr (0, h) \<Longrightarrow> runs hw s 0 h \<Longrightarrow> f h = Inr (ret, hw') \<Longrightarrow> runs h t ret hw'"
  shows "runs hw (s @ t) ret hw'"
proof -
  from assms(1) consider (stop) "ret \<noteq> 0" "x = Inr (ret, hw')" | (go) h where "x = Inr (0, h)" "f h = Inr (ret, hw')"
    by (auto simp: andthen_eq_Inr)
  then show ?thesis
  proof cases
    case stop
    then obtain k where "k \<le> length s" "loads hw (take k s) hw'" "k \<noteq> length s"
      using assms(2) [OF stop(2)] by (auto simp: runs_def)
    then show ?thesis using stop(1) unfolding runs_def by (intro exI [of _ k]) auto
  next
    case go
    then have l: "loads hw s h" using assms(2) [OF go(1)] by (simp add: runs_0)
    obtain k where "k \<le> length t" "loads h (take k t) hw'" "ret = 0 \<longleftrightarrow> k = length t"
      using assms(3) [OF go(1) assms(2) [OF go(1)] go(2)] by (auto simp: runs_def)
    then show ?thesis using loads_trans [OF l, of "take k t" hw'] unfolding runs_def
      by (intro exI [of _ "length s + k"]) simp
  qed
qed

text \<open>One frame of the boot loader's size.\<close>

lemma send_fw_frame:
  assumes "send_frame E fs fin False FW_SPI_PKG_SIZE hw = Inr (ret, hw')" and "fw_wf hw"
    and "put_all fs (fw_tx_buf (v_fw hw)) = Inr a" and "\<And>a b. fin a = Inr b \<Longrightarrow> length b = length a"
    and "\<And>b. fin a = Inr b \<Longrightarrow> b = f"
  shows "runs hw [f] ret hw'"
proof -
  obtain b where b: "fin a = Inr b" using assms(1,3) by (auto simp: send_frame_def bindF_eq_Inr)
  have f: "b = f" by (rule assms(5) [OF b])
  have "length f = FW_SPI_PKG_SIZE"
    using assms(2) assms(4) [OF b] put_all_length [OF assms(3)] f by (simp add: fw_wf_def)
  then have tk: "take FW_SPI_PKG_SIZE f = f" by simp
  have "loads hw (if ret = 0 then [take FW_SPI_PKG_SIZE f] else []) hw'"
    by (rule send_frame_loads [OF assms(1) _ assms(4,3)]) (use b f assms(2) in \<open>auto simp: fw_wf_def\<close>)
  then show ?thesis unfolding tk runs_def by (cases "ret = 0") (auto intro: exI [of _ 0])
qed

definition frag_ok :: "fragment \<Rightarrow> bool" where
  "frag_ok f \<longleftrightarrow> (case fr_data f of None \<Rightarrow> False | Some d \<Rightarrow> unat (fr_size f) \<le> length d)"

lemma load_fw_frag_runs:
  assumes "load_fw_frag E f t hw = Inr (ret, hw')" and "fw_wf hw" and "frag_ok f" and "fr_size f > 0"
    and "fw_option (v_fw hw) = opt"
  shows "runs hw (frag_script opt (t, Some f)) ret hw'"
proof -
  obtain d where d: "fr_data f = Some d" "unat (fr_size f) \<le> length d"
    using assms(3) by (auto simp: frag_ok_def split: option.splits)
  have pos: "0 < unat (fr_size f)" using assms(4) by (simp add: unat_gt_0 word_greater_zero_iff)
  let ?send = "send_frame E (memset0 FW_SPI_PKG_SIZE # frame_hdr VSC_CMD_DL_START #
      fw_dl_start (img_code t) (ucast opt) (fr_size f) (fr_location f)) (put_crc 16 16) False FW_SPI_PKG_SIZE"
  obtain hw1 where c: "clear_rx FW_SPI_PKG_SIZE hw = Inr hw1"
    using assms(1) by (auto simp: load_fw_frag_def bindF_eq_Inr)
  note l1 = clear_rx_Inr [OF c]
  have run: "andthen (?send hw1) (load_fw_bin E (fr_data f) (unat (fr_size f))) = Inr (ret, hw')"
    using assms(1,5) c loads_fields(4) [OF l1] by (simp add: load_fw_frag_def)
  have wf1: "fw_wf hw1" using loads_wf [OF l1] assms(2) by simp
  note put = put_fw_start [of "fw_tx_buf (v_fw hw1)" "img_code t" "ucast opt" "fr_size f" "fr_location f"]
  have "runs hw1 ([fw_start_bytes t opt (fr_size f) (fr_location f)] @
      dl_frames fw_cont_bytes (chunks FW_SPI_PKG_SIZE (take (unat (fr_size f)) d))) ret hw'"
  proof (rule runs_seq [OF run])
    fix r h assume s: "?send hw1 = Inr (r, h)"
    show "runs hw1 [fw_start_bytes t opt (fr_size f) (fr_location f)] r h"
      by (rule send_fw_frame [OF s wf1 put put_crc_length])
        (use wf1 in \<open>auto simp: fw_wf_def put_crc_Inr fw_start_bytes_def Let_def\<close>)
  next
    fix h assume h: "runs hw1 [fw_start_bytes t opt (fr_size f) (fr_location f)] 0 h"
      "load_fw_bin E (fr_data f) (unat (fr_size f)) h = Inr (ret, hw')"
    show "runs h (dl_frames fw_cont_bytes (chunks FW_SPI_PKG_SIZE (take (unat (fr_size f)) d))) ret hw'"
      using load_fw_bin_frames [OF h(2) [unfolded d(1)] _ d(2) pos] runs_wf [OF h(1)] wf1 by (auto simp: runs_def)
  qed
  from runs_loads [OF l1 this] show ?thesis by (simp add: frag_script_def d(1))
qed

lemma load_opt_runs:
  assumes "load_opt E f t hw = Inr (ret, hw')" and "fw_wf hw" and "fw_option (v_fw hw) = opt"
    and "\<And>x. f = Some x \<Longrightarrow> frag_ok x \<and> fr_size x > 0"
  shows "runs hw (frag_script opt (t, f)) ret hw'"
proof (cases f)
  case None
  then show ?thesis using assms(1) by (simp add: load_opt_def frag_script_def runs_refl)
next
  case (Some x)
  then show ?thesis using load_fw_frag_runs [of E x t hw ret hw' opt] assms by (simp add: load_opt_def)
qed

lemma runs_opt: "runs a s r b \<Longrightarrow> fw_option (v_fw b) = fw_option (v_fw a)"
  using loads_fields(4) by (auto simp: runs_def)

lemma length_dl_set_words: "length (dl_set_words fw) \<le> 10"
  by (auto simp: dl_set_words_def frag_words_def split: option.splits)

lemma put_dl_set:
  assumes "length tx = FW_SPI_PKG_SIZE" and "length ws \<le> 10"
  shows "put_all ([memset0 FW_SPI_PKG_SIZE, frame_hdr VSC_CMD_DL_SET, (5, le_bytes 2 opt), (7, [n])] @
      map (\<lambda>(i, w). (8 + 4 * i, le_bytes 4 (w :: u32))) (List.enumerate 0 ws)) tx =
    Inr ((frame_head VSC_CMD_DL_SET @ le_bytes 2 opt @ [n] @ concat (map (le_bytes 4) ws)) @ replicate (504 - 4 * length ws) 0)"
proof -
  let ?h = "frame_head VSC_CMD_DL_SET"
  have a: "store 5 (le_bytes 2 opt) (?h @ replicate 507 0) = Inr ((?h @ le_bytes 2 opt) @ replicate 505 0)"
    using store_zeros [of ?h 5 "le_bytes 2 opt" 507 "[]"] by simp
  have b: "store 7 [n] ((?h @ le_bytes 2 opt) @ replicate 505 0) = Inr ((?h @ le_bytes 2 opt @ [n]) @ replicate 504 0)"
    using store_zeros [of "?h @ le_bytes 2 opt" 7 "[n]" 505 "[]"] by simp
  show ?thesis
    using put_words [of "?h @ le_bytes 2 opt @ [n]" 0 ws 504] assms(2) a b by (simp add: put_head [OF assms(1)])
qed

lemma length_concat_words [simp]: "length (concat (map (le_bytes 4) (ws :: u32 list))) = 4 * length ws"
  by (induction ws) simp_all

lemma put_crc_eq:
  "put_crc n off a = Inr b \<Longrightarrow> b = take off a @ le_bytes 4 (sum_CRC (take n a)) @ drop (off + 4) a"
  by (metis put_crc_bounds put_crc_Inr Inr_inject)

lemma dl_set_bytes_eq:
  "base = (frame_head VSC_CMD_DL_SET @ le_bytes 2 (ucast (fw_option fw) :: u16) @ [ucast (fw_cnt fw)] @
       concat (map (le_bytes 4) (dl_set_words fw))) @ replicate (504 - 4 * length (dl_set_words fw)) 0 \<Longrightarrow>
   p = 8 + 4 * unat (fw_cnt fw * 2) \<Longrightarrow>
   dl_set_bytes fw = take p base @ le_bytes 4 (sum_CRC (take p base)) @ drop (p + 4) base"
  by (simp only: dl_set_bytes_def Let_def) simp

lemma frag_at_Some: "frag_at fw t = Some x \<Longrightarrow> x = frags fw t \<and> fr_size x > 0"
  by (auto simp: frag_at_def Let_def split: if_splits)

lemma load_fw_runs:
  assumes "load_fw E hw = Inr (ret, hw')" and "fw_wf hw" and "\<And>t x. frag_at (v_fw hw) t = Some x \<Longrightarrow> frag_ok x"
    and "frag_at (v_fw hw) ARC_SEM_IMG_TYPE \<noteq> None" and "frag_at (v_fw hw) EM7D_IMG_TYPE \<noteq> None"
  shows "runs hw (fw_script (v_fw hw)) ret hw'"
proof -
  let ?fw = "v_fw hw" let ?at = "frag_at ?fw" let ?opt = "fw_option ?fw"
  let ?pos = "8 + 4 * unat (fw_cnt ?fw * 2)"
  let ?set = "send_frame E ([memset0 FW_SPI_PKG_SIZE, frame_hdr VSC_CMD_DL_SET, (5, le_bytes 2 (ucast ?opt :: u16)),
              (7, [ucast (fw_cnt ?fw)])] @ map (\<lambda>(i, w). (8 + 4 * i, le_bytes 4 w)) (List.enumerate 0 (dl_set_words ?fw)))
            (put_crc ?pos ?pos) False FW_SPI_PKG_SIZE"
  let ?boot = "send_frame E [memset0 FW_SPI_PKG_SIZE, frame_hdr VSC_TOKEN_CAM_BOOT] (put_crc 16 8) False FW_SPI_PKG_SIZE"
  let ?sc = "frag_script ?opt"
  have opt: "load_opt E (?at t) img h = Inr (r, h') \<Longrightarrow> fw_wf h \<and> fw_option (v_fw h) = ?opt \<Longrightarrow> runs h (?sc (img, ?at t)) r h'" for t img h r h'
    by (rule load_opt_runs) (use assms(3) frag_at_Some in auto)
  have wf: "runs a s r b \<Longrightarrow> fw_wf a \<and> fw_option (v_fw a) = ?opt \<Longrightarrow> fw_wf b \<and> fw_option (v_fw b) = ?opt" for a s r b
    using runs_wf runs_opt by metis
  obtain hw1 where c: "clear_rx FW_SPI_PKG_SIZE hw = Inr hw1"
    using assms(1,4,5) by (auto simp: load_fw_def Let_def bindF_eq_Inr)
  note l1 = clear_rx_Inr [OF c]
  have wf1: "fw_wf hw1 \<and> fw_option (v_fw hw1) = ?opt" using loads_wf [OF l1] loads_fields(4) [OF l1] assms(2) by simp
  have run: "andthen (?set hw1) (\<lambda>hw.
        andthen (load_opt E (?at ARC_SEM_IMG_TYPE) IMG_ARCSEM hw) (\<lambda>hw.
        andthen (load_opt E (?at ACER_IMG_TYPE) IMG_ACE_RUNTIME hw) (\<lambda>hw.
        andthen (load_opt E (?at ACEV_IMG_TYPE) IMG_ACE_VISION hw) (\<lambda>hw.
        andthen (load_opt E (?at ACEC_IMG_TYPE) IMG_ACE_CONFIG hw) (\<lambda>hw.
        andthen (load_opt E (?at EM7D_IMG_TYPE) IMG_EM7D hw) (\<lambda>hw.
        andthen (load_opt E (?at SKU_CONF_TYPE) IMG_SKU_CONFIG hw) ?boot)))))) = Inr (ret, hw')"
    using assms(1,4,5) c by (simp add: load_fw_def Let_def)
  have set: "runs hw1 [dl_set_bytes ?fw] r h" if "?set hw1 = Inr (r, h)" for r h
  proof -
    have tx: "length (fw_tx_buf (v_fw hw1)) = FW_SPI_PKG_SIZE" using wf1 by (simp add: fw_wf_def)
    note put = put_dl_set [OF tx length_dl_set_words, of "ucast ?opt" "ucast (fw_cnt ?fw)" ?fw]
    show ?thesis
      by (rule send_fw_frame [OF that _ put put_crc_length], use wf1 in simp, assumption)
        (metis put_crc_eq dl_set_bytes_eq)
  qed
  have boot: "runs a [fw_boot_bytes] r h" if "?boot a = Inr (r, h)" "fw_wf a \<and> fw_option (v_fw a) = ?opt" for a r h
  proof -
    have tx: "length (fw_tx_buf (v_fw a)) = FW_SPI_PKG_SIZE" using that(2) by (simp add: fw_wf_def)
    have put: "put_all [memset0 FW_SPI_PKG_SIZE, frame_hdr VSC_TOKEN_CAM_BOOT] (fw_tx_buf (v_fw a)) =
        Inr (frame_head VSC_TOKEN_CAM_BOOT @ replicate 507 0)"
      by (simp add: put_head [OF tx])
    have crc: "sum_CRC (frame_head VSC_TOKEN_CAM_BOOT @ replicate 11 0) = sum_CRC (frame_head VSC_TOKEN_CAM_BOOT @ [0, 0, 0])"
      by (simp add: sum_CRC_def eval_nat_numeral)
    have z: "replicate 3 (0 :: u8) = [0, 0, 0]" by (simp add: eval_nat_numeral)
    show ?thesis
      by (rule send_fw_frame [OF that(1) _ put put_crc_length])
        (use that(2) crc z in \<open>auto simp: put_crc_Inr fw_boot_bytes_def Let_def\<close>)
  qed
  have "runs hw1 ([dl_set_bytes ?fw] @ ?sc (IMG_ARCSEM, ?at ARC_SEM_IMG_TYPE) @ ?sc (IMG_ACE_RUNTIME, ?at ACER_IMG_TYPE) @
      ?sc (IMG_ACE_VISION, ?at ACEV_IMG_TYPE) @ ?sc (IMG_ACE_CONFIG, ?at ACEC_IMG_TYPE) @
      ?sc (IMG_EM7D, ?at EM7D_IMG_TYPE) @ ?sc (IMG_SKU_CONFIG, ?at SKU_CONF_TYPE) @ [fw_boot_bytes]) ret hw'"
    apply (rule runs_seq [OF run], erule set)
    apply (drule wf [OF _ wf1])
    apply (erule runs_seq, erule opt, assumption, drule (1) wf)+
    apply (erule boot, assumption)
    done
  from runs_loads [OF l1 this] show ?thesis by (simp add: fw_script_def)
qed

section \<open>A bus that works\<close>

definition good_bus :: "('w, 'x) spi_env_scheme \<Rightarrow> bool" where
  "good_bus E \<longleftrightarrow> (\<forall>t w. fst (fst (spi_sync E t w)) = 0) \<and> (\<forall>w. \<not> fst (gpio_wakeuphost E w))"

lemma truncate_fields [simp]:
  "spi_sync (spi_env.truncate E) = spi_sync E" "gpio_wakeuphost (spi_env.truncate E) = gpio_wakeuphost E"
  by (simp_all add: spi_env.truncate_def)

lemma rom_wait_ready: "good_bus E \<Longrightarrow> 0 < n \<Longrightarrow> \<exists>w. rom_wait (spi_env.truncate E) n hw = (True, hw\<lparr>v_env := w\<rparr>)"
proof -
  assume "good_bus E" "0 < n"
  moreover obtain b w where g: "gpio_wakeuphost E (v_env hw) = (b, w)" by fastforce
  ultimately have "\<not> b" unfolding good_bus_def by (metis fst_conv)
  then have "rom_wait (spi_env.truncate E) n hw = (True, hw\<lparr>v_env := w\<rparr>)"
    using g \<open>0 < n\<close> by (cases n) (simp_all add: spi_rom_xfer_asserted_def)
  then show ?thesis by blast
qed

lemma spi_dev_xfer_ok:
  assumes "good_bus E" and "len \<le> length out" and "\<And>i. inb = Some i \<Longrightarrow> len \<le> length i"
  shows "\<exists>inb' hw'. spi_dev_xfer (spi_env.truncate E) out inb len hw = Inr ((0, inb'), hw')"
proof -
  obtain ret r w where "spi_sync E (take len out) (v_env hw) = ((ret, r), w)" by (metis prod.collapse)
  moreover from this have "ret = 0" using assms(1) unfolding good_bus_def by (metis fst_conv)
  ultimately show ?thesis
    using assms(2,3) by (cases inb) (auto simp: spi_dev_xfer_def load_def store_def Let_def clocked_def)
qed

lemma send_frame_ok:
  assumes "good_bus E" and "put_all fs (fw_tx_buf (v_fw hw)) = Inr a" and "fin a = Inr f" and "len \<le> length f"
    and "len mod 4 = 0" and "reply \<Longrightarrow> len \<le> length (fw_rx_buf (v_fw hw))"
  shows "\<exists>hw'. send_frame E fs fin reply len hw = Inr (0, hw')"
proof -
  let ?o = "swab_words (take len f) @ drop len f"
  let ?in = "if reply then Some (fw_rx_buf (v_fw hw)) else None"
  obtain w where rw: "rom_wait (spi_env.truncate E) LOADER_XFER_RETRY_COUNT ((set_tx f hw)\<lparr>v_mutex := True\<rparr>) =
      (True, (set_tx f hw)\<lparr>v_mutex := True, v_env := w\<rparr>)"
    using rom_wait_ready [OF assms(1)] by fastforce
  have "len \<le> length ?o" using assms(4) by simp
  then obtain inb h where x: "spi_dev_xfer (spi_env.truncate E) ?o ?in len ((set_tx f hw)\<lparr>v_mutex := True, v_env := w\<rparr>) = Inr ((0, inb), h)"
    using spi_dev_xfer_ok [OF assms(1), of len ?o ?in] assms(6) by fastforce
  have "\<exists>out in' h'. spi_rom_dev_xfer (spi_env.truncate E) f ?in len (set_tx f hw) = Inr ((0, out, in'), h')"
    using assms(4,5) rw x by (cases inb) (auto simp: spi_rom_dev_xfer_def load_def)
  then show ?thesis using assms(2,3) by (auto simp: send_frame_def Let_def)
qed

lemma clear_token_ok: "fw_wf hw \<Longrightarrow> n \<le> FW_SPI_PKG_SIZE \<Longrightarrow> \<exists>hw'. clear_token n hw = Inr hw'"
  by (simp add: clear_token_def memset0_def store_def fw_wf_def)

lemma clear_rx_ok: "fw_wf hw \<Longrightarrow> \<exists>hw'. clear_rx FW_SPI_PKG_SIZE hw = Inr hw'"
  by (simp add: clear_rx_def memset0_def store_def fw_wf_def)

lemma dl_loop_ok:
  assumes "good_bus E" and "fw_wf hw" and "remain \<le> length ptr" and "0 < n" and "pkg mod 4 = 0" and "pkg \<le> FW_SPI_PKG_SIZE"
    and put: "\<And>e bs tx. length bs \<le> n \<Longrightarrow> length tx = FW_SPI_PKG_SIZE \<Longrightarrow>
      put_all (frame e bs) tx = Inr (g e bs @ drop pkg tx) \<and> length (g e bs) = pkg"
  shows "\<exists>hw'. dl_loop E pkg n frame ptr remain hw = Inr (0, hw')"
  using assms(2,3)
proof (induction remain arbitrary: ptr hw rule: less_induct)
  case (less remain)
  show ?case
  proof (cases "remain = 0")
    case True
    then show ?thesis by (simp add: dl_loop.simps)
  next
    case False
    let ?len = "min n remain" let ?f = "g (remain = ?len) (take ?len ptr)"
    obtain hw1 where c: "clear_token pkg hw = Inr hw1" using clear_token_ok [OF less.prems(1) assms(6)] by blast
    note l1 = clear_token_Inr [OF c]
    have wf1: "fw_wf hw1" using loads_wf [OF l1] less.prems(1) by simp
    have p: "put_all (frame (remain = ?len) (take ?len ptr)) (fw_tx_buf (v_fw hw1)) = Inr (?f @ drop pkg (fw_tx_buf (v_fw hw1)))"
        "length ?f = pkg"
      using put [of "take ?len ptr" "fw_tx_buf (v_fw hw1)"] less.prems(2) wf1 by (simp_all add: fw_wf_def)
    obtain hw2 where s: "send_frame E (frame (remain = ?len) (take ?len ptr)) Inr False pkg hw1 = Inr (0, hw2)"
      using send_frame_ok [OF assms(1) p(1) refl _ assms(5)] p(2) by fastforce
    have "loads hw1 (if (0 :: int) = 0 then [take pkg (?f @ drop pkg (fw_tx_buf (v_fw hw1)))] else []) hw2"
      by (rule send_frame_loads [OF s assms(5) _ p(1) refl]) (use wf1 assms(6) in \<open>auto simp: fw_wf_def\<close>)
    then have "fw_wf hw2" using loads_wf wf1 by blast
    then obtain hw3 where "dl_loop E pkg n frame (drop ?len ptr) (remain - ?len) hw2 = Inr (0, hw3)"
      using less.IH [of "remain - ?len" hw2 "drop ?len ptr"] False less.prems(2) assms(4) by fastforce
    moreover have "load 0 ?len ptr = Inr (take ?len ptr)" using less.prems(2) by (simp add: load_def)
    ultimately show ?thesis using False assms(4) c s by (subst dl_loop.simps) (simp add: Let_def)
  qed
qed

lemma load_fw_bin_ok:
  assumes "good_bus E" and "fw_wf hw" and "sz \<le> length data" and "0 < sz"
  shows "\<exists>hw'. load_fw_bin E (Some data) sz hw = Inr (0, hw')"
proof -
  have "\<exists>hw'. dl_loop E FW_SPI_PKG_SIZE FW_SPI_PKG_SIZE fw_cont_frame data sz hw = Inr (0, hw')"
    by (rule dl_loop_ok [OF assms(1-3), where g = fw_cont_bytes])
      (auto simp: fw_cont_frame_def fw_cont_bytes_def memset0_def store_def)
  then show ?thesis using assms(4) by (simp add: load_fw_bin_def)
qed

lemma load_fw_frag_ok:
  assumes "good_bus E" and "fw_wf hw" and "frag_ok f" and "fr_size f > 0"
  shows "\<exists>hw'. load_fw_frag E f t hw = Inr (0, hw')"
proof -
  obtain d where d: "fr_data f = Some d" "unat (fr_size f) \<le> length d"
    using assms(3) by (auto simp: frag_ok_def split: option.splits)
  have pos: "0 < unat (fr_size f)" using assms(4) by (simp add: unat_gt_0 word_greater_zero_iff)
  obtain hw1 where c: "clear_rx FW_SPI_PKG_SIZE hw = Inr hw1" using clear_rx_ok [OF assms(2)] by blast
  note l1 = clear_rx_Inr [OF c]
  have wf1: "fw_wf hw1" using loads_wf [OF l1] assms(2) by simp
  let ?opt = "ucast (fw_option (v_fw hw1)) :: u16"
  let ?fs = "memset0 FW_SPI_PKG_SIZE # frame_hdr VSC_CMD_DL_START # fw_dl_start (img_code t) ?opt (fr_size f) (fr_location f)"
  let ?a = "frame_head VSC_CMD_DL_START @ le_bytes 2 ?opt @ [img_code t] @ le_bytes 4 (fr_size f) @ le_bytes 4 (fr_location f) @ replicate 496 0"
  have put: "put_all ?fs (fw_tx_buf (v_fw hw1)) = Inr ?a" using wf1 by (intro put_fw_start) (simp add: fw_wf_def)
  obtain b where b: "put_crc 16 16 ?a = Inr b" "length b = FW_SPI_PKG_SIZE" by (simp add: put_crc_Inr)
  obtain hw2 where s: "send_frame E ?fs (put_crc 16 16) False FW_SPI_PKG_SIZE hw1 = Inr (0, hw2)"
    using send_frame_ok [where fin = "put_crc 16 16" and reply = False and len = FW_SPI_PKG_SIZE, OF assms(1) put b(1)] b(2) by auto
  have "runs hw1 [b] 0 hw2" by (rule send_fw_frame [OF s wf1 put put_crc_length]) (use b in auto)
  then have "fw_wf hw2" using runs_wf wf1 by blast
  from load_fw_bin_ok [OF assms(1) this d(2) pos] show ?thesis
    using c s d(1) by (auto simp: load_fw_frag_def)
qed


lemma load_opt_ok:
  assumes "good_bus E" and "fw_wf hw" and "\<And>x. f = Some x \<Longrightarrow> frag_ok x \<and> fr_size x > 0"
  shows "\<exists>hw'. load_opt E f t hw = Inr (0, hw')"
  using load_fw_frag_ok [OF assms(1,2)] assms(3) by (cases f) (auto simp: load_opt_def)

lemma load_fw_ok:
  assumes "good_bus E" and "fw_wf hw" and "\<And>t x. frag_at (v_fw hw) t = Some x \<Longrightarrow> frag_ok x"
    and "frag_at (v_fw hw) ARC_SEM_IMG_TYPE \<noteq> None" and "frag_at (v_fw hw) EM7D_IMG_TYPE \<noteq> None"
    and "unat (fw_cnt (v_fw hw) * 2) \<le> 125"
  shows "\<exists>hw'. load_fw E hw = Inr (0, hw')"
proof -
  let ?fw = "v_fw hw" let ?at = "frag_at ?fw" let ?opt = "fw_option ?fw"
  let ?pos = "8 + 4 * unat (fw_cnt ?fw * 2)"
  let ?fs = "[memset0 FW_SPI_PKG_SIZE, frame_hdr VSC_CMD_DL_SET, (5, le_bytes 2 (ucast ?opt :: u16)),
              (7, [ucast (fw_cnt ?fw)])] @ map (\<lambda>(i, w). (8 + 4 * i, le_bytes 4 w)) (List.enumerate 0 (dl_set_words ?fw))"
  have opt: "\<exists>h'. load_opt E (?at t) img h = Inr (0, h') \<and> fw_wf h'" if "fw_wf h" for t img h
    using load_opt_ok [OF assms(1) that, of "?at t" img] load_opt_runs [of E "?at t" img h 0] runs_wf that assms(3) frag_at_Some
    by metis
  obtain hw1 where c: "clear_rx FW_SPI_PKG_SIZE hw = Inr hw1" using clear_rx_ok [OF assms(2)] by blast
  have wf1: "fw_wf hw1" using loads_wf [OF clear_rx_Inr [OF c]] assms(2) by simp
  then have tx: "length (fw_tx_buf (v_fw hw1)) = FW_SPI_PKG_SIZE" by (simp add: fw_wf_def)
  note put = put_dl_set [OF tx length_dl_set_words, of "ucast ?opt" "ucast (fw_cnt ?fw)" ?fw]
  obtain b where b: "put_crc ?pos ?pos ((frame_head VSC_CMD_DL_SET @ le_bytes 2 (ucast ?opt :: u16) @ [ucast (fw_cnt ?fw)] @
      concat (map (le_bytes 4) (dl_set_words ?fw))) @ replicate (504 - 4 * length (dl_set_words ?fw)) 0) = Inr b"
    "length b = FW_SPI_PKG_SIZE"
    using length_dl_set_words [of ?fw] assms(6) by (simp add: put_crc_Inr)
  obtain hw2 where s: "send_frame E ?fs (put_crc ?pos ?pos) False FW_SPI_PKG_SIZE hw1 = Inr (0, hw2)"
    using send_frame_ok [where fin = "put_crc ?pos ?pos" and reply = False and len = FW_SPI_PKG_SIZE, OF assms(1) put b(1)] b(2)
    by auto
  have "runs hw1 [b] 0 hw2" by (rule send_fw_frame [OF s wf1 put put_crc_length]) (use b in auto)
  then have wf2: "fw_wf hw2" using runs_wf wf1 by blast
  have boot: "\<exists>h'. send_frame E [memset0 FW_SPI_PKG_SIZE, frame_hdr VSC_TOKEN_CAM_BOOT] (put_crc 16 8) False FW_SPI_PKG_SIZE h = Inr (0, h')"
    if "fw_wf h" for h
  proof -
    have put: "put_all [memset0 FW_SPI_PKG_SIZE, frame_hdr VSC_TOKEN_CAM_BOOT] (fw_tx_buf (v_fw h)) =
        Inr (frame_head VSC_TOKEN_CAM_BOOT @ replicate 507 0)"
      using that put_head [of "fw_tx_buf (v_fw h)" VSC_TOKEN_CAM_BOOT "[]"] by (simp add: fw_wf_def)
    obtain b where b: "put_crc 16 8 (frame_head VSC_TOKEN_CAM_BOOT @ replicate 507 0) = Inr b" "length b = FW_SPI_PKG_SIZE"
      by (simp add: put_crc_Inr)
    show ?thesis
      using send_frame_ok [where fin = "put_crc 16 8" and reply = False and len = FW_SPI_PKG_SIZE, OF assms(1) put b(1)] b(2) by auto
  qed
  obtain a1 where a1: "load_opt E (?at ARC_SEM_IMG_TYPE) IMG_ARCSEM hw2 = Inr (0, a1)" "fw_wf a1" using opt [OF wf2] by blast
  obtain a2 where a2: "load_opt E (?at ACER_IMG_TYPE) IMG_ACE_RUNTIME a1 = Inr (0, a2)" "fw_wf a2" using opt [OF a1(2)] by blast
  obtain a3 where a3: "load_opt E (?at ACEV_IMG_TYPE) IMG_ACE_VISION a2 = Inr (0, a3)" "fw_wf a3" using opt [OF a2(2)] by blast
  obtain a4 where a4: "load_opt E (?at ACEC_IMG_TYPE) IMG_ACE_CONFIG a3 = Inr (0, a4)" "fw_wf a4" using opt [OF a3(2)] by blast
  obtain a5 where a5: "load_opt E (?at EM7D_IMG_TYPE) IMG_EM7D a4 = Inr (0, a5)" "fw_wf a5" using opt [OF a4(2)] by blast
  obtain a6 where a6: "load_opt E (?at SKU_CONF_TYPE) IMG_SKU_CONFIG a5 = Inr (0, a6)" "fw_wf a6" using opt [OF a5(2)] by blast
  obtain a7 where "send_frame E [memset0 FW_SPI_PKG_SIZE, frame_hdr VSC_TOKEN_CAM_BOOT] (put_crc 16 8) False FW_SPI_PKG_SIZE a6 = Inr (0, a7)"
    using boot [OF a6(2)] by blast
  then have "load_fw E hw = Inr (0, a7)"
    using assms(4,5) c s a1(1) a2(1) a3(1) a4(1) a5(1) a6(1) by (simp add: load_fw_def Let_def)
  then show ?thesis by blast
qed


text \<open>Two images of a few bytes on a bus that works.\<close>

definition rom_bus :: "bytes list spi_env" where
  "rom_bus = scripted_spi\<lparr>spi_sync := \<lambda>t w. ((0, concat (take 1 w)), drop 1 w), gpio_wakeuphost := \<lambda>w. (False, w)\<rparr>"

definition loader_hw :: "bytes list mei_vsc_hw" where
  "loader_hw = (new_vsc_hw [])\<lparr>v_fw := set_frag ARC_SEM_IMG_TYPE (Some [1, 2, 3]) 2 0x1000
     (set_frag EM7D_IMG_TYPE (Some [7]) 1 0x2000 no_fw)\<lparr>fw_cnt := 2\<rparr>\<rparr>"

lemma good_rom_bus: "good_bus rom_bus"
  by (simp add: good_bus_def rom_bus_def scripted_spi_def)

lemma loader_hw_ok:
  "fw_wf loader_hw" "\<forall>t. frag_at (v_fw loader_hw) t = None \<or> frag_ok (frags (v_fw loader_hw) t)"
  "frag_at (v_fw loader_hw) ARC_SEM_IMG_TYPE \<noteq> None" "frag_at (v_fw loader_hw) EM7D_IMG_TYPE \<noteq> None"
  "fw_cnt (v_fw loader_hw) = 2" "v_wire loader_hw = []"
  by (auto simp: loader_hw_def new_vsc_hw_def no_fw_def fw_wf_def set_frag_def frag_at_def frag_ok_def Let_def)


section \<open>The download of the boot loader\<close>

definition rom_start_bytes :: "u32 \<Rightarrow> u32 \<Rightarrow> u32 \<Rightarrow> bytes" where
  "rom_start_bytes opt sz loc =
     (let h = frame_head VSC_CMD_DL_START @ [img_code IMG_BOOTLOADER] @ le_bytes 2 (ucast opt :: u16) @ le_bytes 4 sz @ le_bytes 4 loc
      in h @ le_bytes 4 (sum_CRC h) @ replicate 236 0)"

lemma put_rom_start:
  assumes "length tx = FW_SPI_PKG_SIZE"
  shows "put_all (memset0 VSC_ROM_SPI_PKG_SIZE # frame_hdr VSC_CMD_DL_START # rom_dl_start t opt sz loc) tx =
    Inr (frame_head VSC_CMD_DL_START @ [t] @ le_bytes 2 opt @ le_bytes 4 sz @ le_bytes 4 loc @ replicate 240 0 @ drop VSC_ROM_SPI_PKG_SIZE tx)"
proof -
  let ?h = "frame_head VSC_CMD_DL_START" let ?d = "drop VSC_ROM_SPI_PKG_SIZE tx"
  have "store 0 (replicate 256 0) tx = Inr (replicate 256 0 @ ?d)" using assms by (simp add: store_def)
  moreover have "store 0 ?h (replicate 256 0 @ ?d) = Inr (?h @ replicate 251 0 @ ?d)"
    using store_zeros [of "[]" 0 ?h 256 ?d] by simp
  moreover have "store 5 [t] (?h @ replicate 251 0 @ ?d) = Inr ((?h @ [t]) @ replicate 250 0 @ ?d)"
    using store_zeros [of ?h 5 "[t]" 251 ?d] by simp
  moreover have "store 8 (le_bytes 4 sz) ((?h @ [t]) @ replicate 250 0 @ ?d) =
      Inr ((?h @ [t, 0, 0]) @ le_bytes 4 sz @ replicate 244 0 @ ?d)"
    using store_zeros [of "?h @ [t, 0, 0]" 8 "le_bytes 4 sz" 248 ?d] replicate_add [of 2 248 "0 :: u8"] by (simp add: numeral_2_eq_2)
  moreover have "store 12 (le_bytes 4 loc) ((?h @ [t, 0, 0]) @ le_bytes 4 sz @ replicate 244 0 @ ?d) =
      Inr ((?h @ [t, 0, 0]) @ le_bytes 4 sz @ le_bytes 4 loc @ replicate 240 0 @ ?d)"
    using store_zeros [of "?h @ [t, 0, 0] @ le_bytes 4 sz" 12 "le_bytes 4 loc" 244 ?d] by simp
  moreover have "store 6 (le_bytes 2 opt) ((?h @ [t, 0, 0]) @ le_bytes 4 sz @ le_bytes 4 loc @ replicate 240 0 @ ?d) =
      Inr (?h @ [t] @ le_bytes 2 opt @ le_bytes 4 sz @ le_bytes 4 loc @ replicate 240 0 @ ?d)"
    by (simp add: store_def)
  ultimately show ?thesis by (simp add: memset0_def frame_hdr_def rom_dl_start_def frame_head_def)
qed

lemma send_rom_frame:
  assumes "send_frame E fs fin reply VSC_ROM_SPI_PKG_SIZE hw = Inr (ret, hw')" and "fw_wf hw"
    and "put_all fs (fw_tx_buf (v_fw hw)) = Inr a" and "\<And>a b. fin a = Inr b \<Longrightarrow> length b = length a"
    and "\<And>b. fin a = Inr b \<Longrightarrow> take VSC_ROM_SPI_PKG_SIZE b = f"
  shows "runs hw [f] ret hw'"
proof -
  obtain b where b: "fin a = Inr b" using assms(1,3) by (auto simp: send_frame_def bindF_eq_Inr)
  note f = assms(5) [OF b]
  have "loads hw (if ret = 0 then [take VSC_ROM_SPI_PKG_SIZE b] else []) hw'"
    by (rule send_frame_loads [OF assms(1) _ assms(4,3)]) (use b assms(2) in \<open>auto simp: fw_wf_def\<close>)
  then show ?thesis unfolding f runs_def by (cases "ret = 0") (auto intro: exI [of _ 0])
qed

text \<open>The frames of the boot loader: the query keeps what the buffer held behind its command.\<close>

definition boot_script :: "'w mei_vsc_hw \<Rightarrow> bytes \<Rightarrow> bytes list" where
  "boot_script hw data =
     (let f = frags (v_fw hw) BOOT_IMAGE_TYPE in
      [take VSC_ROM_SPI_PKG_SIZE (frame_head VSC_CMD_QUERY @ drop 5 (fw_tx_buf (v_fw hw))),
       rom_start_bytes (fw_option (v_fw hw)) (fr_size f) (fr_location f)] @
      dl_frames dl_cont_bytes (chunks 248 (take (unat (fr_size f)) data)))"

text \<open>
  The download of the boot loader.  If its image lies inside the file, \<open>load_bootloader\<close> sends the
  query, the start frame with its checksum and the image in frames of at most 248 bytes, each with its
  length and with the end flag in the last one only; it returns 0 exactly when all of them were sent,
  which needs an answer to the query with one of the two tokens, and else a proper prefix was sent.
\<close>
lemma bootloader_download:
  assumes "load_bootloader E hw = Inr (ret, hw')" and "fw_wf hw"
    and "fr_data (frags (v_fw hw) BOOT_IMAGE_TYPE) = Some data" and "unat (fr_size (frags (v_fw hw) BOOT_IMAGE_TYPE)) \<le> length data"
    and "fr_size (frags (v_fw hw) BOOT_IMAGE_TYPE) \<noteq> 0"
  shows "\<exists>k \<le> length (boot_script hw data). v_wire hw' = v_wire hw @ map swab_words (take k (boot_script hw data)) \<and>
    (ret = 0 \<longleftrightarrow> k = length (boot_script hw data))"
proof -
  let ?f = "frags (v_fw hw) BOOT_IMAGE_TYPE" let ?opt = "fw_option (v_fw hw)"
  let ?q = "take VSC_ROM_SPI_PKG_SIZE (frame_head VSC_CMD_QUERY @ drop 5 (fw_tx_buf (v_fw hw)))"
  let ?st = "rom_start_bytes ?opt (fr_size ?f) (fr_location ?f)"
  let ?ch = "dl_frames dl_cont_bytes (chunks 248 (take (unat (fr_size ?f)) data))"
  let ?start = "send_frame E (memset0 VSC_ROM_SPI_PKG_SIZE # frame_hdr VSC_CMD_DL_START #
      rom_dl_start (img_code IMG_BOOTLOADER) (ucast ?opt) (fr_size ?f) (fr_location ?f)) (put_crc 16 16) False VSC_ROM_SPI_PKG_SIZE"
  have pos: "0 < unat (fr_size ?f)" using assms(5) by (simp add: unat_gt_0)
  have run: "andthen (send_frame E [frame_hdr VSC_CMD_QUERY] Inr True VSC_ROM_SPI_PKG_SIZE hw) (\<lambda>hw.
        bindF (token_of hw) (\<lambda>token.
        if token \<noteq> VSC_TOKEN_BOOTLOADER_REQ \<and> token \<noteq> VSC_TOKEN_DUMP_RESP then Inr (- EINVAL, hw)
        else
          bindF (clear_token VSC_ROM_SPI_PKG_SIZE hw) (\<lambda>hw.
          andthen (send_frame E
              (memset0 VSC_ROM_SPI_PKG_SIZE # frame_hdr VSC_CMD_DL_START #
               rom_dl_start (img_code IMG_BOOTLOADER) (ucast (fw_option (v_fw hw))) (fr_size ?f) (fr_location ?f))
              (put_crc 16 16) False VSC_ROM_SPI_PKG_SIZE hw)
            (load_boot E (fr_data ?f) (unat (fr_size ?f)))))) = Inr (ret, hw')"
    using assms(1,5) by (simp add: load_bootloader_def Let_def)
  have "runs hw ([?q] @ ([?st] @ ?ch)) ret hw'"
  proof (rule runs_seq [OF run])
    fix r h assume s: "send_frame E [frame_hdr VSC_CMD_QUERY] Inr True VSC_ROM_SPI_PKG_SIZE hw = Inr (r, h)"
    have "put_all [frame_hdr VSC_CMD_QUERY] (fw_tx_buf (v_fw hw)) = Inr (frame_head VSC_CMD_QUERY @ drop 5 (fw_tx_buf (v_fw hw)))"
      using assms(2) by (simp add: frame_hdr_def store_def frame_head_def fw_wf_def)
    then show "runs hw [?q] r h" by (rule send_rom_frame [OF s assms(2)]) auto
  next
    fix h assume h: "runs hw [?q] 0 h"
      "bindF (token_of h) (\<lambda>token.
        if token \<noteq> VSC_TOKEN_BOOTLOADER_REQ \<and> token \<noteq> VSC_TOKEN_DUMP_RESP then Inr (- EINVAL, h)
        else
          bindF (clear_token VSC_ROM_SPI_PKG_SIZE h) (\<lambda>hw.
          andthen (send_frame E
              (memset0 VSC_ROM_SPI_PKG_SIZE # frame_hdr VSC_CMD_DL_START #
               rom_dl_start (img_code IMG_BOOTLOADER) (ucast (fw_option (v_fw hw))) (fr_size ?f) (fr_location ?f))
              (put_crc 16 16) False VSC_ROM_SPI_PKG_SIZE hw)
            (load_boot E (fr_data ?f) (unat (fr_size ?f))))) = Inr (ret, hw')"
    have wf: "fw_wf h" "fw_option (v_fw h) = ?opt" using runs_wf [OF h(1)] runs_opt [OF h(1)] assms(2) by auto
    from h(2) consider "ret = - EINVAL" "hw' = h"
      | h1 where "clear_token VSC_ROM_SPI_PKG_SIZE h = Inr h1"
        "andthen (send_frame E
              (memset0 VSC_ROM_SPI_PKG_SIZE # frame_hdr VSC_CMD_DL_START #
               rom_dl_start (img_code IMG_BOOTLOADER) (ucast (fw_option (v_fw h1))) (fr_size ?f) (fr_location ?f))
              (put_crc 16 16) False VSC_ROM_SPI_PKG_SIZE h1)
            (load_boot E (fr_data ?f) (unat (fr_size ?f))) = Inr (ret, hw')"
      by (auto simp: bindF_eq_Inr split: if_splits)
    then show "runs h ([?st] @ ?ch) ret hw'"
    proof cases
      case 1
      then show ?thesis by (auto simp: runs_def loads_refl intro: exI [of _ 0])
    next
      case 2
      note l1 = clear_token_Inr [OF 2(1)]
      have wf1: "fw_wf h1" "fw_option (v_fw h1) = ?opt" using loads_wf [OF l1] loads_fields(4) [OF l1] wf by auto
      have tx: "length (fw_tx_buf (v_fw h1)) = FW_SPI_PKG_SIZE" using wf1(1) by (simp add: fw_wf_def)
      have "runs h1 ([?st] @ ?ch) ret hw'"
      proof (rule runs_seq [OF 2(2) [unfolded wf1(2)]])
        fix r g assume s: "?start h1 = Inr (r, g)"
        show "runs h1 [?st] r g"
          by (rule send_rom_frame [OF s wf1(1) put_rom_start [OF tx] put_crc_length])
            (use tx in \<open>auto dest!: put_crc_eq simp: rom_start_bytes_def Let_def\<close>)
      next
        fix g assume g: "runs h1 [?st] 0 g" "load_boot E (fr_data ?f) (unat (fr_size ?f)) g = Inr (ret, hw')"
        show "runs g ?ch ret hw'"
          using load_boot_frames [OF g(2) [unfolded assms(3)] _ assms(4) pos] runs_wf [OF g(1)] wf1(1) by (auto simp: runs_def)
      qed
      from runs_loads [OF l1 this] show ?thesis .
    qed
  qed
  then show ?thesis unfolding runs_def boot_script_def Let_def using loads_fields(1) by fastforce
qed

end
