(* ===== verification/Vsc_Files.thy ===== *)
theory Vsc_Files
  imports Vsc_Download
begin

text \<open>
  Laws of the other half of \<^theory_text>\<open>Vsc_Firmware\<close>: the main firmware file is read back from its images, what a
  passed silicon check means, and which files \<open>init_hw\<close> holds on return.
\<close>

section \<open>Building and parsing a firmware file\<close>

definition mk_sign :: "bytes \<Rightarrow> bytes" where
  "mk_sign d = le_bytes 4 VSC_FW_MAGIC @ le_bytes 4 (of_nat (length d) :: u32) @ d"

definition mk_file :: "u32 \<Rightarrow> u32 list \<Rightarrow> bytes list \<Rightarrow> bytes" where
  "mk_file opt locs images =
     le_bytes 4 VSC_FILE_MAGIC @ le_bytes 4 opt @ le_bytes 4 (of_nat (length locs) :: u32) @
     concat (map (le_bytes 4) locs) @ concat (map mk_sign images)"

lemma length_mk_sign [simp]: "length (mk_sign d) = 8 + length d"
  by (simp add: mk_sign_def)

definition sign_at :: "bytes \<Rightarrow> nat \<Rightarrow> bytes \<Rightarrow> bool" where
  "sign_at file off d \<longleftrightarrow> (\<exists>pre post. file = pre @ mk_sign d @ post \<and> length pre = off) \<and> length d < 2 ^ 32"

lemma get_le_mid: "length pre = off \<Longrightarrow> get_le off 4 (pre @ le_bytes 4 (w :: u32) @ post) = Inr w"
  by (simp add: get_le_def load_def word_of_le_le_bytes)

lemma sign_at_facts:
  assumes "sign_at file off d"
  shows "sign_magic file off = Inr VSC_FW_MAGIC" "sign_size file off = Inr (of_nat (length d))"
    "take (length d) (drop (off + 8) file) = d" "unat (of_nat (length d) :: u32) = length d"
    "off + 8 + length d \<le> length file"
proof -
  obtain pre post where f: "file = pre @ mk_sign d @ post" "length pre = off" and l: "length d < 2 ^ 32"
    using assms by (auto simp: sign_at_def)
  show "sign_magic file off = Inr VSC_FW_MAGIC" using f by (simp add: sign_magic_def mk_sign_def get_le_mid)
  have "file = (pre @ le_bytes 4 VSC_FW_MAGIC) @ le_bytes 4 (of_nat (length d) :: u32) @ d @ post"
    using f by (simp add: mk_sign_def)
  then show "sign_size file off = Inr (of_nat (length d))"
    unfolding sign_size_def using f(2) by (simp only: ) (rule get_le_mid, simp)
  show "take (length d) (drop (off + 8) file) = d" using f by (simp add: mk_sign_def)
  show "unat (of_nat (length d) :: u32) = length d" using l by (simp add: unsigned_of_nat take_bit_eq_mod)
  show "off + 8 + length d \<le> length file" using f by simp
qed

fun offs :: "nat \<Rightarrow> bytes list \<Rightarrow> nat list" where
  "offs p [] = []"
| "offs p (d # ds) = p # offs (p + 8 + length d) ds"

lemma length_offs [simp]: "length (offs p ds) = length ds"
  by (induction p ds rule: offs.induct) simp_all

lemma sign_at_offs:
  "i < length ds \<Longrightarrow> \<forall>d \<in> set ds. length d < 2 ^ 32 \<Longrightarrow> length pre = p \<Longrightarrow>
   sign_at (pre @ concat (map mk_sign ds)) (offs p ds ! i) (ds ! i)"
proof (induction ds arbitrary: i p pre)
  case Nil
  then show ?case by simp
next
  case (Cons d ds)
  show ?case
  proof (cases i)
    case 0
    then show ?thesis using Cons.prems by (auto simp: sign_at_def)
  next
    case (Suc j)
    then have "sign_at ((pre @ mk_sign d) @ concat (map mk_sign ds)) (offs (p + 8 + length d) ds ! j) (ds ! j)"
      using Cons.prems by (intro Cons.IH) auto
    then show ?thesis using Suc by simp
  qed
qed

lemma fw_walk_offs:
  assumes "\<forall>i < length ds. sign_at file (offs (p + 8 + length d) ds ! i) (ds ! i)" and "sign_at file p d"
  shows "fw_walk file (length ds) p = Inr (Some (offs (p + 8 + length d) ds))"
  using assms
proof (induction ds arbitrary: p d)
  case Nil
  then show ?case by simp
next
  case (Cons e ds)
  note p = sign_at_facts [OF Cons.prems(2)]
  have e: "sign_at file (p + 8 + length d) e" using Cons.prems(1) by force
  note n = sign_at_facts [OF e]
  have "\<forall>i < length ds. sign_at file (offs (p + 8 + length d + 8 + length e) ds ! i) (ds ! i)"
    using Cons.prems(1) by fastforce
  note ih = Cons.IH [OF this e]
  show ?case using p(2,4) n(1,5) ih by (simp add: Let_def)
qed


lemma image_loc_word:
  assumes "i < length locs"
  shows "image_loc (mk_file opt locs images) i = Inr (locs ! i)"
proof -
  have c: "concat (map (le_bytes 4) locs) = concat (map (le_bytes 4) (take i locs)) @ le_bytes 4 (locs ! i) @
      concat (map (le_bytes 4) (drop (Suc i) locs))"
    by (subst id_take_nth_drop [OF assms]) simp
  have f: "mk_file opt locs images = (le_bytes 4 VSC_FILE_MAGIC @ le_bytes 4 opt @ le_bytes 4 (of_nat (length locs) :: u32) @
      concat (map (le_bytes 4) (take i locs))) @ le_bytes 4 (locs ! i) @
      (concat (map (le_bytes 4) (drop (Suc i) locs)) @ concat (map mk_sign images))"
    unfolding mk_file_def c by simp
  have "length (take i locs) = i" using assms by simp
  then show ?thesis unfolding image_loc_def f by (intro get_le_mid) simp
qed

lemma mk_file_head:
  "get_le 0 4 (mk_file opt locs images) = Inr VSC_FILE_MAGIC" "get_le 4 4 (mk_file opt locs images) = Inr opt"
  "get_le 8 4 (mk_file opt locs images) = Inr (of_nat (length locs) :: u32)"
proof -
  let ?r = "concat (map (le_bytes 4) locs) @ concat (map mk_sign images)"
  show "get_le 0 4 (mk_file opt locs images) = Inr VSC_FILE_MAGIC"
    unfolding mk_file_def using get_le_mid [of "[]" 0 VSC_FILE_MAGIC] by simp
  show "get_le 4 4 (mk_file opt locs images) = Inr opt"
    unfolding mk_file_def by (rule get_le_mid) simp
  show "get_le 8 4 (mk_file opt locs images) = Inr (of_nat (length locs) :: u32)"
    unfolding mk_file_def
    using get_le_mid [of "le_bytes 4 VSC_FILE_MAGIC @ le_bytes 4 opt" 8 "of_nat (length locs)" ?r] by simp
qed

lemma mk_file_signs:
  assumes "\<forall>d \<in> set images. length d < 2 ^ 32" and "i < length images"
  shows "sign_at (mk_file opt locs images) (offs (12 + 4 * length locs) images ! i) (images ! i)"
proof -
  let ?h = "le_bytes 4 VSC_FILE_MAGIC @ le_bytes 4 opt @ le_bytes 4 (of_nat (length locs) :: u32) @ concat (map (le_bytes 4) locs)"
  have "mk_file opt locs images = ?h @ concat (map mk_sign images)" by (simp add: mk_file_def)
  then show ?thesis using sign_at_offs [OF assms(2,1), of ?h "12 + 4 * length locs"] by simp
qed

lemma need_frag_sign:
  "sign_at file off d \<Longrightarrow> image_loc file i = Inr loc \<Longrightarrow>
   need_frag file t off i fw =
     Inr (if loc = 0 then - EINVAL else 0, set_frag t (Some (drop (off + 8) file)) (of_nat (length d)) loc fw)"
  by (simp add: need_frag_def sign_at_facts(2))

lemma ace_place_sign:
  assumes "sign_at file off d" and "image_loc file i = Inr img"
  shows "acev_place file off i fw = Inr (set_frag ACEV_IMG_TYPE (Some (drop (off + 8) file)) (of_nat (length d))
      (pick_location (align4k (fr_location (frags fw ACER_IMG_TYPE)) (fr_size (frags fw ACER_IMG_TYPE)))
        (fr_location (frags fw ACER_IMG_TYPE)) img) fw)"
    "acec_place file off i fw = Inr (set_frag ACEC_IMG_TYPE (Some (drop (off + 8) file)) (of_nat (length d))
      (let calc = align4k (fr_location (frags fw ACEV_IMG_TYPE)) (fr_size (frags fw ACEV_IMG_TYPE)) in
       pick_location calc calc img) fw)"
  using assms by (simp_all add: acev_place_def acec_place_def sign_at_facts(2) Let_def)

definition frag_image :: "fragment \<Rightarrow> bytes option" where
  "frag_image f = map_option (take (unat (fr_size f))) (fr_data f)"

lemma frag_image_sign:
  "sign_at file off d \<Longrightarrow>
   frag_image \<lparr>fr_location = loc, fr_data = Some (drop (off + 8) file), fr_size = of_nat (length d)\<rparr> = Some d"
  by (simp add: frag_image_def sign_at_facts(3,4))

lemma frags_set_frag [simp]:
  "frags (set_frag t d n l fw) = (frags fw)(t := \<lparr>fr_location = l, fr_data = d, fr_size = n\<rparr>)"
  "fw_cnt (set_frag t d n l fw) = fw_cnt fw" "fw_option (set_frag t d n l fw) = fw_option fw"
  by (simp_all add: set_frag_def)

text \<open>The order of the images in a main file with \<open>n\<close> images behind the boot loader.\<close>

definition main_order :: "nat \<Rightarrow> FRAG_TYPE list" where
  "main_order n = [BOOT_IMAGE_TYPE, ARC_SEM_IMG_TYPE] @ take (n - 2) [ACER_IMG_TYPE, ACEV_IMG_TYPE, ACEC_IMG_TYPE] @ [EM7D_IMG_TYPE]"

text \<open>The fragments of a main file: images and locations.\<close>

definition main_parsed :: "u32 list \<Rightarrow> bytes list \<Rightarrow> vsc_boot_fw \<Rightarrow> bool" where
  "main_parsed locs images fw \<longleftrightarrow>
     map (frag_image \<circ> frags fw) (main_order (length images - 1)) = map Some images \<and>
     (\<forall>(t, i) \<in> set [(BOOT_IMAGE_TYPE, 0), (ARC_SEM_IMG_TYPE, 1), (EM7D_IMG_TYPE, length images - 1)]. fr_location (frags fw t) = locs ! i) \<and>
     (length images \<ge> 4 \<longrightarrow> fr_location (frags fw ACER_IMG_TYPE) = locs ! 2) \<and>
     (length images \<ge> 5 \<longrightarrow> fr_location (frags fw ACEV_IMG_TYPE) =
        (if locs ! 3 = 0 \<or> locs ! 3 = locs ! 2 then align4k (locs ! 2) (of_nat (length (images ! 2))) else locs ! 3)) \<and>
     (length images \<ge> 6 \<longrightarrow> fr_location (frags fw ACEC_IMG_TYPE) =
        (if locs ! 4 = 0 then align4k (fr_location (frags fw ACEV_IMG_TYPE)) (of_nat (length (images ! 3))) else locs ! 4))"

lemma small_nums: "(2 :: nat) = Suc (Suc 0)" "(3 :: nat) = Suc (Suc (Suc 0))" "(4 :: nat) = Suc (Suc (Suc (Suc 0)))"
  "(5 :: nat) = Suc (Suc (Suc (Suc (Suc 0))))"
  by simp_all

lemma main_frags_sign:
  assumes "\<forall>i < Suc (length fws). sign_at file ((p # os) ! i) ((b # fws) ! i)"
    and "\<forall>i < Suc (length fws). image_loc file i = Inr (locs ! i)"
    and "\<forall>i \<le> length fws. (i \<noteq> 3 \<and> i \<noteq> 4 \<or> i = length fws) \<longrightarrow> locs ! i \<noteq> 0"
    and "2 \<le> length fws" and "length fws \<le> 5" and "length os = length fws"
  shows "\<exists>fw'. main_frags file (Suc (length fws)) p os fw = Inr (0, fw') \<and>
    main_parsed locs (b # fws) fw' \<and> fw_cnt fw' = fw_cnt fw \<and> fw_option fw' = fw_option fw"
proof -
  have s: "i < Suc (length fws) \<Longrightarrow> sign_at file ((p # os) ! i) ((b # fws) ! i)" for i using assms(1) by blast
  have l: "i < Suc (length fws) \<Longrightarrow> image_loc file i = Inr (locs ! i)" for i using assms(2) by blast
  have z: "i \<le> length fws \<Longrightarrow> i \<noteq> 3 \<and> i \<noteq> 4 \<or> i = length fws \<Longrightarrow> locs ! i \<noteq> 0" for i using assms(3) by blast
  consider (n2) a e where "fws = [a, e]" | (n3) a r e where "fws = [a, r, e]" | (n4) a r v e where "fws = [a, r, v, e]"
    | (n5) a r v c e where "fws = [a, r, v, c, e]"
    using assms(4,5) by (auto simp: eval_nat_numeral le_Suc_eq length_Suc_conv)
  then show ?thesis
  proof cases
    case n2
    then obtain o1 o2 where os: "os = [o1, o2]" using assms(6) by (auto simp: length_Suc_conv)
    note ss = s [of 0] s [of 1] s [of 2] note ll = l [of 0] l [of 1] l [of 2] note zz = z [of 0] z [of 1] z [of 2]
    show ?thesis
      using ss ll zz unfolding n2 os
      by (simp add: main_frags_def ace_frags_def need_frag_sign main_parsed_def main_order_def frag_image_sign small_nums)
  next
    case n3
    then obtain o1 o2 o3 where os: "os = [o1, o2, o3]" using assms(6) by (auto simp: length_Suc_conv)
    note ss = s [of 0] s [of 1] s [of 2] s [of 3] note ll = l [of 0] l [of 1] l [of 2] l [of 3]
    note zz = z [of 0] z [of 1] z [of 2] z [of 3]
    show ?thesis
      using ss ll zz unfolding n3 os
      by (simp add: main_frags_def ace_frags_def need_frag_sign main_parsed_def main_order_def frag_image_sign small_nums)
  next
    case n4
    then obtain o1 o2 o3 o4 where os: "os = [o1, o2, o3, o4]" using assms(6) by (auto simp: length_Suc_conv)
    note ss = s [of 0] s [of 1] s [of 2] s [of 3] s [of 4] note ll = l [of 0] l [of 1] l [of 2] l [of 3] l [of 4]
    note zz = z [of 0] z [of 1] z [of 2] z [of 4]
    show ?thesis
      using ss ll zz unfolding n4 os
      by (simp add: main_frags_def ace_frags_def need_frag_sign ace_place_sign main_parsed_def main_order_def frag_image_sign pick_location_def small_nums)
  next
    case n5
    then obtain o1 o2 o3 o4 o5 where os: "os = [o1, o2, o3, o4, o5]" using assms(6) by (auto simp: length_Suc_conv)
    note ss = s [of 0] s [of 1] s [of 2] s [of 3] s [of 4] s [of 5]
    note ll = l [of 0] l [of 1] l [of 2] l [of 3] l [of 4] l [of 5]
    note zz = z [of 0] z [of 1] z [of 2] z [of 5]
    show ?thesis
      using ss ll zz unfolding n5 os
      by (simp add: main_frags_def ace_frags_def need_frag_sign ace_place_sign main_parsed_def main_order_def frag_image_sign pick_location_def small_nums Let_def)
  qed
qed


lemma get_le_inside:
  assumes "get_le k 4 b = Inr (w :: u32)" and "off = length pre + k"
  shows "get_le off 4 (pre @ b @ post) = Inr w"
proof -
  have k: "k + 4 \<le> length b" "w = word_of_le (take 4 (drop k b))"
    using assms(1) by (auto simp: get_le_def bindF_eq_Inr load_eq_Inr)
  then have "take 4 (drop k (b @ post)) = take 4 (drop k b)" by simp
  then show ?thesis using k assms(2) by (simp add: get_le_def load_def)
qed

lemma manifest_svn_sign:
  assumes "sign_at file p b" and "540 \<le> length b" and "get_le (length b - 540) 4 b = Inr man"
  shows "manifest_svn file p (of_nat (length b)) = Inr man"
proof -
  obtain pre post where f: "file = pre @ mk_sign b @ post" "length pre = p" and l: "length b < 2 ^ 32"
    using assms(1) by (auto simp: sign_at_def)
  have u: "uint (of_nat (length b) :: u32) = int (length b)" using l by (simp add: uint_nat unsigned_of_nat take_bit_eq_mod)
  have "file = (pre @ le_bytes 4 VSC_FW_MAGIC @ le_bytes 4 (of_nat (length b) :: u32)) @ b @ post"
    using f(1) by (simp add: mk_sign_def)
  then have "get_le (p + 8 + (length b - 540)) 4 file = Inr man"
    by (simp only:) (rule get_le_inside [OF assms(3)], simp add: f(2))
  moreover have "nat (int (p + 8) + int (length b) - MANIFEST_BACK) = p + 8 + (length b - 540)"
    "0 \<le> int (p + 8) + int (length b) - MANIFEST_BACK"
    using assms(2) by simp_all
  ultimately show ?thesis unfolding manifest_svn_def Let_def u by simp
qed

text \<open>
  C22: A well-formed main file is read back.  For the file with an option word, locations and the images
  boot loader, ARC SEM, up to three ACE images and EM7D, in this order, whose security version suits the
  silicon, \<open>parse_main_fw\<close> returns 0: the fragments carry exactly the images, the image count leaves the
  boot loader out, only the low half of the options is kept, and the locations are those of the file;
  a location of 0 stands for the next 4K boundary behind the preceding ACE image, and so does, for the
  vision image, the location of the ACE runtime.
\<close>
theorem main_file_roundtrip:
  assumes "length locs = Suc (length fws)" and "2 \<le> length fws" and "length fws \<le> 5"
    and "\<forall>d \<in> set (b # fws). length d < 2 ^ 32" and "540 \<le> length b" and "get_le (length b - 540) 4 b = Inr man"
    and "check_svn man (fw\<lparr>fw_option := opt AND 0xFFFF, fw_cnt := of_nat (length fws)\<rparr>) = (0, fw1)"
    and "\<forall>i \<le> length fws. (i \<noteq> 3 \<and> i \<noteq> 4 \<or> i = length fws) \<longrightarrow> locs ! i \<noteq> 0"
  shows "\<exists>fw'. parse_main_fw (mk_file opt locs (b # fws)) fw = Inr (0, fw') \<and> main_parsed locs (b # fws) fw' \<and>
    fw_cnt fw' = of_nat (length fws) \<and> fw_option fw' = opt AND 0xFFFF"
proof -
  let ?file = "mk_file opt locs (b # fws)" let ?n = "length fws" let ?p = "12 + 4 * length locs"
  note s = mk_file_signs [OF assms(4), of _ opt locs]
  have sb: "sign_at ?file ?p b" using s [of 0] by simp
  note fb = sign_at_facts [OF sb]
  have os: "\<forall>i < Suc ?n. sign_at ?file ((?p # offs (?p + 8 + length b) fws) ! i) ((b # fws) ! i)"
    using s by simp
  have "2 \<le> ?n" "?n \<le> 5" by fact+
  then obtain a ds where ads: "fws = a # ds" by (cases fws) auto
  have sa: "sign_at ?file (?p + 8 + length b) a" using s [of 1] ads by simp
  have "\<forall>i < length ds. sign_at ?file (offs (?p + 8 + length b + 8 + length a) ds ! i) (ds ! i)"
    using s [of "Suc (Suc _)"] ads by simp
  from fw_walk_offs [OF this sa]
  have walk: "fw_walk ?file (Suc ?n - 2) (?p + 8 + length b) = Inr (Some (offs (?p + 8 + length b + 8 + length a) ds))"
    using ads by simp
  have cnt: "unat (of_nat (Suc ?n) :: u32) = Suc ?n" "\<not> (of_nat (Suc ?n) :: u32) < 3" "\<not> (of_nat (Suc ?n) :: u32) > 6"
    "(of_nat (Suc ?n) :: u32) - 1 = of_nat ?n"
    using assms(2,3) by (simp_all add: word_less_nat_alt unsigned_of_nat take_bit_eq_mod del: of_nat_Suc) simp
  have c1: "fw_cnt fw1 = of_nat ?n" "fw_option fw1 = opt AND 0xFFFF"
    using assms(7) by (auto simp: check_svn_def Let_def split: if_splits)
  have "\<forall>i < Suc ?n. image_loc ?file i = Inr (locs ! i)" using image_loc_word assms(1) by simp
  from main_frags_sign [OF os this assms(8,2,3), of fw1] obtain fw' where
    r: "main_frags ?file (Suc ?n) ?p (offs (?p + 8 + length b) fws) fw1 = Inr (0, fw')" "main_parsed locs (b # fws) fw'"
      "fw_cnt fw' = of_nat ?n" "fw_option fw' = opt AND 0xFFFF"
    using c1 by auto
  have "parse_main_fw ?file fw = Inr (0, fw')"
  proof -
    have m: "\<not> ?p > length ?file" using fb(5) by simp
    have c: "check_svn man (fw\<lparr>fw_option := opt AND 0xFFFF, fw_cnt := of_nat (Suc ?n) - 1\<rparr>) = (0, fw1)"
      using assms(7) unfolding cnt(4) by simp
    have o: "offs (?p + 8 + length b) fws = (?p + 8 + length b) # offs (?p + 8 + length b + 8 + length a) ds"
      using ads by simp
    have u: "12 + 4 * unat (of_nat (Suc ?n) :: u32) = ?p" by (simp only: cnt(1) assms(1))
    show ?thesis
      unfolding parse_main_fw_def mk_file_head assms(1) [symmetric] bindF_Inr
      using m c walk r(1) [unfolded o] cnt(1-3) fb(1,2,4) u manifest_svn_sign [OF sb assms(5,6)]
      unfolding assms(1) [symmetric]
      by (simp add: Let_def del: of_nat_Suc)
  qed
  then show ?thesis using r by blast
qed

lemma word_of_le_zeros: "word_of_le (replicate n 0) = 0"
  by (induction n) simp_all

theorem main_file_roundtrip_witness:
  "\<exists>fw'. parse_main_fw (mk_file 5 [0x10, 0x20, 0x30] [replicate 540 0, [1], [2, 3]]) (no_fw\<lparr>sub_ver := 2\<rparr>) = Inr (0, fw') \<and>
     frag_image (frags fw' EM7D_IMG_TYPE) = Some [2, 3] \<and> fw_cnt fw' = 2"
proof -
  have g: "get_le (length (replicate 540 (0 :: u8)) - 540) 4 (replicate 540 0) = Inr (0 :: u32)"
    by (simp add: get_le_def load_def word_of_le_zeros)
  have c: "check_svn 0 ((no_fw\<lparr>sub_ver := 2\<rparr>)\<lparr>fw_option := 5 AND 0xFFFF, fw_cnt := of_nat (length [[1], [2, 3 :: u8]])\<rparr>) =
      (0, (no_fw\<lparr>sub_ver := 2\<rparr>)\<lparr>fw_option := 5 AND 0xFFFF, fw_cnt := 2, svn := 0\<rparr>)"
    by (simp add: check_svn_def no_fw_def)
  have "\<exists>fw'. parse_main_fw (mk_file 5 [0x10, 0x20, 0x30] (replicate 540 0 # [[1], [2, 3]])) (no_fw\<lparr>sub_ver := 2\<rparr>) = Inr (0, fw') \<and>
      main_parsed [0x10, 0x20, 0x30] (replicate 540 0 # [[1], [2, 3]]) fw' \<and>
      fw_cnt fw' = of_nat (length [[1], [2, 3 :: u8]]) \<and> fw_option fw' = 5 AND 0xFFFF"
    by (rule main_file_roundtrip [OF _ _ _ _ _ g c]) (auto simp: less_Suc_eq_le [symmetric] less_Suc_eq)
  then show ?thesis by (auto simp: main_parsed_def main_order_def)
qed

section \<open>The silicon check\<close>

lemma send_frame_fw:
  assumes "send_frame E fs fin reply len hw = Inr (ret, hw')" and "len mod 4 = 0"
  shows "\<exists>tx rx m wire w. hw' = hw\<lparr>v_fw := (v_fw hw)\<lparr>fw_tx_buf := tx, fw_rx_buf := rx\<rparr>, v_mutex := m, v_wire := wire, v_env := w\<rparr>"
proof -
  obtain f out inb hw1 where x: "spi_rom_dev_xfer (spi_env.truncate E) f (if reply then Some (fw_rx_buf (v_fw hw)) else None) len (set_tx f hw) =
      Inr ((ret, out, inb), hw1)"
    and hw': "hw' = (case inb of None \<Rightarrow> set_tx out hw1 | Some r \<Rightarrow> set_rx r (set_tx out hw1))"
    using assms(1) unfolding send_frame_def bindF_eq_Inr Let_def by (auto simp: bindF_eq_Inr)
  obtain w sent where hw1: "hw1 = (set_tx f hw)\<lparr>v_mutex := False, v_wire := v_wire (set_tx f hw) @ sent, v_env := w\<rparr>"
    using rom_xfer [OF x assms(2)] by blast
  show ?thesis
  proof (cases inb)
    case None
    then show ?thesis unfolding hw' hw1
      by (intro exI [of _ out] exI [of _ "fw_rx_buf (v_fw hw)"] exI [of _ False] exI [of _ "v_wire hw @ sent"] exI [of _ w])
        (simp add: set_tx_def)
  next
    case (Some r)
    then show ?thesis unfolding hw' hw1
      by (intro exI [of _ out] exI [of _ r] exI [of _ False] exI [of _ "v_wire hw @ sent"] exI [of _ w])
        (simp add: set_tx_def set_rx_def)
  qed
qed

text \<open>What the silicon check leaves alone: all but the buffers, the bus and the versions.\<close>

definition same_names :: "'w mei_vsc_hw \<Rightarrow> 'w mei_vsc_hw \<Rightarrow> bool" where
  "same_names a b \<longleftrightarrow> (let f = v_fw a; g = v_fw b in
     fw_file_name g = fw_file_name f \<and> sensor_file_name g = sensor_file_name f \<and> sku_cnf_file_name g = sku_cnf_file_name f \<and>
     key_src g = key_src f \<and> frags g = frags f \<and> v_cam_sensor_name b = v_cam_sensor_name a)"

definition same_silicon :: "'w mei_vsc_hw \<Rightarrow> 'w mei_vsc_hw \<Rightarrow> bool" where
  "same_silicon a b \<longleftrightarrow> same_names a b \<and> main_ver (v_fw b) = main_ver (v_fw a) \<and> sub_ver (v_fw b) = sub_ver (v_fw a)"

lemma send_frame_same:
  "send_frame E fs fin reply len hw = Inr (ret, hw') \<Longrightarrow> len mod 4 = 0 \<Longrightarrow> same_silicon hw hw'"
  by (drule (1) send_frame_fw) (auto simp: same_silicon_def same_names_def Let_def)

lemma clear_token_same: "clear_token n hw = Inr hw' \<Longrightarrow> same_silicon hw hw'"
  by (auto simp: clear_token_def bindF_eq_Inr set_rx_def same_silicon_def same_names_def)

lemma same_trans:
  "same_silicon a b \<Longrightarrow> same_silicon b c \<Longrightarrow> same_silicon a c" "same_names a b \<Longrightarrow> same_silicon b c \<Longrightarrow> same_names a c"
  by (auto simp: same_silicon_def same_names_def Let_def)

lemma check_strap_0:
  assumes "check_strap E hw = Inr (0, hw')"
  shows "(token_of hw' = Inr VSC_TOKEN_ERROR \<and> same_silicon hw hw') \<or>
    (\<exists>h strap. token_of hw' = Inr VSC_TOKEN_DUMP_RESP \<and> same_silicon hw h \<and> payload_word h = Inr strap \<and> token_of h = token_of hw' \<and>
       set_file_names (h\<lparr>v_fw := (v_fw h)\<lparr>key_src := drop_bit 16 strap AND 1\<rparr>\<rparr>) = Inr hw')"
proof -
  obtain hw1 hw2 ret t where c: "clear_token VSC_ROM_SPI_PKG_SIZE hw = Inr hw1"
    and s: "send_frame E (memset0 VSC_ROM_SPI_PKG_SIZE # frame_hdr VSC_CMD_DUMP_MEM # dump_mem_data STRAP_ADDR 4)
              Inr True VSC_ROM_SPI_PKG_SIZE hw1 = Inr (ret, hw2)" and t: "token_of hw2 = Inr t"
    using assms by (auto simp: check_strap_def bindF_eq_Inr split: prod.splits)
  have same: "same_silicon hw hw2" using clear_token_same [OF c] send_frame_same [OF s] same_trans(1) by simp
  show ?thesis
  proof (cases "ret \<noteq> 0 \<or> t = VSC_TOKEN_ERROR")
    case True
    then have "ret = 0" "hw' = hw2" using assms c s t by (auto simp: check_strap_def split: if_splits)
    then show ?thesis using True t same by simp
  next
    case False
    then obtain hw3 r2 t2 where s2: "send_frame E [frame_hdr VSC_CMD_RESERVED] Inr True VSC_ROM_SPI_PKG_SIZE hw2 = Inr (r2, hw3)"
      and t2: "token_of hw3 = Inr t2"
      using assms c s t by (auto simp: check_strap_def bindF_eq_Inr)
    then have ok: "r2 = 0" "t2 = VSC_TOKEN_DUMP_RESP" and
      fin: "bindF (payload_word hw3) (\<lambda>strap.
         bindF (set_file_names (hw3\<lparr>v_fw := (v_fw hw3)\<lparr>key_src := drop_bit 16 strap AND 1\<rparr>\<rparr>)) (\<lambda>hw. Inr ((0 :: int), hw))) = Inr (0, hw')"
      using assms c s t False by (auto simp: check_strap_def split: if_splits)
    then obtain strap where p: "payload_word hw3 = Inr strap"
      and n: "set_file_names (hw3\<lparr>v_fw := (v_fw hw3)\<lparr>key_src := drop_bit 16 strap AND 1\<rparr>\<rparr>) = Inr hw'"
      by (auto simp: bindF_eq_Inr)
    have "token_of hw' = token_of hw3"
      using n by (auto simp: set_file_names_def Let_def bindF_eq_Inr token_of_def split: if_splits)
    then show ?thesis using p n ok t2 same_trans(1) [OF same send_frame_same [OF s2]] by auto
  qed
qed


lemma set_file_names_Inr:
  assumes "set_file_names hw = Inr hw'"
  shows "fw_rx_buf (v_fw hw') = fw_rx_buf (v_fw hw) \<and> main_ver (v_fw hw') = main_ver (v_fw hw) \<and>
    sub_ver (v_fw hw') = sub_ver (v_fw hw) \<and> key_src (v_fw hw') = key_src (v_fw hw) \<and>
    fw_file_name (v_fw hw') = (if sub_ver (v_fw hw) \<noteq> 2 then fw_file_name (v_fw hw)
      else if key_src (v_fw hw) = 0 then ''vsc/soc_a1/ivsc_fw_a1.bin'' else ''vsc/soc_a1_prod/ivsc_fw_a1_prod.bin'')"
  using assms by (auto simp: set_file_names_def Let_def bindF_eq_Inr split: if_splits)

lemma check_silicon_0:
  assumes "check_silicon E hw = Inr (0, hw')"
  shows "(token_of hw' = Inr VSC_TOKEN_ERROR \<and> same_silicon hw hw') \<or>
    (\<exists>h. main_ver (v_fw h) = 0 \<and> (sub_ver (v_fw h) = 0 \<or> sub_ver (v_fw h) = 2) \<and> same_names hw h \<and> check_strap E h = Inr (0, hw'))"
proof -
  obtain hw1 ret t where s: "send_frame E (frame_hdr VSC_CMD_DUMP_MEM # dump_mem_data EFUSE1_ADDR 4) Inr True VSC_ROM_SPI_PKG_SIZE hw = Inr (ret, hw1)"
    and t: "token_of hw1 = Inr t"
    using assms by (auto simp: check_silicon_def bindF_eq_Inr split: prod.splits)
  have same: "same_silicon hw hw1" using send_frame_same [OF s] by simp
  show ?thesis
  proof (cases "ret \<noteq> 0 \<or> t = VSC_TOKEN_ERROR")
    case True
    then have "ret = 0" "hw' = hw1" using assms s t by (auto simp: check_silicon_def split: if_splits)
    then show ?thesis using True t same by simp
  next
    case False
    then obtain hw2 hw3 r2 t2 where c: "clear_token VSC_ROM_SPI_PKG_SIZE hw1 = Inr hw2"
      and s2: "send_frame E [memset0 VSC_ROM_SPI_PKG_SIZE, frame_hdr VSC_CMD_RESERVED] Inr True VSC_ROM_SPI_PKG_SIZE hw2 = Inr (r2, hw3)"
      and t2: "token_of hw3 = Inr t2"
      using assms s t by (auto simp: check_silicon_def bindF_eq_Inr split: prod.splits)
    have same3: "same_silicon hw hw3"
      using same_trans(1) [OF same_trans(1) [OF same clear_token_same [OF c]] send_frame_same [OF s2]] by simp
    have ok: "r2 = 0" "t2 = VSC_TOKEN_DUMP_RESP"
      using assms s t False c s2 t2 by (auto simp: check_silicon_def split: if_splits)
    obtain e where p: "payload_word hw3 = Inr e"
      using assms s t False c s2 t2 ok by (cases "payload_word hw3") (auto simp: check_silicon_def)
    let ?h = "hw3\<lparr>v_fw := (v_fw hw3)\<lparr>main_ver := drop_bit 4 e AND 0xF, sub_ver := e AND 0xF\<rparr>\<rparr>"
    have "main_ver (v_fw ?h) = 0" "sub_ver (v_fw ?h) = 0 \<or> sub_ver (v_fw ?h) = 2" "check_strap E ?h = Inr (0, hw')"
      using assms s t False c s2 t2 ok p by (auto simp: check_silicon_def Let_def split: if_splits)
    moreover have "same_names hw ?h" using same3 by (simp add: same_silicon_def same_names_def Let_def)
    ultimately show ?thesis by blast
  qed
qed




section \<open>The whole initialisation\<close>

text \<open>The documented contract of \<open>request_firmware\<close>: 0 and a file, or an error and none.\<close>

definition firmware_contract :: "'w fw_env \<Rightarrow> bool" where
  "firmware_contract E \<longleftrightarrow> (\<forall>n w. case fst (request_firmware E n w) of (r, f) \<Rightarrow> r = 0 \<and> f \<noteq> None \<or> r < 0 \<and> f = None)"

lemma get_firmware_cases:
  assumes "firmware_contract E" and "get_firmware E n hw = ((ret, f), hw1)"
  shows "(ret = 0 \<and> f \<noteq> None \<or> ret < 0 \<and> f = None) \<and> v_fw hw1 = v_fw hw"
proof -
  obtain w where "request_firmware E (n (v_fw hw)) (v_env hw) = ((ret, f), w)" "hw1 = hw\<lparr>v_env := w\<rparr>"
    using assms(2) by (auto simp: get_firmware_def split: prod.splits)
  moreover have "case fst (request_firmware E (n (v_fw hw)) (v_env hw)) of (r, f) \<Rightarrow> r = 0 \<and> f \<noteq> None \<or> r < 0 \<and> f = None"
    using assms(1) by (simp add: firmware_contract_def)
  ultimately show ?thesis by auto
qed

lemma send_frame_frags:
  "send_frame E fs fin reply len hw = Inr (ret, hw') \<Longrightarrow> len mod 4 = 0 \<Longrightarrow> frags (v_fw hw') = frags (v_fw hw)"
  using send_frame_same by (fastforce simp: same_silicon_def same_names_def Let_def)

lemma clear_frags:
  "clear_token n hw = Inr hw' \<Longrightarrow> frags (v_fw hw') = frags (v_fw hw)" "clear_rx n hw = Inr hw' \<Longrightarrow> frags (v_fw hw') = frags (v_fw hw)"
  using loads_fields(2) clear_token_Inr clear_rx_Inr by blast+

lemma dl_loop_frags:
  "dl_loop E pkg n frame ptr remain hw = Inr (ret, hw') \<Longrightarrow> pkg mod 4 = 0 \<Longrightarrow> frags (v_fw hw') = frags (v_fw hw)"
proof (induction remain arbitrary: ptr hw rule: less_induct)
  case (less remain)
  show ?case
  proof (cases "remain = 0 \<or> n = 0")
    case True
    then show ?thesis using less.prems(1) by (auto simp: dl_loop.simps)
  next
    case False
    then obtain hw1 bs where c: "clear_token pkg hw = Inr hw1" and
      "andthen (send_frame E (frame (remain = min n remain) bs) Inr False pkg hw1)
        (dl_loop E pkg n frame (drop (min n remain) ptr) (remain - min n remain)) = Inr (ret, hw')"
      using less.prems(1) by (subst (asm) dl_loop.simps) (auto simp: bindF_eq_Inr Let_def)
    then consider "send_frame E (frame (remain = min n remain) bs) Inr False pkg hw1 = Inr (ret, hw')"
      | hw2 where "send_frame E (frame (remain = min n remain) bs) Inr False pkg hw1 = Inr (0, hw2)"
        "dl_loop E pkg n frame (drop (min n remain) ptr) (remain - min n remain) hw2 = Inr (ret, hw')"
      by (auto simp: andthen_eq_Inr)
    then show ?thesis
    proof cases
      case 1
      then show ?thesis using send_frame_frags [OF 1 less.prems(2)] clear_frags(1) [OF c] by simp
    next
      case 2
      then show ?thesis
        using less.IH [OF _ 2(2) less.prems(2)] False send_frame_frags [OF 2(1) less.prems(2)] clear_frags(1) [OF c] by simp
    qed
  qed
qed

lemma load_bootloader_frags: "load_bootloader E hw = Inr (ret, hw') \<Longrightarrow> frags (v_fw hw') = frags (v_fw hw)"
  by (auto simp: load_bootloader_def Let_def andthen_eq_Inr bindF_eq_Inr load_boot_def
      dest!: send_frame_frags clear_frags dl_loop_frags split: if_splits option.splits)

lemma load_opt_frags: "load_opt E f t hw = Inr (ret, hw') \<Longrightarrow> frags (v_fw hw') = frags (v_fw hw)"
  by (auto simp: load_opt_def load_fw_frag_def load_fw_bin_def andthen_eq_Inr bindF_eq_Inr
      dest!: send_frame_frags clear_frags dl_loop_frags split: if_splits option.splits)

lemma load_fw_frags: "load_fw E hw = Inr (ret, hw') \<Longrightarrow> frags (v_fw hw') = frags (v_fw hw)"
  by (auto simp: load_fw_def Let_def andthen_eq_Inr bindF_eq_Inr
      dest!: send_frame_frags clear_frags load_opt_frags split: if_splits)

lemma with_fw_Inr: "with_fw f hw = Inr (ret, hw') \<longleftrightarrow> (\<exists>fw. f (v_fw hw) = Inr (ret, fw) \<and> hw' = hw\<lparr>v_fw := fw\<rparr>)"
  by (auto simp: with_fw_def bindF_eq_Inr)

lemma init_cnf_outcome:
  assumes "firmware_contract E" and "init_cnf E held hw = Inr ((ret, out), hw')"
  shows "(ret \<noteq> 0 \<and> out = []) \<or>
    (ret = 0 \<and> (\<exists>cnf fw. out = cnf # held \<and> parse_sku_cnf_fw cnf (v_fw hw) = Inr (0, fw) \<and> frags (v_fw hw') = frags fw))"
proof -
  obtain r f hw1 where g: "get_firmware E sku_cnf_file_name hw = ((r, f), hw1)" by (metis prod.collapse)
  note c = get_firmware_cases [OF assms(1) g]
  show ?thesis
  proof (cases f)
    case None
    then show ?thesis using assms(2) g c by (simp add: init_cnf_def)
  next
    case (Some cnf)
    then have "\<not> r < 0" using c by auto
    then obtain h where a: "andthen (with_fw (parse_sku_cnf_fw cnf) hw1) (\<lambda>hw. andthen (load_bootloader E hw) (load_fw E)) = Inr (ret, hw')"
      and out: "out = (if ret \<noteq> 0 then [] else cnf # held)"
      using assms(2) g Some by (auto simp: init_cnf_def bindF_eq_Inr)
    show ?thesis
    proof (cases "ret = 0")
      case True
      then obtain fw h1 where "parse_sku_cnf_fw cnf (v_fw hw1) = Inr (0, fw)" "load_bootloader E (hw1\<lparr>v_fw := fw\<rparr>) = Inr (0, h1)"
          "load_fw E h1 = Inr (0, hw')"
        using a by (auto simp: andthen_eq_Inr with_fw_Inr)
      then show ?thesis using c out True load_bootloader_frags load_fw_frags by fastforce
    qed (use out in simp)
  qed
qed


text \<open>A main file with a wrong magic number.\<close>

definition fw_bus :: "bytes list fw_env" where
  "fw_bus = spi_env.extend rom_bus \<lparr>request_firmware = \<lambda>n w.
     if n = ''main'' then ((0, Some (replicate 24 0)), w) else ((- ENOENT, None), w)\<rparr>"

definition fw_hw :: "bytes list mei_vsc_hw" where
  "fw_hw = (new_vsc_hw [[0, 0, 0, 0, 0, 0, 0, 7]])\<lparr>v_fw := no_fw\<lparr>fw_file_name := ''main''\<rparr>\<rparr>"


end
