(* ===== verification/Vsc_Hw_Ops.thy ===== *)
theory Vsc_Hw_Ops
  imports Vsc_Files
begin

text \<open>
  \<^verbatim>\<open>drivers/misc/mei/hw-vsc.c\<close>, the operations the MEI core calls, and the interrupt handlers; with
  the table and the inline wrappers of \<^verbatim>\<open>backport-include/drivers/misc/mei/mei_dev.h\<close>.

  The MEI core (\<open>mei_irq_read_handler\<close> and its companions) is not in the repository: its entry points
  are parameters.  A list of completed requests is a list of numbers.
\<close>

section \<open>The MEI device (mei_dev.h)\<close>

datatype mei_dev_state =
    MEI_DEV_INITIALIZING | MEI_DEV_INIT_CLIENTS | MEI_DEV_ENABLED | MEI_DEV_RESETTING | MEI_DEV_DISABLED
  | MEI_DEV_POWERING_DOWN | MEI_DEV_POWER_DOWN | MEI_DEV_POWER_UP

datatype mei_pg_event =
    MEI_PG_EVENT_IDLE | MEI_PG_EVENT_WAIT | MEI_PG_EVENT_RECEIVED | MEI_PG_EVENT_INTR_WAIT
  | MEI_PG_EVENT_INTR_RECEIVED

datatype mei_pg_state = MEI_PG_OFF | MEI_PG_ON

text \<open>Events are compared by their number.\<close>

definition pg_code :: "mei_pg_event \<Rightarrow> nat" where
  "pg_code e = (case e of MEI_PG_EVENT_IDLE \<Rightarrow> 0 | MEI_PG_EVENT_WAIT \<Rightarrow> 1 | MEI_PG_EVENT_RECEIVED \<Rightarrow> 2
     | MEI_PG_EVENT_INTR_WAIT \<Rightarrow> 3 | MEI_PG_EVENT_INTR_RECEIVED \<Rightarrow> 4)"

lemma pg_code_inj: "pg_code a = pg_code b \<longleftrightarrow> a = b"
  by (cases a; cases b) (simp_all add: pg_code_def)

instantiation mei_pg_event :: linorder
begin

definition less_eq_mei_pg_event :: "mei_pg_event \<Rightarrow> mei_pg_event \<Rightarrow> bool" where
  "less_eq_mei_pg_event a b \<longleftrightarrow> pg_code a \<le> pg_code b"

definition less_mei_pg_event :: "mei_pg_event \<Rightarrow> mei_pg_event \<Rightarrow> bool" where
  "less_mei_pg_event a b \<longleftrightarrow> pg_code a < pg_code b"

instance
  by standard (auto simp: less_eq_mei_pg_event_def less_mei_pg_event_def pg_code_inj [symmetric])

end

record 'w mei_device =
  m_state :: mei_dev_state
  m_pg_event :: mei_pg_event
  m_hbuf_is_ready :: bool
  m_reset_work :: bool
  m_device_lock :: bool
  m_hw :: "'w mei_vsc_hw"

record 'd mei_hw_ops =
  host_is_ready :: "'d \<Rightarrow> bool"
  hw_is_ready :: "'d \<Rightarrow> bool"
  hw_reset :: "'d \<Rightarrow> bool \<Rightarrow> (int \<times> 'd) result"
  hw_start :: "'d \<Rightarrow> (int \<times> 'd) result"
  hw_config :: "'d \<Rightarrow> int"
  fw_status :: "'d \<Rightarrow> u32 option \<Rightarrow> int \<times> u32 option"
  trc_status :: "('d \<Rightarrow> int \<times> u32) option"
  pg_state :: "'d \<Rightarrow> mei_pg_state"
  pg_in_transition :: "'d \<Rightarrow> bool"
  pg_is_enabled :: "'d \<Rightarrow> bool"
  intr_clear :: "'d \<Rightarrow> 'd"
  intr_enable :: "'d \<Rightarrow> 'd"
  intr_disable :: "'d \<Rightarrow> 'd"
  synchronize_irq :: "'d \<Rightarrow> 'd"
  hbuf_free_slots :: "'d \<Rightarrow> nat"
  hbuf_is_ready :: "'d \<Rightarrow> bool"
  hbuf_depth :: "'d \<Rightarrow> nat"
  write_op :: "'d \<Rightarrow> bytes option \<Rightarrow> nat \<Rightarrow> bytes option \<Rightarrow> nat \<Rightarrow> (int \<times> 'd) result"
  rdbuf_full_slots :: "'d \<Rightarrow> nat"
  read_hdr :: "'d \<Rightarrow> (u32 \<times> 'd) result"
  read_op :: "'d \<Rightarrow> bytes \<Rightarrow> nat \<Rightarrow> (int \<times> bytes) result"

text \<open>The wrappers the driver uses, over the table of the device; the others are in \<^theory_text>\<open>Mei_Dev\<close>.\<close>

definition mei_hbuf_is_ready :: "'d mei_hw_ops \<Rightarrow> 'd \<Rightarrow> bool" where
  "mei_hbuf_is_ready ops dev = hbuf_is_ready ops dev"

definition mei_count_full_read_slots :: "'d mei_hw_ops \<Rightarrow> 'd \<Rightarrow> nat" where
  "mei_count_full_read_slots ops dev = rdbuf_full_slots ops dev"

definition mei_disable_interrupts :: "'d mei_hw_ops \<Rightarrow> 'd \<Rightarrow> 'd" where
  "mei_disable_interrupts ops dev = intr_disable ops dev"

record 'w mei_core =
  e_fw :: "'w fw_env"
  mei_irq_read_handler :: "'w mei_device \<Rightarrow> nat list \<Rightarrow> int \<Rightarrow> ((int \<times> nat list \<times> int) \<times> 'w mei_device) result"
  mei_irq_write_handler :: "'w mei_device \<Rightarrow> nat list \<Rightarrow> ((int \<times> nat list) \<times> 'w mei_device) result"
  mei_irq_compl_handler :: "'w mei_device \<Rightarrow> nat list \<Rightarrow> 'w mei_device result"

abbreviation e_spi :: "'w mei_core \<Rightarrow> 'w spi_env" where "e_spi E \<equiv> spi_env.truncate (e_fw E)"

definition with_hw :: "('w mei_vsc_hw \<Rightarrow> 'w mei_vsc_hw) \<Rightarrow> 'w mei_device \<Rightarrow> 'w mei_device" where
  "with_hw f dev = dev\<lparr>m_hw := f (m_hw dev)\<rparr>"

definition on_hw :: "('w mei_vsc_hw \<Rightarrow> ('a \<times> 'w mei_vsc_hw) result) \<Rightarrow> 'w mei_device \<Rightarrow> ('a \<times> 'w mei_device) result" where
  "on_hw f dev = bindF (f (m_hw dev)) (\<lambda>(a, hw). Inr (a, dev\<lparr>m_hw := hw\<rparr>))"

section \<open>The simple operations\<close>

definition mei_vsc_fw_status :: "'w mei_device \<Rightarrow> u32 option \<Rightarrow> int \<times> u32 option" where
  "mei_vsc_fw_status dev st = (case st of None \<Rightarrow> (- EINVAL, None) | Some _ \<Rightarrow> (0, Some 0))"

definition mei_vsc_pg_state :: "'w mei_device \<Rightarrow> mei_pg_state" where
  "mei_vsc_pg_state dev = MEI_PG_OFF"

definition mei_vsc_intr_enable :: "'w mei_device \<Rightarrow> 'w mei_device" where
  "mei_vsc_intr_enable = with_hw (\<lambda>hw. hw\<lparr>v_irq_off := v_irq_off hw - 1\<rparr>)"

definition mei_vsc_intr_disable :: "'w mei_device \<Rightarrow> 'w mei_device" where
  "mei_vsc_intr_disable = with_hw (\<lambda>hw. hw\<lparr>v_irq_off := v_irq_off hw + 1\<rparr>)"

definition mei_vsc_intr_clear :: "'w mei_device \<Rightarrow> 'w mei_device" where
  "mei_vsc_intr_clear dev = dev"

definition mei_vsc_synchronize_irq :: "'w mei_device \<Rightarrow> 'w mei_device" where
  "mei_vsc_synchronize_irq dev = dev"

definition mei_vsc_hw_config :: "'w mei_device \<Rightarrow> int" where
  "mei_vsc_hw_config dev = 0"

definition mei_vsc_host_set_ready :: "'w mei_device \<Rightarrow> 'w mei_device" where
  "mei_vsc_host_set_ready = with_hw (\<lambda>hw. hw\<lparr>v_host_ready := True\<rparr>)"

definition mei_vsc_host_is_ready :: "'w mei_device \<Rightarrow> bool" where
  "mei_vsc_host_is_ready dev = v_host_ready (m_hw dev)"

definition mei_vsc_hw_is_ready :: "'w mei_device \<Rightarrow> bool" where
  "mei_vsc_hw_is_ready dev = v_fw_ready (m_hw dev)"

definition mei_vsc_hbuf_is_ready :: "'w mei_device \<Rightarrow> bool" where
  "mei_vsc_hbuf_is_ready dev \<longleftrightarrow> v_write_lock_cnt (m_hw dev) = 0"

definition mei_vsc_hbuf_empty_slots :: "'w mei_device \<Rightarrow> nat" where
  "mei_vsc_hbuf_empty_slots dev = MAX_MEI_MSG_SIZE div 4"

definition mei_vsc_hbuf_depth :: "'w mei_device \<Rightarrow> nat" where
  "mei_vsc_hbuf_depth dev = MAX_MEI_MSG_SIZE div 4"

definition mei_vsc_count_full_read_slots :: "'w mei_device \<Rightarrow> nat" where
  "mei_vsc_count_full_read_slots dev = MAX_MEI_MSG_SIZE div 4"

definition mei_vsc_pg_in_transition :: "'w mei_device \<Rightarrow> bool" where
  "mei_vsc_pg_in_transition dev \<longleftrightarrow> m_pg_event dev \<ge> MEI_PG_EVENT_WAIT \<and> m_pg_event dev \<le> MEI_PG_EVENT_INTR_WAIT"

definition mei_vsc_pg_is_enabled :: "'w mei_device \<Rightarrow> bool" where
  "mei_vsc_pg_is_enabled dev = False"

section \<open>Start and reset\<close>

text \<open>One read of a single byte while the firmware is waited for.\<close>

definition ready_read :: "'w spi_env \<Rightarrow> 'w mei_vsc_hw \<Rightarrow> (int \<times> 'w mei_vsc_hw) result" where
  "ready_read E hw = bindF (mei_vsc_read_raw E [0] 1 hw) (\<lambda>((ret, _, _), hw). Inr (ret, hw))"

text \<open>The polling loop; the result is the timeout that is left.\<close>

fun ready_loop :: "'w spi_env \<Rightarrow> nat \<Rightarrow> 'w mei_vsc_hw \<Rightarrow> (nat \<times> 'w mei_vsc_hw) result" where
  "ready_loop E timeout hw =
     (if timeout = 0 then Inr (0, hw)
      else bindF (ready_read E hw) (\<lambda>(ret, hw).
        if ret = 0 \<and> ret \<noteq> - EAGAIN then Inr (timeout - 50, hw) else ready_loop E (timeout - 50) hw))"

declare ready_loop.simps [simp del]

abbreviation MEI_SPI_START_TIMEOUT :: nat where "MEI_SPI_START_TIMEOUT \<equiv> 200"

definition mei_vsc_hw_start :: "'w mei_core \<Rightarrow> 'w mei_device \<Rightarrow> (int \<times> 'w mei_device) result" where
  "mei_vsc_hw_start E dev =
     (let dev = mei_vsc_host_set_ready dev;
          dev = with_hw (\<lambda>hw. hw\<lparr>v_lock_cnt := 0\<rparr>) dev;
          dev = mei_vsc_intr_enable dev in
      bindF (on_hw (ready_loop (e_spi E) MEI_SPI_START_TIMEOUT) dev) (\<lambda>(timeout, dev).
      if timeout = 0 then Inr (- ENODEV, dev)
      else Inr (0, with_hw (\<lambda>hw. hw\<lparr>v_fw_ready := True\<rparr>) dev)))"

definition mei_vsc_hw_reset :: "'w mei_core \<Rightarrow> 'w mei_device \<Rightarrow> bool \<Rightarrow> (int \<times> 'w mei_device) result" where
  "mei_vsc_hw_reset E dev enable =
     (let dev = mei_vsc_intr_disable dev; (ret, hw) = vsc_reset (m_hw dev); dev = dev\<lparr>m_hw := hw\<rparr> in
      if ret \<noteq> 0 then Inr (ret, dev)
      else if v_disconnect (m_hw dev) then Inr (0, dev)
      else
        bindF (on_hw (init_hw (e_fw E)) dev) (\<lambda>((ret, _), dev).
        if ret \<noteq> 0 then Inr (- ENODEV, dev)
        else Inr (0, with_hw (\<lambda>hw. hw\<lparr>v_seq := 0\<rparr>) dev)))"

section \<open>Messages\<close>

definition mei_vsc_write ::
  "'w mei_core \<Rightarrow> 'w mei_device \<Rightarrow> bytes option \<Rightarrow> nat \<Rightarrow> bytes option \<Rightarrow> nat \<Rightarrow> (int \<times> 'w mei_device) result" where
  "mei_vsc_write E dev hdr hdr_len data data_len =
     (case (hdr, data) of
        (Some h, Some d) \<Rightarrow>
          if hdr_len mod 4 \<noteq> 0 \<or> data_len > MAX_SPI_MSG_SIZE then Inr (- EINVAL, dev)
          else
            let hw = (m_hw dev)\<lparr>v_write_lock_cnt := v_write_lock_cnt (m_hw dev) + 1\<rparr> in
            bindF (load 0 hdr_len h) (\<lambda>h. bindF (store 0 h (v_tx_buf hw)) (\<lambda>buf.
            bindF (load 0 data_len d) (\<lambda>d. bindF (store hdr_len d buf) (\<lambda>buf.
            bindF (mei_vsc_write_raw (e_spi E) buf (hdr_len + data_len) (hw\<lparr>v_tx_buf := buf\<rparr>)) (\<lambda>(ret, hw).
            Inr (ret, dev\<lparr>m_hw := hw\<lparr>v_write_lock_cnt := v_write_lock_cnt hw - 1\<rparr>\<rparr>))))))
      | _ \<Rightarrow> Inr (- EINVAL, dev))"

definition mei_vsc_read :: "'w mei_core \<Rightarrow> 'w mei_device \<Rightarrow> (u32 \<times> 'w mei_device) result" where
  "mei_vsc_read E dev =
     bindF (mei_vsc_read_raw (e_spi E) (v_rx_buf (m_hw dev)) (int MAX_SPI_MSG_SIZE) (m_hw dev)) (\<lambda>((ret, rx, len), hw).
     bindF (deref rx) (\<lambda>rx.
     let hw = hw\<lparr>v_rx_buf := rx, v_rx_len := (case len of None \<Rightarrow> v_rx_len hw | Some l \<Rightarrow> l)\<rparr>; dev = dev\<lparr>m_hw := hw\<rparr> in
     if ret \<noteq> 0 \<or> v_rx_len hw < 4 then Inr (0, dev)
     else bindF (get_le 0 4 rx) (\<lambda>w. Inr (w, dev))))"

definition mei_vsc_read_slots :: "'w mei_device \<Rightarrow> bytes \<Rightarrow> nat \<Rightarrow> (int \<times> bytes) result" where
  "mei_vsc_read_slots dev buf len =
     bindF (load 4 len (v_rx_buf (m_hw dev))) (\<lambda>d. bindF (store 0 d buf) (\<lambda>buf. Inr (0, buf)))"

definition mei_vsc_hw_ops :: "'w mei_core \<Rightarrow> 'w mei_device mei_hw_ops" where
  "mei_vsc_hw_ops E =
     \<lparr>host_is_ready = mei_vsc_host_is_ready, hw_is_ready = mei_vsc_hw_is_ready, hw_reset = mei_vsc_hw_reset E,
      hw_start = mei_vsc_hw_start E, hw_config = mei_vsc_hw_config, fw_status = mei_vsc_fw_status,
      trc_status = None, pg_state = mei_vsc_pg_state, pg_in_transition = mei_vsc_pg_in_transition, pg_is_enabled = mei_vsc_pg_is_enabled,
      intr_clear = mei_vsc_intr_clear, intr_enable = mei_vsc_intr_enable, intr_disable = mei_vsc_intr_disable,
      synchronize_irq = mei_vsc_synchronize_irq, hbuf_free_slots = mei_vsc_hbuf_empty_slots,
      hbuf_is_ready = mei_vsc_hbuf_is_ready, hbuf_depth = mei_vsc_hbuf_depth, write_op = mei_vsc_write E,
      rdbuf_full_slots = mei_vsc_count_full_read_slots, read_hdr = mei_vsc_read E, read_op = mei_vsc_read_slots\<rparr>"

section \<open>Interrupts\<close>

datatype irqreturn = IRQ_HANDLED | IRQ_WAKE_THREAD

definition mei_vsc_irq_quick_handler :: "'w mei_device \<Rightarrow> irqreturn \<times> 'w mei_device" where
  "mei_vsc_irq_quick_handler dev =
     (let dev = with_hw (\<lambda>hw. hw\<lparr>v_lock_cnt := v_lock_cnt hw + 1\<rparr>) dev in
      (if m_state dev = MEI_DEV_INITIALIZING \<or> m_state dev = MEI_DEV_RESETTING then IRQ_HANDLED else IRQ_WAKE_THREAD, dev))"

definition need_read :: "'w mei_core \<Rightarrow> 'w mei_device \<Rightarrow> bool \<times> 'w mei_device" where
  "need_read E dev = (let (b, hw) = spi_need_read (e_spi E) (m_hw dev) in (b, dev\<lparr>m_hw := hw\<rparr>))"

text \<open>
  The loop around \<open>mei_irq_read_handler\<close>; \<open>None\<close> is a loop that does not end.  The boolean of the result
  is the jump to \<open>end\<close>.
\<close>

partial_function (option) irq_read_loop ::
  "'w mei_core \<Rightarrow> nat list \<Rightarrow> int \<Rightarrow> 'w mei_device \<Rightarrow> ((bool \<times> nat list \<times> int) \<times> 'w mei_device) result option" where
  [code]: "irq_read_loop E cmpl_list slots dev =
     (let (b, dev) = need_read E dev in
      if \<not> b then Some (Inr ((False, cmpl_list, slots), dev))
      else case mei_irq_read_handler E dev cmpl_list slots of
        Inl e \<Rightarrow> Some (Inl e)
      | Inr ((rets, cmpl_list, slots), dev) \<Rightarrow>
          if rets = - ENODATA then Some (Inr ((False, cmpl_list, slots), dev))
          else if rets \<noteq> 0 \<and> m_state dev \<noteq> MEI_DEV_RESETTING \<and> m_state dev \<noteq> MEI_DEV_POWER_DOWN
          then Some (Inr ((True, cmpl_list, slots), dev\<lparr>m_reset_work := True\<rparr>))
          else irq_read_loop E cmpl_list slots dev)"

text \<open>The second half of a round: write, completions.\<close>

definition irq_write_part :: "'w mei_core \<Rightarrow> nat list \<Rightarrow> 'w mei_device \<Rightarrow> (nat list \<times> 'w mei_device) result" where
  "irq_write_part E cmpl_list dev =
     (let ops = mei_vsc_hw_ops E; dev = dev\<lparr>m_hbuf_is_ready := mei_hbuf_is_ready ops dev\<rparr> in
      bindF (mei_irq_write_handler E dev cmpl_list) (\<lambda>((_, cmpl_list), dev).
      let dev = dev\<lparr>m_hbuf_is_ready := mei_hbuf_is_ready ops dev\<rparr> in
      bindF (mei_irq_compl_handler E dev cmpl_list) (\<lambda>dev. Inr (cmpl_list, dev))))"

partial_function (option) irq_thread_loop ::
  "'w mei_core \<Rightarrow> nat list \<Rightarrow> int \<Rightarrow> 'w mei_device \<Rightarrow> 'w mei_device result option" where
  [code]: "irq_thread_loop E cmpl_list slots dev =
     Option.bind (irq_read_loop E cmpl_list slots dev) (\<lambda>r.
     case r of
       Inl e \<Rightarrow> Some (Inl e)
     | Inr ((jump, cmpl_list, slots), dev) \<Rightarrow>
         if jump then Some (Inr dev)
         else case irq_write_part E cmpl_list dev of
           Inl e \<Rightarrow> Some (Inl e)
         | Inr (cmpl_list, dev) \<Rightarrow>
             let (b, dev) = need_read E dev in
             if b then irq_thread_loop E cmpl_list slots dev else Some (Inr dev))"

definition mei_vsc_irq_thread_handler :: "'w mei_core \<Rightarrow> 'w mei_device \<Rightarrow> (irqreturn \<times> 'w mei_device) result option" where
  "mei_vsc_irq_thread_handler E dev =
     (let dev = dev\<lparr>m_device_lock := True\<rparr>;
          slots = int (mei_count_full_read_slots (mei_vsc_hw_ops E) dev) in
      map_option (\<lambda>r. bindF r (\<lambda>dev. Inr (IRQ_HANDLED, dev\<lparr>m_device_lock := False\<rparr>))) (irq_thread_loop E [] slots dev))"

text \<open>The zeroed structure; \<open>mei_device_init\<close> belongs to the MEI core.\<close>

definition zero_device :: "'w \<Rightarrow> 'w mei_device" where
  "zero_device w = \<lparr>m_state = MEI_DEV_INITIALIZING, m_pg_event = MEI_PG_EVENT_IDLE, m_hbuf_is_ready = False,
     m_reset_work = False, m_device_lock = False, m_hw = (new_vsc_hw w)\<lparr>v_resetfw := False, v_wakeupfw := False\<rparr>\<rparr>"

definition mei_vsc_dev_init ::
  "('w mei_device \<Rightarrow> 'w mei_device) \<Rightarrow> bool \<Rightarrow> 'w \<Rightarrow> 'w mei_device option" where
  "mei_vsc_dev_init mei_device_init ok w = (if \<not> ok then None else Some (mei_device_init (zero_device w)))"

section \<open>What a transfer puts on the wire\<close>

lemma xfer_loop_sends:
  assumes "xfer_loop E c nl off syn ack hw = Inr ((0, nl', ack'), hw')" and "vsc_wf hw"
  shows "\<exists>rest. v_wire hw' = v_wire hw @ (if c = 0 then [] else take (nat nl) (v_tx_buf1 hw) # rest)"
  using assms
proof (induction c arbitrary: nl off syn ack hw)
  case 0
  then show ?case by simp
next
  case (Suc c)
  obtain ret1 rx hw1 where x: "spi_dev_xfer E (v_tx_buf1 hw) (Some (v_rx_buf1 hw)) (nat nl) hw = Inr ((ret1, Some rx), hw1)"
    using Suc.prems(1) by (auto simp: bindF_eq_Inr)
  let ?hw2 = "hw1\<lparr>v_rx_buf1 := rx, v_tx_buf1 := replicate MAX_XFER_BUFFER_SIZE 0\<rparr>"
  have r0: "ret1 = 0" using Suc.prems(1) x by (auto simp: Let_def split: if_splits)
  have wf: "vsc_wf ?hw2" and w1: "v_wire ?hw2 = v_wire hw @ [take (nat nl) (v_tx_buf1 hw)]"
    using x r0 Suc.prems(2) by (auto simp: spi_dev_xfer_Inr vsc_wf_def)
  have "\<exists>nl1 off1 syn1 ack1. xfer_loop E c nl1 off1 syn1 ack1 ?hw2 = Inr ((0, nl', ack'), hw') \<or> hw' = ?hw2"
    using Suc.prems(1) x r0
    by (auto simp: Let_def bindF_eq_Inr split: option.splits if_splits prod.splits)
  then have "\<exists>rest. v_wire hw' = v_wire ?hw2 @ rest" using Suc.IH [OF _ wf] by blast
  then show ?case using w1 by auto
qed


text \<open>A transfer that succeeds has clocked out the packet of the message, in its first frame.\<close>

lemma xfer_sends:
  assumes "mei_vsc_xfer E cmd (Some tx) n (Some rx) m hw = Inr ((0, rx', l), hw')" and "vsc_wf hw"
  shows "\<exists>pkt k frame rest. tx_packet E cmd (v_seq hw + 1) (take n tx) = Inr pkt \<and> PACKET_SIZE pkt = Inr k \<and>
    v_wire hw' = v_wire hw @ frame # rest \<and> take k frame = take k pkt"
proof -
  obtain ok w where kz: "kzalloc_ok E (v_env hw) = (ok, w)" by fastforce
  let ?h = "hw\<lparr>v_env := w, v_seq := v_seq hw + 1\<rparr>"
  have nn: "\<not> n > MAX_SPI_MSG_SIZE" "ok" using assms(1) kz by (auto simp: mei_vsc_xfer_def Let_def split: if_splits)
  then obtain pkt where pkt: "tx_packet E cmd (v_seq hw + 1) (take n tx) = Inr pkt" "n \<le> length tx"
    and lk: "xfer_locked E pkt rx m ?h = Inr ((0, rx', l), hw')"
    using assms(1) kz by (auto simp: mei_vsc_xfer_def bindF_eq_Inr load_eq_Inr Let_def)
  obtain r1 hw1 where wk: "spi_wakeup_request E (?h\<lparr>v_mutex := True\<rparr>) = (r1, hw1)" by fastforce
  then obtain ack hw2 where it: "mei_vsc_xfer_internal E pkt (replicate SPI_PACKET_SIZEOF 0) hw1 = Inr ((0, ack), hw2)"
    and hw': "\<exists>b c. hw' = (spi_wakeup_release hw2)\<lparr>v_mutex := False\<rparr>"
    using lk by (auto simp: xfer_locked_def bindF_eq_Inr Let_def split: if_splits)
  have w1: "v_wire hw1 = v_wire hw" "vsc_wf hw1"
    using wk assms(2) by (auto simp: spi_wakeup_request_def spi_xfer_wait_asserted_def spi_xfer_lock_def spi_xfer_asserted_def
        spi_rom_xfer_asserted_def Let_def split: prod.splits if_splits)
  obtain k bs t nl where k: "PACKET_SIZE pkt = Inr k" "load 0 k pkt = Inr bs" "store 0 bs (v_tx_buf1 hw1) = Inr t"
    and lp: "xfer_loop E MAX_XFER_COUNT (int (k + XFER_TIMEOUT_BYTES)) 0 False (replicate SPI_PACKET_SIZEOF 0)
      (hw1\<lparr>v_tx_buf1 := t, v_rx_buf1 := replicate MAX_XFER_BUFFER_SIZE 0\<rparr>) = Inr ((0, nl, ack), hw2)"
    using it by (auto simp: mei_vsc_xfer_internal_def bindF_eq_Inr Let_def split: if_splits)
  have "vsc_wf (hw1\<lparr>v_tx_buf1 := t, v_rx_buf1 := replicate MAX_XFER_BUFFER_SIZE 0\<rparr>)"
    using w1(2) store_length [OF k(3)] by (simp add: vsc_wf_def)
  from xfer_loop_sends [OF lp this] obtain rest where
    "v_wire hw2 = v_wire hw1 @ take (nat (int (k + XFER_TIMEOUT_BYTES))) t # rest" by auto
  moreover have "take k (take (nat (int (k + XFER_TIMEOUT_BYTES))) t) = take k pkt"
    using k(2,3) by (auto simp: load_eq_Inr store_eq_Inr min_def)
  moreover have "v_wire hw' = v_wire hw2" using hw' by (auto simp: spi_wakeup_release_def spi_xfer_unlock_def)
  ultimately show ?thesis using pkt(1) k(1) w1(1) by auto
qed

section \<open>Messages to the firmware\<close>

lemma xfer_keeps:
  assumes "mei_vsc_xfer E cmd (Some tx) n (Some rx) m hw = Inr ((r, rx', l), hw')" and "vsc_wf hw"
  shows "v_write_lock_cnt hw' = v_write_lock_cnt hw \<and> v_tx_buf hw' = v_tx_buf hw \<and> v_rx_buf hw' = v_rx_buf hw \<and>
    v_fw_ready hw' = v_fw_ready hw \<and> v_host_ready hw' = v_host_ready hw \<and> v_irq_off hw' = v_irq_off hw \<and> vsc_wf hw'"
  using xfer_released [OF assms]
proof
  assume "\<exists>w. (r = - EINVAL \<or> r = - ENOMEM) \<and> hw' = hw\<lparr>v_env := w\<rparr>"
  then show ?thesis using assms(2) by auto
next
  assume f: "bus_frame (hw\<lparr>v_seq := v_seq hw + 1, v_wakeupfw := True, v_mutex := False, v_lock_cnt := v_lock_cnt hw'\<rparr>) hw'"
  then have "vsc_wf hw'" using bus_frame_wf assms(2) by fastforce
  then show ?thesis using f by (cases hw, cases hw') (auto simp: bus_frame_def)
qed

text \<open>
  C25: Writing a message.  For a header that is a multiple of 4 bytes and a payload of at most 2048 bytes,
  the message buffer overflows when both together exceed 2048 bytes, which is not checked.  Otherwise,
  whatever the write returns, the host buffer is as ready as before and the message buffer starts
  with header and payload; and when it returns 0, the first frame on the wire starts with the packet
  for the two, with the next sequence number and a checksum over all of it.
\<close>
theorem mei_write_outcome:
  assumes "vsc_wf (m_hw dev)" and "hdr_len \<le> length h" and "data_len \<le> length d" and "hdr_len mod 4 = 0"
    and "data_len \<le> MAX_SPI_MSG_SIZE"
  shows "if hdr_len + data_len > MAX_SPI_MSG_SIZE then mei_vsc_write E dev (Some h) hdr_len (Some d) data_len = Inl OutOfBounds
    else \<forall>r dev'. mei_vsc_write E dev (Some h) hdr_len (Some d) data_len = Inr (r, dev') \<longrightarrow>
      mei_vsc_hbuf_is_ready dev' = mei_vsc_hbuf_is_ready dev \<and>
      take (hdr_len + data_len) (v_tx_buf (m_hw dev')) = take hdr_len h @ take data_len d \<and>
      (r = 0 \<longrightarrow> (\<exists>pkt k frame rest.
         tx_packet (e_spi E) CMD_SPI_WRITE (v_seq (m_hw dev) + 1) (take hdr_len h @ take data_len d) = Inr pkt \<and>
         PACKET_SIZE pkt = Inr k \<and> v_wire (m_hw dev') = v_wire (m_hw dev) @ frame # rest \<and> take k frame = take k pkt))"
proof -
  let ?hw = "m_hw dev" let ?msg = "take hdr_len h @ take data_len d"
  have lb: "length (v_tx_buf ?hw) = MAX_SPI_MSG_SIZE" using assms(1) by (simp add: vsc_wf_def)
  have ld: "load 0 hdr_len h = Inr (take hdr_len h)" "load 0 data_len d = Inr (take data_len d)"
    using assms(2,3) by (simp_all add: load_def)
  show ?thesis
  proof (cases "hdr_len + data_len > MAX_SPI_MSG_SIZE")
    case True
    have "bindF (store 0 (take hdr_len h) (v_tx_buf ?hw)) (store hdr_len (take data_len d)) = Inl OutOfBounds"
      using True lb assms(2,3) by (simp add: store_def)
    then have "\<exists>e. store 0 (take hdr_len h) (v_tx_buf ?hw) = Inl OutOfBounds \<or>
        (\<exists>b. store 0 (take hdr_len h) (v_tx_buf ?hw) = Inr b \<and> store hdr_len (take data_len d) b = Inl OutOfBounds)"
      by (auto simp: bindF_eq_Inl)
    then show ?thesis using True ld assms(4,5) by (auto simp: mei_vsc_write_def Let_def)
  next
    case False
    define buf where "buf = ?msg @ drop (hdr_len + data_len) (v_tx_buf ?hw)"
    have st: "bindF (store 0 (take hdr_len h) (v_tx_buf ?hw)) (\<lambda>b. store hdr_len (take data_len d) b) = Inr buf"
      using False lb assms(2,3) by (simp add: store_def buf_def add.commute)
    have tb: "take (hdr_len + data_len) buf = ?msg" "length buf = MAX_SPI_MSG_SIZE" using assms(2,3) False lb by (simp_all add: buf_def)
    let ?h = "?hw\<lparr>v_write_lock_cnt := v_write_lock_cnt ?hw + 1, v_tx_buf := buf\<rparr>"
    have wf: "vsc_wf ?h" using assms(1) tb(2) by (simp add: vsc_wf_def)
    have *: "mei_vsc_hbuf_is_ready dev' = mei_vsc_hbuf_is_ready dev \<and>
      take (hdr_len + data_len) (v_tx_buf (m_hw dev')) = ?msg \<and>
      (r = 0 \<longrightarrow> (\<exists>pkt k frame rest.
         tx_packet (e_spi E) CMD_SPI_WRITE (v_seq ?hw + 1) ?msg = Inr pkt \<and>
         PACKET_SIZE pkt = Inr k \<and> v_wire (m_hw dev') = v_wire ?hw @ frame # rest \<and> take k frame = take k pkt))"
      if run: "mei_vsc_write E dev (Some h) hdr_len (Some d) data_len = Inr (r, dev')" for r dev'
    proof -
      obtain rx l hw1 where x: "mei_vsc_xfer (e_spi E) CMD_SPI_WRITE (Some buf) (hdr_len + data_len) (Some [0]) 1 ?h = Inr ((r, rx, l), hw1)"
        and dev': "dev' = dev\<lparr>m_hw := hw1\<lparr>v_write_lock_cnt := v_write_lock_cnt hw1 - 1\<rparr>\<rparr>"
        using run ld st assms(4,5) by (auto simp: mei_vsc_write_def Let_def bindF_eq_Inr mei_vsc_write_raw_def)
      note k = xfer_keeps [OF x wf]
      have "r = 0 \<Longrightarrow> \<exists>pkt k frame rest. tx_packet (e_spi E) CMD_SPI_WRITE (v_seq ?hw + 1) ?msg = Inr pkt \<and>
         PACKET_SIZE pkt = Inr k \<and> v_wire hw1 = v_wire ?hw @ frame # rest \<and> take k frame = take k pkt"
        using xfer_sends [of "e_spi E" CMD_SPI_WRITE buf "hdr_len + data_len" "[0]" 1 ?h rx l hw1] x wf tb(1) by auto
      then show ?thesis using k tb(1) by (auto simp: dev' mei_vsc_hbuf_is_ready_def)
    qed
    show ?thesis using False * by simp
  qed
qed

text \<open>A core whose read handler takes one message per call, over the bus of the loader.\<close>

definition demo_core :: "bytes list mei_core" where
  "demo_core =
     \<lparr>e_fw = fw_bus,
      mei_irq_read_handler = (\<lambda>dev cl s. Inr ((0, cl, s), with_hw (\<lambda>hw. hw\<lparr>v_lock_cnt := v_lock_cnt hw - 1\<rparr>) dev)),
      mei_irq_write_handler = (\<lambda>dev cl. Inr ((0, cl), dev)),
      mei_irq_compl_handler = (\<lambda>dev cl. Inr dev)\<rparr>"

theorem mei_write_outcome_witness:
  "mei_vsc_write demo_core (zero_device []) (Some [0, 0, 0, 0]) 4 (Some (replicate 2048 7)) 2048 = Inl OutOfBounds"
  using mei_write_outcome [of "zero_device []" 4 "[0, 0, 0, 0]" 2048 "replicate 2048 7" demo_core]
  by (simp add: zero_device_def new_vsc_hw_def vsc_wf_def)

section \<open>Waiting for the firmware\<close>

text \<open>\<open>k\<close> reads in a row, with their results.\<close>

fun ready_reads :: "'w spi_env \<Rightarrow> nat \<Rightarrow> 'w mei_vsc_hw \<Rightarrow> (int list \<times> 'w mei_vsc_hw) result" where
  "ready_reads E 0 hw = Inr ([], hw)"
| "ready_reads E (Suc k) hw =
     bindF (ready_read E hw) (\<lambda>(r, hw). bindF (ready_reads E k hw) (\<lambda>(rs, hw). Inr (r # rs, hw)))"

lemma ready_loop_Suc:
  "ready_loop E (50 * Suc n) hw = bindF (ready_read E hw) (\<lambda>(r, hw). if r = 0 then Inr (50 * n, hw) else ready_loop E (50 * n) hw)"
proof -
  have "ready_loop E (50 * Suc n) hw =
      bindF (ready_read E hw) (\<lambda>(ret, hw). if ret = 0 \<and> ret \<noteq> - EAGAIN then Inr (50 * Suc n - 50, hw) else ready_loop E (50 * Suc n - 50) hw)"
    by (rule trans [OF ready_loop.simps]) simp
  also have "\<dots> = bindF (ready_read E hw) (\<lambda>(r, hw). if r = 0 then Inr (50 * n, hw) else ready_loop E (50 * n) hw)"
    by (intro arg_cong [of _ _ "bindF (ready_read E hw)"]) (auto simp: fun_eq_iff)
  finally show ?thesis .
qed

lemma ready_loop_reads:
  assumes "ready_loop E (50 * n) hw = Inr (left, hw')"
  shows "\<exists>rs. ready_reads E (length rs) hw = Inr (rs, hw') \<and> length rs \<le> n \<and> (\<forall>r \<in> set (butlast rs). r \<noteq> 0) \<and>
    ((\<exists>m. rs \<noteq> [] \<and> last rs = 0 \<and> left = 50 * m \<and> length rs + m = n) \<or> (left = 0 \<and> length rs = n \<and> 0 \<notin> set rs))"
  using assms
proof (induction n arbitrary: hw)
  case 0
  then show ?case by (auto simp: ready_loop.simps intro: exI [of _ "[]"])
next
  case (Suc n)
  obtain r hw1 where r: "ready_read E hw = Inr (r, hw1)"
    and rest: "(if r = 0 then Inr (50 * n, hw1) else ready_loop E (50 * n) hw1) = Inr (left, hw')"
    using Suc.prems unfolding ready_loop_Suc by (auto simp: bindF_eq_Inr)
  show ?case
  proof (cases "r = 0")
    case True
    then show ?thesis using r rest by (intro exI [of _ "[0]"]) auto
  next
    case False
    then have "ready_loop E (50 * n) hw1 = Inr (left, hw')" using rest by simp
    from Suc.IH [OF this] obtain rs where rs: "ready_reads E (length rs) hw1 = Inr (rs, hw')" "length rs \<le> n"
      "\<forall>r \<in> set (butlast rs). r \<noteq> 0"
      "(\<exists>m. rs \<noteq> [] \<and> last rs = 0 \<and> left = 50 * m \<and> length rs + m = n) \<or> (left = 0 \<and> length rs = n \<and> 0 \<notin> set rs)"
      by blast
    then show ?thesis using r False by (intro exI [of _ "r # rs"]) auto
  qed
qed

text \<open>
  Starting the firmware.  \<open>hw_start\<close> marks the host ready, clears the interrupt count, enables the
  interrupt and then reads at most four times, until the first success.  It returns 0, and marks the
  firmware ready, exactly when one of the first three reads succeeds; a success of the fourth is
  reported as \<open>-ENODEV\<close>.
\<close>
lemma hw_start_outcome:
  assumes "mei_vsc_hw_start E dev = Inr (r, dev')"
  shows "\<exists>rs hw'. ready_reads (e_spi E) (length rs)
        ((m_hw dev)\<lparr>v_host_ready := True, v_lock_cnt := 0, v_irq_off := v_irq_off (m_hw dev) - 1\<rparr>) = Inr (rs, hw') \<and>
    1 \<le> length rs \<and> length rs \<le> 4 \<and> (\<forall>c \<in> set (butlast rs). c \<noteq> 0) \<and> (last rs = 0 \<or> length rs = 4) \<and>
    r = (if last rs = 0 \<and> length rs \<le> 3 then 0 else - ENODEV) \<and>
    dev' = dev\<lparr>m_hw := if r = 0 then hw'\<lparr>v_fw_ready := True\<rparr> else hw'\<rparr>"
proof -
  let ?hw = "(m_hw dev)\<lparr>v_host_ready := True, v_lock_cnt := 0, v_irq_off := v_irq_off (m_hw dev) - 1\<rparr>"
  obtain left hw' where lp: "ready_loop (e_spi E) (50 * 4) ?hw = Inr (left, hw')"
    and fin: "(if left = 0 then Inr (- ENODEV, dev\<lparr>m_hw := hw'\<rparr>) else Inr (0, dev\<lparr>m_hw := hw'\<lparr>v_fw_ready := True\<rparr>\<rparr>)) =
      (Inr (r, dev') :: (int \<times> 'a mei_device) result)"
    using assms by (auto simp: mei_vsc_hw_start_def mei_vsc_host_set_ready_def mei_vsc_intr_enable_def with_hw_def on_hw_def
        bindF_eq_Inr Let_def cong: if_cong)
  obtain rs where rs: "ready_reads (e_spi E) (length rs) ?hw = Inr (rs, hw')" "length rs \<le> 4" "\<forall>c \<in> set (butlast rs). c \<noteq> 0"
    "(\<exists>m. rs \<noteq> [] \<and> last rs = 0 \<and> left = 50 * m \<and> length rs + m = 4) \<or> (left = 0 \<and> length rs = 4 \<and> 0 \<notin> set rs)"
    using ready_loop_reads [OF lp] by blast
  have ne: "rs \<noteq> []" using rs(4) by auto
  then have "last rs \<in> set rs" by simp
  then have c: "last rs = 0 \<or> length rs = 4" "left = 0 \<longleftrightarrow> \<not> (last rs = 0 \<and> length rs \<le> 3)"
    using rs(4) by auto
  have "1 \<le> length rs" using ne by (cases rs) auto
  then show ?thesis using rs(1-3) c fin by (intro exI [of _ rs] exI [of _ hw']) (auto split: if_splits)
qed


text \<open>A firmware that answers the first read.\<close>

definition start_core :: "bytes list mei_core" where
  "start_core = demo_core\<lparr>e_fw := spi_env.extend scripted_spi \<lparr>request_firmware = \<lambda>n w. ((- ENOENT, None), w)\<rparr>\<rparr>"

definition start_hw :: "bytes list mei_vsc_hw" where
  "start_hw = (m_hw (zero_device [demo_reply]))\<lparr>v_host_ready := True, v_lock_cnt := 0, v_irq_off := - 1\<rparr>"

lemma start_ready_read: "\<exists>hw'. ready_read scripted_spi start_hw = Inr (0, hw')"
proof -
  let ?ts = "le_bytes 8 (0 :: u64) @ le_bytes 8 (0 :: u64)"
  have e: "start_hw\<lparr>v_env := [demo_reply]\<rparr> = start_hw" and f: "vsc_wf start_hw" "v_seq start_hw = 0" "v_env start_hw = [demo_reply]"
    by (simp_all add: start_hw_def zero_device_def new_vsc_hw_def vsc_wf_def)
  have wake: "spi_wakeup_request scripted_spi (start_hw\<lparr>v_env := [demo_reply], v_seq := v_seq start_hw + 1, v_mutex := True\<rparr>) =
     (0, start_hw\<lparr>v_seq := 1, v_mutex := True, v_wakeupfw := False, v_lock_cnt := 1\<rparr>)"
    by (simp add: spi_wakeup_request_def spi_xfer_wait_asserted_def spi_xfer_lock_def spi_xfer_asserted_def
        spi_rom_xfer_asserted_def scripted_spi_def start_hw_def zero_device_def new_vsc_hw_def)
  have n: "length ?ts + 712 = 728" by simp
  have c: "clocked 728 demo_reply = demo_reply @ replicate 712 0" by (simp add: clocked_short demo_reply_parts(1))
  have sync: "find_sync_byte (clocked 728 demo_reply) = Some 2" unfolding c by (rule demo_reply_parts(2))
  have p: "drop 2 (clocked 728 demo_reply) = drop 2 demo_reply @ replicate (Suc 711) 0"
    unfolding c by (simp add: demo_reply_parts(1))
  have ack: "good_ack scripted_spi (v_seq start_hw + 1) (drop 2 (clocked 728 demo_reply))
     \<lparr>x_sync = PACKET_SYNC, x_cmd = 0x10, x_len = 2, x_seq = 1\<rparr>"
    using demo_ack_good [of 711] unfolding p f(2) by simp
  have kz: "kzalloc_ok scripted_spi (v_env start_hw) = (True, [demo_reply])" by (simp add: f scripted_spi_def)
  have kt: "ktime scripted_spi [demo_reply] = ((0, 0), [demo_reply])" by (simp add: scripted_spi_def)
  let ?k = "nat (min (uint (2 :: u16)) 1)"
  have "\<exists>hw'. mei_vsc_xfer scripted_spi CMD_SPI_READ (Some ?ts) (length ?ts) (Some [0]) 1 start_hw =
      Inr ((0, Some (take ?k (drop SPI_HDR_SIZE (drop 2 (clocked 728 demo_reply))) @ drop ?k [0]), Some (of_nat ?k)), hw')"
    by (rule xfer_delivers [OF f(1) _ kz wake _ n [symmetric] sync refl ack])
      (simp_all add: scripted_spi_def start_hw_def zero_device_def new_vsc_hw_def)
  then have "\<exists>rx l hw'. mei_vsc_xfer scripted_spi CMD_SPI_READ (Some ?ts) (length ?ts) (Some [0]) 1 start_hw = Inr ((0, rx, l), hw')"
    by blast
  then have "\<exists>rx l hw'. mei_vsc_read_raw scripted_spi [0] 1 start_hw = Inr ((0, rx, l), hw')"
    unfolding mei_vsc_read_raw_def kt f(3) using e by simp
  then show ?thesis by (auto simp: ready_read_def)
qed

section \<open>The interrupt thread ends\<close>

abbreviation lock_cnt :: "'w mei_device \<Rightarrow> nat" where "lock_cnt dev \<equiv> v_lock_cnt (m_hw dev)"

text \<open>
  What ends the loops: the GPIO line keeps its value while nothing is transferred, every call of the read
  handler takes one pending interrupt, and the other handlers add none.
\<close>

definition calm :: "'w mei_core \<Rightarrow> bool" where
  "calm E \<longleftrightarrow>
     (\<forall>w. snd (gpio_wakeuphost (e_spi E) w) = w) \<and>
     (\<forall>dev cl s. case mei_irq_read_handler E dev cl s of Inl _ \<Rightarrow> True
        | Inr (_, dev') \<Rightarrow> lock_cnt dev > 0 \<longrightarrow> lock_cnt dev' < lock_cnt dev) \<and>
     (\<forall>dev cl. case mei_irq_write_handler E dev cl of Inl _ \<Rightarrow> True | Inr (_, dev') \<Rightarrow> lock_cnt dev' \<le> lock_cnt dev) \<and>
     (\<forall>dev cl. case mei_irq_compl_handler E dev cl of Inl _ \<Rightarrow> True | Inr dev' \<Rightarrow> lock_cnt dev' \<le> lock_cnt dev)"

lemma calm_handlers:
  assumes "calm E"
  shows "mei_irq_read_handler E dev cl s = Inr (x, dev1) \<Longrightarrow> 0 < lock_cnt dev \<Longrightarrow> lock_cnt dev1 < lock_cnt dev"
    "mei_irq_write_handler E dev cl = Inr (y, dev2) \<Longrightarrow> lock_cnt dev2 \<le> lock_cnt dev"
    "mei_irq_compl_handler E dev cl = Inr dev3 \<Longrightarrow> lock_cnt dev3 \<le> lock_cnt dev"
proof -
  have "case mei_irq_read_handler E dev cl s of Inl _ \<Rightarrow> True | Inr (_, dev') \<Rightarrow> lock_cnt dev > 0 \<longrightarrow> lock_cnt dev' < lock_cnt dev"
    "case mei_irq_write_handler E dev cl of Inl _ \<Rightarrow> True | Inr (_, dev') \<Rightarrow> lock_cnt dev' \<le> lock_cnt dev"
    "case mei_irq_compl_handler E dev cl of Inl _ \<Rightarrow> True | Inr dev' \<Rightarrow> lock_cnt dev' \<le> lock_cnt dev"
    using assms unfolding calm_def by blast+
  then show "mei_irq_read_handler E dev cl s = Inr (x, dev1) \<Longrightarrow> 0 < lock_cnt dev \<Longrightarrow> lock_cnt dev1 < lock_cnt dev"
    "mei_irq_write_handler E dev cl = Inr (y, dev2) \<Longrightarrow> lock_cnt dev2 \<le> lock_cnt dev"
    "mei_irq_compl_handler E dev cl = Inr dev3 \<Longrightarrow> lock_cnt dev3 \<le> lock_cnt dev"
    by simp_all
qed

lemma need_read_calm:
  assumes "calm E" and "need_read E dev = (b, dev')"
  shows "dev' = dev \<and> (b \<longrightarrow> 0 < lock_cnt dev)"
proof -
  obtain g w where g: "gpio_wakeuphost (e_spi E) (v_env (m_hw dev)) = (g, w)" by fastforce
  then have "w = v_env (m_hw dev)" using assms(1) unfolding calm_def by (metis snd_conv)
  then show ?thesis
    using assms(2) g by (auto simp: need_read_def spi_need_read_def spi_xfer_asserted_def spi_rom_xfer_asserted_def Let_def split: if_splits)
qed

lemma read_loop_ends:
  assumes "calm E"
  shows "\<exists>r. irq_read_loop E cl s dev = Some r \<and>
    (\<forall>j cl' s' dev'. r = Inr ((j, cl', s'), dev') \<longrightarrow> lock_cnt dev' \<le> lock_cnt dev \<and>
       (fst (need_read E dev) \<longrightarrow> lock_cnt dev' < lock_cnt dev) \<and> (j \<longrightarrow> m_reset_work dev'))"
proof (induction "lock_cnt dev" arbitrary: dev cl s rule: less_induct)
  case less
  obtain b where nr: "need_read E dev = (b, dev)" and pos: "b \<Longrightarrow> 0 < lock_cnt dev"
    using need_read_calm [OF assms] by (metis prod.collapse)
  show ?case
  proof (cases "\<not> b")
    case True
    then show ?thesis using nr by (subst irq_read_loop.simps) simp
  next
    case False
    show ?thesis
    proof (cases "mei_irq_read_handler E dev cl s")
      case (Inl e)
      then show ?thesis using nr False by (subst irq_read_loop.simps) simp
    next
      case (Inr x)
      then obtain rets cl1 s1 dev1 where h: "mei_irq_read_handler E dev cl s = Inr ((rets, cl1, s1), dev1)" by (cases x) auto
      have lt: "lock_cnt dev1 < lock_cnt dev" using calm_handlers(1) [OF assms h pos] False by simp
      show ?thesis
      proof (cases "rets = - ENODATA \<or> rets \<noteq> 0 \<and> m_state dev1 \<noteq> MEI_DEV_RESETTING \<and> m_state dev1 \<noteq> MEI_DEV_POWER_DOWN")
        case True
        then show ?thesis using nr False h lt by (subst irq_read_loop.simps) auto
      next
        case go: False
        have "irq_read_loop E cl s dev = irq_read_loop E cl1 s1 dev1"
          using nr False h go by (subst irq_read_loop.simps) (auto simp: Let_def)
        then show ?thesis using less [OF lt, of cl1 s1] lt by fastforce
      qed
    qed
  qed
qed

lemma write_part_calm:
  assumes "calm E" and "irq_write_part E cl dev = Inr (cl', dev')"
  shows "lock_cnt dev' \<le> lock_cnt dev"
proof -
  obtain r dev1 dev2 where w: "mei_irq_write_handler E (dev\<lparr>m_hbuf_is_ready := mei_hbuf_is_ready (mei_vsc_hw_ops E) dev\<rparr>) cl = Inr (r, dev1)"
    and c: "mei_irq_compl_handler E (dev1\<lparr>m_hbuf_is_ready := mei_hbuf_is_ready (mei_vsc_hw_ops E) dev1\<rparr>) (snd r) = Inr dev2" "dev' = dev2"
    using assms(2) by (auto simp: irq_write_part_def bindF_eq_Inr Let_def)
  obtain y cl1 where r: "r = (y, cl1)" by (cases r)
  have "lock_cnt dev1 \<le> lock_cnt dev" using calm_handlers(2) [OF assms(1) w] by simp
  moreover have "lock_cnt dev2 \<le> lock_cnt dev1" using calm_handlers(3) [OF assms(1) c(1)] by simp
  ultimately show ?thesis using c(2) by simp
qed

lemma thread_step:
  assumes "calm E"
  obtains (ends) r where "irq_thread_loop E cl s dev = Some r" "\<And>d. r = Inr d \<Longrightarrow> m_reset_work d \<or> \<not> fst (need_read E d)"
  | (again) cl2 s2 dev2 where "irq_thread_loop E cl s dev = irq_thread_loop E cl2 s2 dev2" "fst (need_read E dev2)"
      "fst (need_read E dev) \<Longrightarrow> lock_cnt dev2 < lock_cnt dev"
proof -
  obtain r where r: "irq_read_loop E cl s dev = Some r"
    and p: "\<And>j cl' s' d. r = Inr ((j, cl', s'), d) \<Longrightarrow> lock_cnt d \<le> lock_cnt dev \<and>
       (fst (need_read E dev) \<longrightarrow> lock_cnt d < lock_cnt dev) \<and> (j \<longrightarrow> m_reset_work d)"
    using read_loop_ends [OF assms] by blast
  note unf = trans [OF irq_thread_loop.simps]
  show thesis
  proof (cases r)
    case (Inl e)
    have "irq_thread_loop E cl s dev = Some (Inl e)" by (rule unf) (simp add: r Inl)
    then show thesis by (rule ends) simp
  next
    case (Inr x)
    then obtain j cl1 s1 d1 where x: "r = Inr ((j, cl1, s1), d1)" by (cases x) auto
    note q = p [OF x]
    show thesis
    proof (cases j)
      case True
      have "irq_thread_loop E cl s dev = Some (Inr d1)" by (rule unf) (simp add: r x True)
      then show thesis using q True by (intro ends) auto
    next
      case False
      show thesis
      proof (cases "irq_write_part E cl1 d1")
        case (Inl e)
        have "irq_thread_loop E cl s dev = Some (Inl e)" by (rule unf) (simp add: r x False Inl)
        then show thesis by (rule ends) simp
      next
        case (Inr y)
        then obtain cl2 d2 where w: "irq_write_part E cl1 d1 = Inr (cl2, d2)" by (cases y) auto
        have le: "lock_cnt d2 \<le> lock_cnt d1" by (rule write_part_calm [OF assms w])
        obtain b where nr: "need_read E d2 = (b, d2)" using need_read_calm [OF assms] by (metis prod.collapse)
        show thesis
        proof (cases b)
          case True
          have "irq_thread_loop E cl s dev = irq_thread_loop E cl2 s1 d2"
            by (rule unf) (simp add: r x False w nr True Let_def)
          then show thesis using nr True q le by (intro again) auto
        next
          case nb: False
          have "irq_thread_loop E cl s dev = Some (Inr d2)" by (rule unf) (simp add: r x False w nr nb Let_def)
          then show thesis using nr nb by (intro ends) auto
        qed
      qed
    qed
  qed
qed

lemma thread_loop_pending:
  assumes "calm E" and "fst (need_read E dev)"
  shows "\<exists>r. irq_thread_loop E cl s dev = Some r \<and> (\<forall>d. r = Inr d \<longrightarrow> m_reset_work d \<or> \<not> fst (need_read E d))"
  using assms(2)
proof (induction "lock_cnt dev" arbitrary: dev cl s rule: less_induct)
  case less
  from assms(1) show ?case
  proof (cases rule: thread_step [where cl = cl and s = s and dev = dev])
    case (ends r)
    then show ?thesis by blast
  next
    case (again cl2 s2 dev2)
    then show ?thesis using less.hyps [OF again(3) [OF less.prems] again(2)] by simp
  qed
qed



end
