(* ===== verification/Vsc_Spi_Driver.thy ===== *)
theory Vsc_Spi_Driver
  imports Vsc_Hw_Ops
begin

text \<open>
  \<^verbatim>\<open>drivers/misc/mei/spi-vsc.c\<close>: the SPI driver that binds the transport to the MEI core: the sensor
  name from ACPI, probe and its deferred work, suspend, resume, remove and shutdown.

  Parameters are what the driver core, ACPI, the GPIO and interrupt layers and the MEI core return.
  \<open>p_irq\<close> tells whether the interrupt is requested, \<open>p_bad_free\<close> counts the calls of \<open>free_irq\<close> for an
  interrupt that is not.
\<close>

section \<open>State and environment\<close>

record 'w spi_drv =
  p_dev :: "'w mei_device option"
  p_irq :: bool
  p_bad_free :: nat
  p_work :: bool
  p_registered :: bool
  p_pm :: int
  p_timer :: bool

record 'w drv_env =
  d_core :: "'w mei_core"
  d_device_init :: "'w mei_device \<Rightarrow> 'w mei_device"
  d_kzalloc_ok :: bool
  d_children :: "string list list option"
  d_evaluate_SID :: "int \<Rightarrow> bytes option"
  d_add_gpios :: int
  d_gpiod_get :: "string \<Rightarrow> int"
  d_gpio_irq :: int
  d_request_irq :: int
  d_mei_start :: "'w mei_device \<Rightarrow> int \<times> 'w mei_device"
  d_mei_register :: "'w mei_device \<Rightarrow> int"
  d_mei_restart :: "'w mei_device \<Rightarrow> int \<times> 'w mei_device"
  d_mei_stop :: "'w mei_device \<Rightarrow> 'w mei_device"
  d_mei_cancel_work :: "'w mei_device \<Rightarrow> 'w mei_device"

section \<open>The sensor name\<close>

abbreviation LINK_NUMBER :: int where "LINK_NUMBER \<equiv> 1"

definition cvfd_ids :: "string list" where
  "cvfd_ids = [''INTC1059'', ''INTC1095'', ''INTC100A'', ''INTC10CF'']"

text \<open>An ACPI device is the list of its hardware ids.\<close>

definition cvfd_match_device_ids :: "string list \<Rightarrow> bool" where
  "cvfd_match_device_ids hids \<longleftrightarrow> (\<exists>h \<in> set hids. h \<in> set cvfd_ids)"

definition find_cvfd_child_adev :: "string list list option \<Rightarrow> string list option" where
  "find_cvfd_child_adev parent = (case parent of None \<Rightarrow> None | Some cs \<Rightarrow> find cvfd_match_device_ids cs)"

text \<open>The kernel's \<open>tolower\<close>, for Latin-1.\<close>

definition tolower :: "u8 \<Rightarrow> u8" where
  "tolower c = (if 65 \<le> c \<and> c \<le> 90 \<or> 192 \<le> c \<and> c \<le> 222 \<and> c \<noteq> 215 then c + 32 else c)"

text \<open>The loop over the name up to its NUL; without one it leaves the array.\<close>

fun lower_name :: "bytes \<Rightarrow> bytes result" where
  "lower_name [] = Inl OutOfBounds"
| "lower_name (c # cs) = (if c = 0 then Inr (c # cs) else bindF (lower_name cs) (\<lambda>cs. Inr (tolower c # cs)))"

definition get_sensor_name :: "'w drv_env \<Rightarrow> 'w mei_device \<Rightarrow> (int \<times> 'w mei_device) result" where
  "get_sensor_name E dev =
     (case find_cvfd_child_adev (d_children E) of
        None \<Rightarrow> Inr (- ENODEV, dev)
      | Some adev \<Rightarrow>
          case d_evaluate_SID E LINK_NUMBER of
            None \<Rightarrow> Inr (- ENODEV, dev)
          | Some sid \<Rightarrow>
              let name = v_cam_sensor_name (m_hw dev) in
              if length sid > length name then Inr (- EINVAL, dev)
              else bindF (store 0 sid name) (\<lambda>name. bindF (lower_name name) (\<lambda>name.
                   Inr (0, with_hw (\<lambda>hw. hw\<lparr>v_cam_sensor_name := name\<rparr>) dev))))"

section \<open>The interrupt\<close>

text \<open>A fresh request enables the interrupt line.\<close>

definition request_threaded_irq :: "'w drv_env \<Rightarrow> 'w mei_device \<Rightarrow> 'w spi_drv \<Rightarrow> int \<times> 'w spi_drv" where
  "request_threaded_irq E dev d =
     (if d_request_irq E \<noteq> 0 then (d_request_irq E, d)
      else (0, d\<lparr>p_irq := True, p_dev := Some (with_hw (\<lambda>hw. hw\<lparr>v_irq_off := 0\<rparr>) dev)\<rparr>))"

definition free_irq :: "'w spi_drv \<Rightarrow> 'w spi_drv" where
  "free_irq d = (if p_irq d then d\<lparr>p_irq := False\<rparr> else d\<lparr>p_bad_free := p_bad_free d + 1\<rparr>)"

section \<open>Probe\<close>

definition mei_vsc_probe_work :: "'w drv_env \<Rightarrow> 'w spi_drv \<Rightarrow> 'w spi_drv result" where
  "mei_vsc_probe_work E d =
     bindF (deref (p_dev d)) (\<lambda>dev.
     let d = d\<lparr>p_work := False\<rparr>; (ret, dev) = d_mei_start E dev;
         release_irq = (\<lambda>dev. Inr (free_irq (d\<lparr>p_dev := Some (mei_disable_interrupts (mei_vsc_hw_ops (d_core E)) (d_mei_cancel_work E dev))\<rparr>))) in
     if ret \<noteq> 0 then release_irq dev
     else if d_mei_register E dev \<noteq> 0 then release_irq (d_mei_stop E dev)
     else Inr (d\<lparr>p_dev := Some dev, p_registered := True, p_pm := p_pm d + 1\<rparr>))"

definition mei_vsc_probe :: "'w drv_env \<Rightarrow> 'w \<Rightarrow> 'w spi_drv \<Rightarrow> (int \<times> 'w spi_drv) result" where
  "mei_vsc_probe E w d =
     (case mei_vsc_dev_init (d_device_init E) (d_kzalloc_ok E) w of
        None \<Rightarrow> Inr (- ENOMEM, d)
      | Some dev \<Rightarrow>
          bindF (get_sensor_name E dev) (\<lambda>(ret, dev).
          let d = d\<lparr>p_dev := Some dev\<rparr> in
          if ret \<noteq> 0 then Inr (ret, d)
          else if d_add_gpios E \<noteq> 0 then Inr (- EBUSY, d)
          else if d_gpiod_get E ''wakeuphost'' < 0 then Inr (d_gpiod_get E ''wakeuphost'', d)
          else if d_gpiod_get E ''resetfw'' < 0 then Inr (d_gpiod_get E ''resetfw'', d)
          else
            let dev = with_hw (\<lambda>hw. hw\<lparr>v_resetfw := True\<rparr>) dev; d = d\<lparr>p_dev := Some dev\<rparr> in
            if d_gpiod_get E ''wakeupfw'' < 0 then Inr (d_gpiod_get E ''wakeupfw'', d)
            else
              let dev = with_hw (\<lambda>hw. hw\<lparr>v_wakeupfw := True\<rparr>) dev; d = d\<lparr>p_dev := Some dev\<rparr> in
              if d_gpio_irq E < 0 then Inr (d_gpio_irq E, d)
              else
                let (ret, d) = request_threaded_irq E dev d in
                if ret \<noteq> 0 then Inr (ret, d) else Inr (0, d\<lparr>p_work := True\<rparr>)))"

section \<open>Power management and removal\<close>

text \<open>The steps suspend, remove and shutdown share.\<close>

definition stop_device :: "'w drv_env \<Rightarrow> 'w mei_device \<Rightarrow> 'w spi_drv \<Rightarrow> 'w spi_drv" where
  "stop_device E dev d =
     (let dev = with_hw (\<lambda>hw. hw\<lparr>v_disconnect := True\<rparr>) dev; dev = d_mei_stop E dev;
          dev = mei_disable_interrupts (mei_vsc_hw_ops (d_core E)) dev in
      free_irq (d\<lparr>p_dev := Some dev\<rparr>))"

definition mei_vsc_suspend :: "'w drv_env \<Rightarrow> 'w spi_drv \<Rightarrow> int \<times> 'w spi_drv" where
  "mei_vsc_suspend E d = (case p_dev d of None \<Rightarrow> (- ENODEV, d) | Some dev \<Rightarrow> (0, stop_device E dev d))"

definition mei_vsc_resume :: "'w drv_env \<Rightarrow> 'w spi_drv \<Rightarrow> (int \<times> 'w spi_drv) result" where
  "mei_vsc_resume E d =
     bindF (deref (p_dev d)) (\<lambda>dev.
     let (ret, d) = request_threaded_irq E dev d in
     if ret \<noteq> 0 then Inr (ret, d)
     else
       bindF (deref (p_dev d)) (\<lambda>dev.
       let (ret, dev) = d_mei_restart E (with_hw (\<lambda>hw. hw\<lparr>v_disconnect := False\<rparr>) dev); d = d\<lparr>p_dev := Some dev\<rparr> in
       if ret \<noteq> 0 then Inr (ret, d) else Inr (0, d\<lparr>p_timer := True\<rparr>)))"

definition mei_vsc_remove :: "'w drv_env \<Rightarrow> 'w spi_drv \<Rightarrow> 'w spi_drv result" where
  "mei_vsc_remove E d =
     bindF (deref (p_dev d)) (\<lambda>dev.
     let d = stop_device E dev (d\<lparr>p_work := False, p_pm := p_pm d - 1\<rparr>) in
     Inr (d\<lparr>p_registered := False\<rparr>))"

definition mei_vsc_shutdown :: "'w drv_env \<Rightarrow> 'w spi_drv \<Rightarrow> 'w spi_drv result" where
  "mei_vsc_shutdown E d = bindF (deref (p_dev d)) (\<lambda>dev. Inr (stop_device E dev (d\<lparr>p_work := False\<rparr>)))"

section \<open>The name read from ACPI\<close>

lemma lower_name_eq:
  "lower_name bs = (if 0 \<in> set bs then Inr (map tolower (takeWhile (\<lambda>b. b \<noteq> 0) bs) @ dropWhile (\<lambda>b. b \<noteq> 0) bs) else Inl OutOfBounds)"
  by (induction bs) auto

text \<open>
  The sensor name.  With a fresh device, a name of more than 32 bytes is refused; a shorter one is
  stored in lower case up to its first NUL and padded with zeros; but a name of exactly 32 bytes without
  a NUL is accepted and then read, and written, past the end of the array.
\<close>
lemma sensor_name_outcome:
  assumes "find_cvfd_child_adev (d_children E) \<noteq> None" and "d_evaluate_SID E LINK_NUMBER = Some sid"
    and "v_cam_sensor_name (m_hw dev) = replicate 32 0"
  shows "get_sensor_name E dev =
    (if length sid > 32 then Inr (- EINVAL, dev)
     else if length sid = 32 \<and> 0 \<notin> set sid then Inl OutOfBounds
     else Inr (0, with_hw (\<lambda>hw. hw\<lparr>v_cam_sensor_name :=
        (let s = sid @ replicate (32 - length sid) 0 in
         map tolower (takeWhile (\<lambda>b. b \<noteq> 0) s) @ dropWhile (\<lambda>b. b \<noteq> 0) s)\<rparr>) dev))"
  using assms by (auto simp: get_sensor_name_def store_def lower_name_eq Let_def)

text \<open>An environment in which everything succeeds.\<close>

definition demo_drv :: "bytes list drv_env" where
  "demo_drv = \<lparr>d_core = demo_core, d_device_init = (\<lambda>dev. dev), d_kzalloc_ok = True,
     d_children = Some [[''PNP0000''], [''INTC1095'']], d_evaluate_SID = (\<lambda>n. Some [79, 86, 48, 49, 65, 49, 48, 0]),
     d_add_gpios = 0, d_gpiod_get = (\<lambda>n. 0), d_gpio_irq = 17, d_request_irq = 0, d_mei_start = Pair 0,
     d_mei_register = (\<lambda>dev. 0), d_mei_restart = Pair 0, d_mei_stop = (\<lambda>dev. dev), d_mei_cancel_work = (\<lambda>dev. dev)\<rparr>"

lemma demo_child: "find_cvfd_child_adev (d_children demo_drv) = Some [''INTC1095'']"
  by (simp add: demo_drv_def find_cvfd_child_adev_def cvfd_match_device_ids_def cvfd_ids_def)

lemma zero_name: "v_cam_sensor_name (m_hw (zero_device w)) = replicate 32 0"
  by (simp add: zero_device_def new_vsc_hw_def)

section \<open>The life of the interrupt\<close>

datatype phase = Bound | Suspended | Gone

text \<open>
  How the driver core calls the driver: the deferred work runs at any time while it is queued; suspend
  and resume alternate (a failed resume counts as resumed); remove and shutdown end it.
\<close>

inductive drv_step :: "'w drv_env \<Rightarrow> phase \<times> 'w spi_drv \<Rightarrow> phase \<times> 'w spi_drv \<Rightarrow> bool" for E where
  work: "p_work d \<Longrightarrow> mei_vsc_probe_work E d = Inr d' \<Longrightarrow> ph \<noteq> Gone \<Longrightarrow> drv_step E (ph, d) (ph, d')"
| suspend: "mei_vsc_suspend E d = (0, d') \<Longrightarrow> drv_step E (Bound, d) (Suspended, d')"
| resume: "mei_vsc_resume E d = Inr (r, d') \<Longrightarrow> drv_step E (Suspended, d) (Bound, d')"
| remove: "mei_vsc_remove E d = Inr d' \<Longrightarrow> drv_step E (Bound, d) (Gone, d')"
| shutdown: "mei_vsc_shutdown E d = Inr d' \<Longrightarrow> drv_step E (Bound, d) (Gone, d')"

definition blank_drv :: "'w spi_drv" where
  "blank_drv = \<lparr>p_dev = None, p_irq = False, p_bad_free = 0, p_work = False, p_registered = False, p_pm = 0, p_timer = False\<rparr>"

inductive drv_reach :: "'w drv_env \<Rightarrow> phase \<times> 'w spi_drv \<Rightarrow> bool" for E where
  probed: "mei_vsc_probe E w blank_drv = Inr (0, d) \<Longrightarrow> drv_reach E (Bound, d)"
| next_step: "drv_reach E s \<Longrightarrow> drv_step E s s' \<Longrightarrow> drv_reach E s'"

inductive_cases drv_stepE: "drv_step E (ph, d) (ph', d')"

definition irq_ok :: "phase \<times> 'w spi_drv \<Rightarrow> bool" where
  "irq_ok = (\<lambda>(ph, d). p_bad_free d = 0 \<and> (p_irq d \<longleftrightarrow> ph = Bound))"

lemma stop_device_irq:
  "p_irq (stop_device E dev d) = False" "p_bad_free (stop_device E dev d) = p_bad_free d + (if p_irq d then 0 else 1)"
  by (simp_all add: stop_device_def free_irq_def Let_def)

lemma request_irq_ok:
  "request_threaded_irq E dev d = (r, d') \<Longrightarrow> p_bad_free d' = p_bad_free d \<and> (r = 0 \<longrightarrow> p_irq d') \<and> (r \<noteq> 0 \<longrightarrow> d' = d) \<and> (r = 0 \<longleftrightarrow> d_request_irq E = 0)"
  by (auto simp: request_threaded_irq_def split: if_splits)

lemma probe_irq:
  assumes "mei_vsc_probe E w blank_drv = Inr (0, d)"
  shows "p_irq d \<and> p_bad_free d = 0 \<and> p_work d \<and> (\<exists>dev. p_dev d = Some dev) \<and> p_pm d = 0 \<and> \<not> p_registered d"
  using assms
  by (auto simp: mei_vsc_probe_def blank_drv_def bindF_eq_Inr request_threaded_irq_def Let_def split: option.splits if_splits)

lemma work_irq:
  assumes "mei_vsc_probe_work E d = Inr d'" and "\<And>x. fst (d_mei_start E x) = 0" and "\<And>x. d_mei_register E x = 0"
  shows "p_irq d' = p_irq d \<and> p_bad_free d' = p_bad_free d"
proof -
  obtain dev where dev: "p_dev d = Some dev" using assms(1) by (cases "p_dev d") (simp_all add: mei_vsc_probe_work_def)
  obtain dev1 where "d_mei_start E dev = (0, dev1)" using assms(2) [of dev] by (cases "d_mei_start E dev") simp
  then show ?thesis using assms(1,3) dev by (auto simp: mei_vsc_probe_work_def Let_def)
qed

lemma resume_irq:
  assumes "mei_vsc_resume E d = Inr (r, d')" and "d_request_irq E = 0"
  shows "p_irq d' \<and> p_bad_free d' = p_bad_free d"
proof -
  obtain dev where dev: "p_dev d = Some dev" using assms(1) by (cases "p_dev d") (simp_all add: mei_vsc_resume_def)
  define dev0 where "dev0 = with_hw (\<lambda>hw. hw\<lparr>v_disconnect := False\<rparr>) (with_hw (\<lambda>hw. hw\<lparr>v_irq_off := 0\<rparr>) dev)"
  obtain r1 dev1 where "d_mei_restart E dev0 = (r1, dev1)" by (cases "d_mei_restart E dev0")
  then show ?thesis using assms dev
    by (auto simp: mei_vsc_resume_def request_threaded_irq_def Let_def dev0_def [symmetric] split: if_splits)
qed


lemma demo_store:
  "store 0 [79, 86, 48, 49, 65, 49, 48, 0] (replicate 32 0) = Inr ([79, 86, 48, 49, 65, 49, 48] @ replicate 25 (0 :: u8))"
  by code_simp

lemma demo_lower:
  "lower_name (79 # 86 # 48 # 49 # 65 # 49 # 48 # replicate 25 0) = Inr ([111, 118, 48, 49, 97, 49, 48] @ replicate 25 0)"
  by code_simp

lemma demo_probe:
  assumes "E = demo_drv \<or> E = demo_drv\<lparr>d_mei_start := Pair (- ENODEV)\<rparr>"
  shows "\<exists>d. mei_vsc_probe E w blank_drv = Inr (0, d)"
proof -
  have "get_sensor_name E (zero_device w) = Inr (0, with_hw (\<lambda>hw. hw\<lparr>v_cam_sensor_name :=
      [111, 118, 48, 49, 97, 49, 48] @ replicate 25 0\<rparr>) (zero_device w))"
    using assms demo_child by (auto simp: get_sensor_name_def zero_name demo_drv_def demo_store demo_lower simp del: lower_name.simps)
  then show ?thesis using assms
    by (auto simp: mei_vsc_probe_def mei_vsc_dev_init_def request_threaded_irq_def blank_drv_def demo_drv_def Let_def)
qed


text \<open>
  C32: A failed start is cleaned up twice.  When \<open>mei_start\<close> fails in the deferred work, the work frees the
  interrupt and the driver stays bound; its removal frees the interrupt a second time and disables runtime
  power management that was never enabled.
\<close>
theorem drv_double_free:
  assumes "mei_vsc_probe E w blank_drv = Inr (0, d)" and "\<forall>x. fst (d_mei_start E x) \<noteq> 0"
  shows "\<exists>d1 d2. mei_vsc_probe_work E d = Inr d1 \<and> drv_reach E (Bound, d1) \<and> \<not> p_irq d1 \<and>
    mei_vsc_remove E d1 = Inr d2 \<and> drv_reach E (Gone, d2) \<and> p_bad_free d2 = 1 \<and> p_pm d2 = - 1"
proof -
  note p = probe_irq [OF assms(1)]
  obtain dev where dev: "p_dev d = Some dev" using p by auto
  obtain r dev1 where st: "d_mei_start E dev = (r, dev1)" "r \<noteq> 0" using assms(2) by (cases "d_mei_start E dev") (metis fst_conv)
  define d1 where "d1 = free_irq (d\<lparr>p_work := False,
    p_dev := Some (mei_disable_interrupts (mei_vsc_hw_ops (d_core E)) (d_mei_cancel_work E dev1))\<rparr>)"
  have w: "mei_vsc_probe_work E d = Inr d1" using dev st by (simp add: mei_vsc_probe_work_def d1_def Let_def)
  have d1: "\<not> p_irq d1" "p_bad_free d1 = 0" "p_dev d1 \<noteq> None" "p_pm d1 = 0" using p by (simp_all add: d1_def free_irq_def)
  have r1: "drv_reach E (Bound, d1)"
    by (rule next_step [OF probed [OF assms(1)]]) (rule work, use p w in auto)
  obtain d2 where rm: "mei_vsc_remove E d1 = Inr d2" "p_bad_free d2 = 1" "p_pm d2 = - 1"
    using d1 by (auto simp: mei_vsc_remove_def stop_device_def free_irq_def Let_def)
  have "drv_reach E (Gone, d2)" by (rule next_step [OF r1 remove [OF rm(1)]])
  then show ?thesis using w r1 d1 rm by blast
qed

theorem drv_double_free_witness:
  "\<exists>d2. drv_reach (demo_drv\<lparr>d_mei_start := Pair (- ENODEV)\<rparr>) (Gone, d2) \<and> p_bad_free d2 = 1"
proof -
  let ?E = "demo_drv\<lparr>d_mei_start := Pair (- ENODEV)\<rparr>"
  obtain d where d: "mei_vsc_probe ?E [] blank_drv = Inr (0, d)" using demo_probe by blast
  from drv_double_free [OF d] show ?thesis by auto
qed

end
