(* ===== verification/Mei_Wire.thy ===== *)
theory Mei_Wire
  imports Vsc_Prelude
begin

text \<open>
  \<^verbatim>\<open>backport-include/drivers/misc/mei/hw.h\<close>: what travels between the MEI core and the firmware.

  A packed struct is a record with a \<^emph>\<open>layout\<close>: its size, the bytes of a value and the value of the bytes.
  Layouts are built from those of integers and byte arrays by pairing, and the law of a layout (values of
  that shape and byte strings of that size correspond one to one) follows along the same lines; the
  locale \<open>layout\<close> holds what a reader and a writer of messages get from the law.  Then come the header
  in front of every message, the list of extended headers with its iterators, and the messages.
\<close>

section \<open>Layouts\<close>

record 'a codec =
  c_size :: nat
  c_enc :: "'a \<Rightarrow> bytes"
  c_dec :: "bytes \<Rightarrow> 'a"
  c_ok :: "'a \<Rightarrow> bool"

definition lawful :: "'a codec \<Rightarrow> bool" where
  "lawful c \<longleftrightarrow>
     (\<forall>x. c_ok c x \<longrightarrow> length (c_enc c x) = c_size c \<and> c_dec c (c_enc c x) = x) \<and>
     (\<forall>bs. length bs = c_size c \<longrightarrow> c_ok c (c_dec c bs) \<and> c_enc c (c_dec c bs) = bs)"

definition le_c :: "nat \<Rightarrow> 'a::len word codec" where
  "le_c n = \<lparr>c_size = n, c_enc = le_bytes n, c_dec = word_of_le, c_ok = (\<lambda>_. True)\<rparr>"

definition bytes_c :: "nat \<Rightarrow> bytes codec" where
  "bytes_c n = \<lparr>c_size = n, c_enc = (\<lambda>x. x), c_dec = (\<lambda>x. x), c_ok = (\<lambda>x. length x = n)\<rparr>"

definition pair_c :: "'a codec \<Rightarrow> 'b codec \<Rightarrow> ('a \<times> 'b) codec" where
  "pair_c a b = \<lparr>c_size = c_size a + c_size b, c_enc = (\<lambda>(x, y). c_enc a x @ c_enc b y),
     c_dec = (\<lambda>bs. (c_dec a (take (c_size a) bs), c_dec b (drop (c_size a) bs))), c_ok = (\<lambda>(x, y). c_ok a x \<and> c_ok b y)\<rparr>"

definition via_c :: "('b \<Rightarrow> 'a) \<Rightarrow> ('a \<Rightarrow> 'b) \<Rightarrow> 'a codec \<Rightarrow> 'b codec" where
  "via_c g f c = \<lparr>c_size = c_size c, c_enc = c_enc c \<circ> g, c_dec = f \<circ> c_dec c, c_ok = c_ok c \<circ> g\<rparr>"

named_theorems lawful_intros "laws of layouts, from the parts to the whole"

lemma le_lawful [lawful_intros]: "LENGTH('a) = 8 * n \<Longrightarrow> lawful (le_c n :: 'a::len word codec)"
  by (simp add: lawful_def le_c_def word_of_le_le_bytes le_bytes_word_of_le)

lemma bytes_lawful [lawful_intros]: "lawful (bytes_c n)"
  by (simp add: lawful_def bytes_c_def)

lemma pair_lawful [lawful_intros]: "lawful a \<Longrightarrow> lawful b \<Longrightarrow> lawful (pair_c a b)"
  by (auto simp: lawful_def pair_c_def)

lemma via_lawful [lawful_intros]:
  "lawful c \<Longrightarrow> (\<And>x. f (g x) = x) \<Longrightarrow> (\<And>y. g (f y) = y) \<Longrightarrow> lawful (via_c g f c)"
  by (simp add: lawful_def via_c_def)

lemma codec_size [simp]:
  "c_size (le_c n) = n" "c_size (bytes_c n) = n" "c_size (pair_c a b) = c_size a + c_size b" "c_size (via_c g f c) = c_size c"
  by (simp_all add: le_c_def bytes_c_def pair_c_def via_c_def)

lemma codec_ok [simp]:
  "c_ok (le_c n) w" "c_ok (bytes_c n) bs \<longleftrightarrow> length bs = n" "c_ok (pair_c a b) (x, y) \<longleftrightarrow> c_ok a x \<and> c_ok b y"
  "c_ok (via_c g f c) z \<longleftrightarrow> c_ok c (g z)"
  by (simp_all add: le_c_def bytes_c_def pair_c_def via_c_def)

text \<open>What reading and writing through a layout means for a buffer.\<close>

locale layout =
  fixes c :: "'a codec"
  assumes law: "lawful c"
begin

lemma size_enc: "c_ok c x \<Longrightarrow> length (c_enc c x) = c_size c"
  using law by (simp add: lawful_def)

lemma dec_enc: "c_ok c x \<Longrightarrow> c_dec c (c_enc c x) = x"
  using law by (simp add: lawful_def)

lemma enc_dec: "length bs = c_size c \<Longrightarrow> c_enc c (c_dec c bs) = bs"
  using law by (simp add: lawful_def)

lemma enc_inj: "c_ok c x \<Longrightarrow> c_ok c y \<Longrightarrow> c_enc c x = c_enc c y \<longleftrightarrow> x = y"
  using dec_enc by metis

text \<open>A value stored at an offset is read back there, and the rest of the buffer is kept.\<close>

lemma store_read:
  assumes "c_ok c x" and "store off (c_enc c x) buf = Inr buf'"
  shows "bindF (load off (c_size c) buf') (\<lambda>bs. Inr (c_dec c bs)) = Inr x \<and>
    take off buf' = take off buf \<and> drop (off + c_size c) buf' = drop (off + c_size c) buf"
  using load_store_same [OF assms(2)] assms size_enc [OF assms(1)] by (auto simp: dec_enc store_eq_Inr)

lemma read_front: "c_ok c x \<Longrightarrow> c_dec c (take (c_size c) (c_enc c x @ rest)) = x"
  by (simp add: size_enc dec_enc)

end

section \<open>The message header\<close>

text \<open>\<open>struct mei_msg_hdr\<close>: eight bit fields in one 32-bit word, the first in the lowest bits.\<close>

record mei_msg_hdr =
  me_addr :: u8
  host_addr :: u8
  msg_len :: "9 word"
  reserved :: "3 word"
  extended :: "1 word"
  dma_ring :: "1 word"
  internal :: "1 word"
  msg_complete :: "1 word"

definition msg_hdr_word :: "mei_msg_hdr \<Rightarrow> u32" where
  "msg_hdr_word h =
     ucast (me_addr h) OR push_bit 8 (ucast (host_addr h)) OR push_bit 16 (ucast (msg_len h)) OR
     push_bit 25 (ucast (reserved h)) OR push_bit 28 (ucast (extended h)) OR push_bit 29 (ucast (dma_ring h)) OR
     push_bit 30 (ucast (internal h)) OR push_bit 31 (ucast (msg_complete h))"

definition msg_hdr_of :: "u32 \<Rightarrow> mei_msg_hdr" where
  "msg_hdr_of w =
     \<lparr>me_addr = ucast w, host_addr = ucast (drop_bit 8 w), msg_len = ucast (drop_bit 16 w),
      reserved = ucast (drop_bit 25 w), extended = ucast (drop_bit 28 w), dma_ring = ucast (drop_bit 29 w),
      internal = ucast (drop_bit 30 w), msg_complete = ucast (drop_bit 31 w)\<rparr>"

lemma no_bit: "LENGTH('a) \<le> k \<Longrightarrow> \<not> bit (w :: 'a::len word) k"
  using bit_imp_le_length leD by blast

lemma bit_msg_hdr_word:
  "bit (msg_hdr_word h) k \<longleftrightarrow>
     (if k < 8 then bit (me_addr h) k else if k < 16 then bit (host_addr h) (k - 8)
      else if k < 25 then bit (msg_len h) (k - 16) else if k < 28 then bit (reserved h) (k - 25)
      else if k = 28 then bit (extended h) 0 else if k = 29 then bit (dma_ring h) 0
      else if k = 30 then bit (internal h) 0 else k = 31 \<and> bit (msg_complete h) 0)"
proof -
  consider "k < 8" | "8 \<le> k" "k < 16" | "16 \<le> k" "k < 25" | "25 \<le> k" "k < 28" | "k = 28" | "k = 29" | "k = 30" | "k = 31" | "32 \<le> k"
    by linarith
  then show ?thesis
    by cases (simp_all add: msg_hdr_word_def bit_or_iff bit_push_bit_iff bit_ucast_iff no_bit, auto)
qed

lemma msg_hdr_fields:
  "ucast (msg_hdr_word h) = me_addr h" "ucast (drop_bit 8 (msg_hdr_word h)) = host_addr h"
  "ucast (drop_bit 16 (msg_hdr_word h)) = msg_len h" "ucast (drop_bit 25 (msg_hdr_word h)) = reserved h"
  "ucast (drop_bit 28 (msg_hdr_word h)) = extended h" "ucast (drop_bit 29 (msg_hdr_word h)) = dma_ring h"
  "ucast (drop_bit 30 (msg_hdr_word h)) = internal h" "ucast (drop_bit 31 (msg_hdr_word h)) = msg_complete h"
  by (rule bit_word_eqI, simp add: bit_ucast_iff bit_drop_bit_eq bit_msg_hdr_word)+

lemma msg_hdr_of_word [simp]: "msg_hdr_of (msg_hdr_word h) = h"
  by (simp add: msg_hdr_of_def msg_hdr_fields)

lemma msg_hdr_word_of [simp]: "msg_hdr_word (msg_hdr_of w) = w"
proof (rule bit_word_eqI)
  fix k assume "k < LENGTH(32)"
  then consider "k < 28" | "k = 28" | "k = 29" | "k = 30" | "k = 31" by force
  then show "bit (msg_hdr_word (msg_hdr_of w)) k = bit w k"
    by cases (auto simp: bit_msg_hdr_word msg_hdr_of_def bit_ucast_iff bit_drop_bit_eq)
qed

text \<open>As bytes: a header without extension.\<close>

definition msg_hdr_c :: "mei_msg_hdr codec" where
  "msg_hdr_c = via_c msg_hdr_word msg_hdr_of (le_c 4)"

interpretation msg_hdr: layout msg_hdr_c
  by unfold_locales (auto simp: msg_hdr_c_def intro!: lawful_intros)

section \<open>Extended headers\<close>

text \<open>
  A list of extended headers in a buffer; pointers are offsets into it.  The shape of a header changed with
  kernel 5.14, and with it the step to the next one: \<open>pre514\<close> stands for
  \<^verbatim>\<open>LINUX_VERSION_CODE < KERNEL_VERSION(5, 14, 0)\<close>.
\<close>

record mei_ext_hdr =
  ext_type :: u8
  ext_length :: u8
  ext_payload :: bytes

definition ext_hdr_c :: "bool \<Rightarrow> mei_ext_hdr codec" where
  "ext_hdr_c pre514 =
     via_c (\<lambda>x. (ext_type x, ext_length x, ext_payload x)) (\<lambda>(t, l, p). mei_ext_hdr.make t l p)
       (pair_c (le_c 1) (pair_c (le_c 1) (bytes_c (if pre514 then 2 else 0))))"

record mei_ext_meta_hdr =
  meta_count :: u8
  meta_size :: u8
  meta_reserved :: bytes

definition ext_meta_hdr_c :: "mei_ext_meta_hdr codec" where
  "ext_meta_hdr_c =
     via_c (\<lambda>x. (meta_count x, meta_size x, meta_reserved x)) (\<lambda>(c, s, r). mei_ext_meta_hdr.make c s r)
       (pair_c (le_c 1) (pair_c (le_c 1) (bytes_c 2)))"

definition mei_ext_begin :: "nat \<Rightarrow> nat" where
  "mei_ext_begin meta = meta + c_size ext_meta_hdr_c"

definition mei_ext_last :: "bytes \<Rightarrow> nat \<Rightarrow> nat \<Rightarrow> bool result" where
  "mei_ext_last buf meta ext =
     bindF (get_le (meta + 1) 1 buf) (\<lambda>size :: u8. Inr (ext \<ge> meta + c_size ext_meta_hdr_c + unat size * 4))"

definition mei_ext_next :: "bool \<Rightarrow> bytes \<Rightarrow> nat \<Rightarrow> nat result" where
  "mei_ext_next pre514 buf ext =
     bindF (get_le (ext + 1) 1 buf) (\<lambda>len :: u8.
     Inr (if pre514 then ext + c_size (ext_hdr_c True) + unat len * 4 else ext + unat len * 4))"

definition mei_ext_hdr_len :: "mei_ext_hdr option \<Rightarrow> u32" where
  "mei_ext_hdr_len ext = (case ext of None \<Rightarrow> 0 | Some e \<Rightarrow> ucast (ext_length e) * 4)"

interpretation ext_hdr: layout "ext_hdr_c pre514" for pre514
  by unfold_locales (auto simp: ext_hdr_c_def mei_ext_hdr.make_def intro!: lawful_intros)

interpretation ext_meta: layout ext_meta_hdr_c
  by unfold_locales (auto simp: ext_meta_hdr_c_def mei_ext_meta_hdr.make_def intro!: lawful_intros)

text \<open>The headers with a fixed content.\<close>

record mei_ext_hdr_vtag =
  vt_hdr :: mei_ext_hdr
  vt_vtag :: u8
  vt_reserved :: u8

definition vtag_c :: "mei_ext_hdr_vtag codec" where
  "vtag_c =
     via_c (\<lambda>x. (vt_hdr x, vt_vtag x, vt_reserved x)) (\<lambda>(h, v, r). mei_ext_hdr_vtag.make h v r)
       (pair_c (ext_hdr_c False) (pair_c (le_c 1) (le_c 1)))"

record mei_ext_hdr_gsc_h2f =
  h2f_hdr :: mei_ext_hdr
  h2f_client_id :: u8
  h2f_addr_type :: u8
  h2f_fence_id :: u32
  h2f_input_count :: u8
  h2f_output_count :: u8
  h2f_reserved :: bytes

definition gsc_h2f_c :: "mei_ext_hdr_gsc_h2f codec" where
  "gsc_h2f_c =
     via_c (\<lambda>x. (h2f_hdr x, h2f_client_id x, h2f_addr_type x, h2f_fence_id x, h2f_input_count x, h2f_output_count x, h2f_reserved x))
       (\<lambda>(h, c, a, f, i, n, r). mei_ext_hdr_gsc_h2f.make h c a f i n r)
       (pair_c (ext_hdr_c False) (pair_c (le_c 1) (pair_c (le_c 1) (pair_c (le_c 4) (pair_c (le_c 1) (pair_c (le_c 1) (bytes_c 2)))))))"

record mei_gsc_sgl =
  sgl_low :: u32
  sgl_high :: u32
  sgl_length :: u32

definition gsc_sgl_c :: "mei_gsc_sgl codec" where
  "gsc_sgl_c = via_c (\<lambda>x. (sgl_low x, sgl_high x, sgl_length x)) (\<lambda>(l, h, n). mei_gsc_sgl.make l h n)
     (pair_c (le_c 4) (pair_c (le_c 4) (le_c 4)))"

record mei_ext_hdr_gsc_f2h =
  f2h_hdr :: mei_ext_hdr
  f2h_client_id :: u8
  f2h_reserved :: u8
  f2h_fence_id :: u32
  f2h_written :: u32

definition gsc_f2h_c :: "mei_ext_hdr_gsc_f2h codec" where
  "gsc_f2h_c =
     via_c (\<lambda>x. (f2h_hdr x, f2h_client_id x, f2h_reserved x, f2h_fence_id x, f2h_written x))
       (\<lambda>(h, c, r, f, w). mei_ext_hdr_gsc_f2h.make h c r f w)
       (pair_c (ext_hdr_c False) (pair_c (le_c 1) (pair_c (le_c 1) (pair_c (le_c 4) (le_c 4)))))"

interpretation vtag: layout vtag_c
  by unfold_locales (auto simp: vtag_c_def mei_ext_hdr_vtag.make_def ext_hdr_c_def mei_ext_hdr.make_def intro!: lawful_intros)

interpretation gsc_sgl: layout gsc_sgl_c
  by unfold_locales (auto simp: gsc_sgl_c_def mei_gsc_sgl.make_def intro!: lawful_intros)

interpretation gsc_h2f: layout gsc_h2f_c
  by unfold_locales (auto simp: gsc_h2f_c_def mei_ext_hdr_gsc_h2f.make_def ext_hdr_c_def mei_ext_hdr.make_def intro!: lawful_intros)

interpretation gsc_f2h: layout gsc_f2h_c
  by unfold_locales (auto simp: gsc_f2h_c_def mei_ext_hdr_gsc_f2h.make_def ext_hdr_c_def mei_ext_hdr.make_def intro!: lawful_intros)

section \<open>Walking the list\<close>

text \<open>
  The header file asks its users to call \<open>mei_ext_last\<close> before \<open>mei_ext_next\<close>.  A walk under that rule
  collects the headers it meets; \<open>None\<close> is a walk that does not end.
\<close>

partial_function (option) ext_walk :: "bool \<Rightarrow> bytes \<Rightarrow> nat \<Rightarrow> nat \<Rightarrow> nat list result option" where
  [code]: "ext_walk pre514 buf meta ext =
     (case mei_ext_last buf meta ext of
        Inl e \<Rightarrow> Some (Inl e)
      | Inr done_ \<Rightarrow>
          if done_ then Some (Inr [])
          else case mei_ext_next pre514 buf ext of
            Inl e \<Rightarrow> Some (Inl e)
          | Inr ext' \<Rightarrow>
              Option.bind (ext_walk pre514 buf meta ext') (\<lambda>r. Some (bindF r (\<lambda>hs. Inr (ext # hs)))))"

text \<open>The positions the iterators lead to, and the end of the list.\<close>

inductive ext_from :: "bool \<Rightarrow> bytes \<Rightarrow> nat \<Rightarrow> nat \<Rightarrow> nat \<Rightarrow> bool" for pre514 buf meta where
  start: "ext_from pre514 buf meta p p"
| step: "mei_ext_last buf meta p = Inr False \<Longrightarrow> mei_ext_next pre514 buf p = Inr q \<Longrightarrow> ext_from pre514 buf meta q r \<Longrightarrow>
         ext_from pre514 buf meta p r"

definition ext_end :: "bytes \<Rightarrow> nat \<Rightarrow> nat" where
  "ext_end buf meta = meta + 4 + 4 * unat (buf ! (meta + 1))"

definition ext_step :: "bool \<Rightarrow> bytes \<Rightarrow> nat \<Rightarrow> nat" where
  "ext_step pre514 buf p = unat (buf ! (p + 1)) + (if pre514 then 1 else 0)"

lemma get_byte: "i < length buf \<Longrightarrow> get_le i (Suc 0) buf = Inr (buf ! i)"
  by (simp add: get_le_def load_def Cons_nth_drop_Suc [symmetric])

lemma ext_sizes [simp]: "c_size ext_meta_hdr_c = 4" "c_size (ext_hdr_c pre514) = (if pre514 then 4 else 2)"
  by (simp_all add: ext_meta_hdr_c_def ext_hdr_c_def)

text \<open>For a list that lies in the buffer, both iterators are defined, and keep the positions aligned.\<close>

abbreviation "hd_pos meta j \<equiv> meta + 4 + 4 * j"

lemma last_eq:
  assumes "ext_end buf meta \<le> length buf"
  shows "mei_ext_last buf meta p = Inr (ext_end buf meta \<le> p)"
proof -
  have "meta + 1 < length buf" using assms by (simp add: ext_end_def)
  then show ?thesis by (simp add: mei_ext_last_def get_byte ext_end_def mult.commute)
qed

lemma next_eq:
  assumes "ext_end buf meta \<le> length buf" and "hd_pos meta j < ext_end buf meta"
  shows "mei_ext_next pre514 buf (hd_pos meta j) = Inr (hd_pos meta (j + ext_step pre514 buf (hd_pos meta j)))"
proof -
  have "hd_pos meta j + 1 < length buf" using assms by (simp add: ext_end_def)
  then show ?thesis by (simp add: mei_ext_next_def get_byte ext_step_def algebra_simps)
qed

lemma walk_eq:
  assumes "ext_end buf meta \<le> length buf"
  shows "ext_walk pre514 buf meta (hd_pos meta j) =
     (if ext_end buf meta \<le> hd_pos meta j then Some (Inr [])
      else Option.bind (ext_walk pre514 buf meta (hd_pos meta (j + ext_step pre514 buf (hd_pos meta j)))) (\<lambda>r. Some (bindF r (\<lambda>hs. Inr (hd_pos meta j # hs)))))"
  by (subst ext_walk.simps) (simp add: last_eq [OF assms] next_eq [OF assms])

lemma from_eq:
  assumes "ext_end buf meta \<le> length buf"
  shows "ext_from pre514 buf meta (hd_pos meta j) p \<longleftrightarrow>
     p = hd_pos meta j \<or> (hd_pos meta j < ext_end buf meta \<and> ext_from pre514 buf meta (hd_pos meta (j + ext_step pre514 buf (hd_pos meta j))) p)"
  by (subst ext_from.simps) (auto simp: last_eq [OF assms] next_eq [OF assms])

lemma walk_ends:
  assumes inside: "ext_end buf meta \<le> length buf"
    and "\<forall>p. ext_from pre514 buf meta (hd_pos meta j) p \<and> p < ext_end buf meta \<longrightarrow> 0 < ext_step pre514 buf p"
  shows "\<exists>hs. ext_walk pre514 buf meta (hd_pos meta j) = Some (Inr hs) \<and> sorted_wrt (<) hs \<and>
    set hs = {p. ext_from pre514 buf meta (hd_pos meta j) p \<and> p < ext_end buf meta} \<and> 4 * length hs \<le> ext_end buf meta - hd_pos meta j \<and>
    (\<forall>p \<in> set hs. hd_pos meta j \<le> p)"
  using assms(2)
proof (induction "ext_end buf meta - hd_pos meta j" arbitrary: j rule: less_induct)
  case less
  show ?case
  proof (cases "ext_end buf meta \<le> hd_pos meta j")
    case True
    then have "{p. ext_from pre514 buf meta (hd_pos meta j) p \<and> p < ext_end buf meta} = {}" by (auto simp: from_eq [OF inside, of _ j])
    then show ?thesis using True by (simp add: walk_eq [OF inside])
  next
    case False
    let ?j = "j + ext_step pre514 buf (hd_pos meta j)"
    have pos: "0 < ext_step pre514 buf (hd_pos meta j)" using less.prems False by (auto simp: from_eq [OF inside, of _ j])
    have "\<forall>p. ext_from pre514 buf meta (hd_pos meta ?j) p \<and> p < ext_end buf meta \<longrightarrow> 0 < ext_step pre514 buf p"
      using less.prems False by (simp add: from_eq [OF inside, of _ j])
    moreover have "ext_end buf meta - hd_pos meta ?j < ext_end buf meta - hd_pos meta j" using pos False by simp
    ultimately obtain hs where hs: "ext_walk pre514 buf meta (hd_pos meta ?j) = Some (Inr hs)" "sorted_wrt (<) hs"
      "set hs = {p. ext_from pre514 buf meta (hd_pos meta ?j) p \<and> p < ext_end buf meta}" "4 * length hs \<le> ext_end buf meta - hd_pos meta ?j"
      "\<forall>p \<in> set hs. hd_pos meta ?j \<le> p"
      using less.hyps by blast
    have "ext_from pre514 buf meta (hd_pos meta j) p \<and> p < ext_end buf meta \<longleftrightarrow>
        p = hd_pos meta j \<or> ext_from pre514 buf meta (hd_pos meta ?j) p \<and> p < ext_end buf meta" for p
      using False from_eq [OF inside, of _ j p] by force
    then have "set (hd_pos meta j # hs) = {p. ext_from pre514 buf meta (hd_pos meta j) p \<and> p < ext_end buf meta}"
      unfolding list.set hs(3) by blast
    moreover have "ext_walk pre514 buf meta (hd_pos meta j) = Some (Inr (hd_pos meta j # hs))"
      using hs(1) False by (subst walk_eq [OF inside]) simp
    moreover have "hd_pos meta j < hd_pos meta ?j" using pos by simp
    then have "\<forall>p \<in> set hs. hd_pos meta j < p" using hs(5) by fastforce
    then have "sorted_wrt (<) (hd_pos meta j # hs)" "\<forall>p \<in> set (hd_pos meta j # hs). hd_pos meta j \<le> p" using hs(2) by auto
    moreover have "4 * length (hd_pos meta j # hs) \<le> ext_end buf meta - hd_pos meta j" using hs(4) \<open>hd_pos meta j < hd_pos meta ?j\<close> False pos
      by (simp add: ext_end_def)
    ultimately show ?thesis by blast
  qed
qed

lemma walk_moves:
  assumes inside: "ext_end buf meta \<le> length buf"
    and walk: "ext_walk pre514 buf meta (hd_pos meta j) = Some r"
  shows "\<forall>p. ext_from pre514 buf meta (hd_pos meta j) p \<and> p < ext_end buf meta \<longrightarrow> 0 < ext_step pre514 buf p"
proof -
  define moves where "moves q \<longleftrightarrow> (\<forall>p. ext_from pre514 buf meta q p \<and> p < ext_end buf meta \<longrightarrow> 0 < ext_step pre514 buf p)" for q
  have "\<forall>i. (pre514, buf, meta, hd_pos meta j) = (pre514, buf, meta, hd_pos meta i) \<longrightarrow> moves (hd_pos meta i)"
  proof (rule ext_walk.raw_induct [where P = "\<lambda>o' b' m' q r. \<forall>i. (o', b', m', q) = (pre514, buf, meta, hd_pos meta i) \<longrightarrow> moves (hd_pos meta i)"])
    fix f o' b' m' q r
    assume IH: "\<And>o' b' m' q r. f o' b' m' q = Some r \<Longrightarrow> \<forall>i. (o', b', m', q) = (pre514, buf, meta, hd_pos meta i) \<longrightarrow> moves (hd_pos meta i)"
      and body: "(case mei_ext_last b' m' q of Inl e \<Rightarrow> Some (Inl e)
        | Inr done_ \<Rightarrow> if done_ then Some (Inr []) else case mei_ext_next o' b' q of Inl e \<Rightarrow> Some (Inl e)
          | Inr ext' \<Rightarrow> Option.bind (f o' b' m' ext') (\<lambda>r. Some (bindF r (\<lambda>hs. Inr (q # hs))))) = Some r"
    have "moves (hd_pos meta i)" if q: "(o', b', m', q) = (pre514, buf, meta, hd_pos meta i)" for i
    proof (cases "ext_end buf meta \<le> hd_pos meta i")
      case True
      then show ?thesis unfolding moves_def by (auto simp: from_eq [OF inside, of _ i])
    next
      case False
      let ?j = "i + ext_step pre514 buf (hd_pos meta i)"
      obtain r' where "f pre514 buf meta (hd_pos meta ?j) = Some r'"
        using body q False by (auto simp: last_eq [OF inside] next_eq [OF inside] bind_eq_Some_conv)
      then have go: "moves (hd_pos meta ?j)" using IH by blast
      have "0 < ext_step pre514 buf (hd_pos meta i)"
      proof (rule ccontr)
        assume z: "\<not> ?thesis"
        then have "moves (hd_pos meta i)" using go by simp
        then show False using z False unfolding moves_def by (auto simp: from_eq [OF inside, of _ i])
      qed
      then show ?thesis using go unfolding moves_def by (auto simp: from_eq [OF inside, of _ i])
    qed
    then show "\<forall>i. (o', b', m', q) = (pre514, buf, meta, hd_pos meta i) \<longrightarrow> moves (hd_pos meta i)" by blast
  qed (rule walk)
  then show ?thesis by (simp add: moves_def)
qed


text \<open>A list of one header of length 0: the walk ends before 5.14 and does not end since.\<close>

definition demo_ext :: bytes where
  "demo_ext = [1, 1, 0, 0, 1, 0, 0, 0]"


end
