(* ===== verification/Mei_Hbm.thy ===== *)
theory Mei_Hbm
  imports Mei_Wire
begin

text \<open>
  The host bus messages of \<^verbatim>\<open>backport-include/drivers/misc/mei/hw.h\<close>, with which the MEI core and the
  firmware manage the bus itself: version, enumeration, client properties, connection, flow control,
  notification, power gating, DMA.  Every packed struct is a record with its layout; the law of the layout is
  an interpretation of \<open>layout\<close>, and its size is the \<open>sizeof\<close> of the struct.  The command numbers come
  first, with the status numbers of the answers.
\<close>

section \<open>Commands\<close>

datatype hbm_request =
    HOST_START | HOST_STOP | HOST_ENUM | HOST_CLIENT_PROPERTIES | CLIENT_CONNECT | CLIENT_DISCONNECT
  | PG_ISOLATION_ENTRY | PG_ISOLATION_EXIT | ADD_CLIENT | NOTIFY | DMA_SETUP | CAPABILITIES | CLIENT_DMA_MAP
  | CLIENT_DMA_UNMAP

datatype hbm_command = REQ hbm_request | RES hbm_request | ME_STOP_REQ | FLOW_CONTROL | NOTIFICATION_EVENT

abbreviation MEI_HBM_CMD_OP_MSK :: u8 where "MEI_HBM_CMD_OP_MSK \<equiv> 0x7f"
abbreviation MEI_HBM_CMD_RES_MSK :: u8 where "MEI_HBM_CMD_RES_MSK \<equiv> 0x80"

fun hbm_req_cmd :: "hbm_request \<Rightarrow> u8" where
  "hbm_req_cmd HOST_START = 0x01"
| "hbm_req_cmd HOST_STOP = 0x02"
| "hbm_req_cmd HOST_ENUM = 0x04"
| "hbm_req_cmd HOST_CLIENT_PROPERTIES = 0x05"
| "hbm_req_cmd CLIENT_CONNECT = 0x06"
| "hbm_req_cmd CLIENT_DISCONNECT = 0x07"
| "hbm_req_cmd PG_ISOLATION_ENTRY = 0x0a"
| "hbm_req_cmd PG_ISOLATION_EXIT = 0x0b"
| "hbm_req_cmd ADD_CLIENT = 0x0f"
| "hbm_req_cmd NOTIFY = 0x10"
| "hbm_req_cmd DMA_SETUP = 0x12"
| "hbm_req_cmd CAPABILITIES = 0x13"
| "hbm_req_cmd CLIENT_DMA_MAP = 0x14"
| "hbm_req_cmd CLIENT_DMA_UNMAP = 0x15"

fun hbm_res_cmd :: "hbm_request \<Rightarrow> u8" where
  "hbm_res_cmd HOST_START = 0x81"
| "hbm_res_cmd HOST_STOP = 0x82"
| "hbm_res_cmd HOST_ENUM = 0x84"
| "hbm_res_cmd HOST_CLIENT_PROPERTIES = 0x85"
| "hbm_res_cmd CLIENT_CONNECT = 0x86"
| "hbm_res_cmd CLIENT_DISCONNECT = 0x87"
| "hbm_res_cmd PG_ISOLATION_ENTRY = 0x8a"
| "hbm_res_cmd PG_ISOLATION_EXIT = 0x8b"
| "hbm_res_cmd ADD_CLIENT = 0x8f"
| "hbm_res_cmd NOTIFY = 0x90"
| "hbm_res_cmd DMA_SETUP = 0x92"
| "hbm_res_cmd CAPABILITIES = 0x93"
| "hbm_res_cmd CLIENT_DMA_MAP = 0x94"
| "hbm_res_cmd CLIENT_DMA_UNMAP = 0x95"

definition hbm_cmd_code :: "hbm_command \<Rightarrow> u8" where
  "hbm_cmd_code c = (case c of REQ r \<Rightarrow> hbm_req_cmd r | RES r \<Rightarrow> hbm_res_cmd r
     | ME_STOP_REQ \<Rightarrow> 0x03 | FLOW_CONTROL \<Rightarrow> 0x08 | NOTIFICATION_EVENT \<Rightarrow> 0x11)"

text \<open>The two masks split a command number: the response of a request is the request with the response bit.\<close>

lemma hbm_cmd_split:
  "hbm_res_cmd r = hbm_req_cmd r OR MEI_HBM_CMD_RES_MSK" "hbm_res_cmd r AND MEI_HBM_CMD_OP_MSK = hbm_req_cmd r"
  "hbm_req_cmd r AND MEI_HBM_CMD_RES_MSK = 0"
  by (cases r; simp)+

lemma hbm_req_inj: "hbm_req_cmd a = hbm_req_cmd b \<longleftrightarrow> a = b"
  by (cases a; cases b) simp_all

lemma hbm_cmd_inj: "hbm_cmd_code a = hbm_cmd_code b \<longleftrightarrow> a = b"
proof -
  have "hbm_req_cmd r \<notin> {0x03, 0x08, 0x11}" "hbm_res_cmd r \<notin> {0x03, 0x08, 0x11}" for r by (cases r; simp)+
  moreover have "hbm_req_cmd r \<noteq> hbm_res_cmd s" for r s
    using hbm_cmd_split(3) [of r] hbm_cmd_split(1) [of s] by (cases s) auto
  moreover have "hbm_res_cmd r = hbm_res_cmd s \<longleftrightarrow> r = s" for r s
    using hbm_cmd_split(2) [of r] hbm_cmd_split(2) [of s] hbm_req_inj [of r s] by metis
  ultimately show ?thesis
    by (cases a; cases b) (auto simp: hbm_cmd_code_def hbm_req_inj, metis+)
qed

datatype mei_stop_reason_types =
    DRIVER_STOP_REQUEST | DEVICE_D1_ENTRY | DEVICE_D2_ENTRY | DEVICE_D3_ENTRY | SYSTEM_S1_ENTRY | SYSTEM_S2_ENTRY
  | SYSTEM_S3_ENTRY | SYSTEM_S4_ENTRY | SYSTEM_S5_ENTRY

datatype mei_hbm_status =
    MEI_HBMS_SUCCESS | MEI_HBMS_CLIENT_NOT_FOUND | MEI_HBMS_ALREADY_EXISTS | MEI_HBMS_REJECTED
  | MEI_HBMS_INVALID_PARAMETER | MEI_HBMS_NOT_ALLOWED | MEI_HBMS_ALREADY_STARTED | MEI_HBMS_NOT_STARTED

fun hbm_status_code :: "mei_hbm_status \<Rightarrow> u8" where
  "hbm_status_code MEI_HBMS_SUCCESS = 0"
| "hbm_status_code MEI_HBMS_CLIENT_NOT_FOUND = 1"
| "hbm_status_code MEI_HBMS_ALREADY_EXISTS = 2"
| "hbm_status_code MEI_HBMS_REJECTED = 3"
| "hbm_status_code MEI_HBMS_INVALID_PARAMETER = 4"
| "hbm_status_code MEI_HBMS_NOT_ALLOWED = 5"
| "hbm_status_code MEI_HBMS_ALREADY_STARTED = 6"
| "hbm_status_code MEI_HBMS_NOT_STARTED = 7"

datatype mei_cl_connect_status =
    MEI_CL_CONN_SUCCESS | MEI_CL_CONN_NOT_FOUND | MEI_CL_CONN_ALREADY_STARTED | MEI_CL_CONN_OUT_OF_RESOURCES
  | MEI_CL_CONN_MESSAGE_SMALL | MEI_CL_CONN_NOT_ALLOWED

fun connect_status :: "mei_cl_connect_status \<Rightarrow> mei_hbm_status" where
  "connect_status MEI_CL_CONN_SUCCESS = MEI_HBMS_SUCCESS"
| "connect_status MEI_CL_CONN_NOT_FOUND = MEI_HBMS_CLIENT_NOT_FOUND"
| "connect_status MEI_CL_CONN_ALREADY_STARTED = MEI_HBMS_ALREADY_EXISTS"
| "connect_status MEI_CL_CONN_OUT_OF_RESOURCES = MEI_HBMS_REJECTED"
| "connect_status MEI_CL_CONN_MESSAGE_SMALL = MEI_HBMS_INVALID_PARAMETER"
| "connect_status MEI_CL_CONN_NOT_ALLOWED = MEI_HBMS_NOT_ALLOWED"

section \<open>Messages\<close>

record hbm_cl_cmd =
  cc_hbm_cmd :: u8
  cc_me_addr :: u8
  cc_host_addr :: u8
  cc_data :: u8

definition hbm_cl_cmd_c :: "hbm_cl_cmd codec" where
  "hbm_cl_cmd_c =
     via_c (\<lambda>x. (cc_hbm_cmd x, cc_me_addr x, cc_host_addr x, cc_data x))
       (\<lambda>(a, b, c, d). hbm_cl_cmd.make a b c d)
       (pair_c (le_c 1) (pair_c (le_c 1) (pair_c (le_c 1) (le_c 1))))"

interpretation hbm_cl_cmd: layout hbm_cl_cmd_c
  by unfold_locales (auto simp: hbm_cl_cmd_c_def hbm_cl_cmd.make_def intro!: lawful_intros)

record hbm_version =
  hv_minor_version :: u8
  hv_major_version :: u8

definition hbm_version_c :: "hbm_version codec" where
  "hbm_version_c =
     via_c (\<lambda>x. (hv_minor_version x, hv_major_version x))
       (\<lambda>(a, b). hbm_version.make a b)
       (pair_c (le_c 1) (le_c 1))"

interpretation hbm_version: layout hbm_version_c
  by unfold_locales (auto simp: hbm_version_c_def hbm_version.make_def intro!: lawful_intros)

record hbm_host_version_request =
  hvq_hbm_cmd :: u8
  hvq_reserved :: u8
  hvq_host_version :: hbm_version

definition hbm_host_version_request_c :: "hbm_host_version_request codec" where
  "hbm_host_version_request_c =
     via_c (\<lambda>x. (hvq_hbm_cmd x, hvq_reserved x, hvq_host_version x))
       (\<lambda>(a, b, c). hbm_host_version_request.make a b c)
       (pair_c (le_c 1) (pair_c (le_c 1) hbm_version_c))"

interpretation hbm_host_version_request: layout hbm_host_version_request_c
  by unfold_locales (auto simp: hbm_host_version_request_c_def hbm_host_version_request.make_def intro!: lawful_intros hbm_version.law)

record hbm_host_version_response =
  hvp_hbm_cmd :: u8
  hvp_supported :: u8
  hvp_me_max_version :: hbm_version

definition hbm_host_version_response_c :: "hbm_host_version_response codec" where
  "hbm_host_version_response_c =
     via_c (\<lambda>x. (hvp_hbm_cmd x, hvp_supported x, hvp_me_max_version x))
       (\<lambda>(a, b, c). hbm_host_version_response.make a b c)
       (pair_c (le_c 1) (pair_c (le_c 1) hbm_version_c))"

interpretation hbm_host_version_response: layout hbm_host_version_response_c
  by unfold_locales (auto simp: hbm_host_version_response_c_def hbm_host_version_response.make_def intro!: lawful_intros hbm_version.law)

record hbm_host_stop_request =
  hsq_hbm_cmd :: u8
  hsq_reason :: u8
  hsq_reserved :: bytes

definition hbm_host_stop_request_c :: "hbm_host_stop_request codec" where
  "hbm_host_stop_request_c =
     via_c (\<lambda>x. (hsq_hbm_cmd x, hsq_reason x, hsq_reserved x))
       (\<lambda>(a, b, c). hbm_host_stop_request.make a b c)
       (pair_c (le_c 1) (pair_c (le_c 1) (bytes_c 2)))"

interpretation hbm_host_stop_request: layout hbm_host_stop_request_c
  by unfold_locales (auto simp: hbm_host_stop_request_c_def hbm_host_stop_request.make_def intro!: lawful_intros)

record hbm_host_stop_response =
  hsp_hbm_cmd :: u8
  hsp_reserved :: bytes

definition hbm_host_stop_response_c :: "hbm_host_stop_response codec" where
  "hbm_host_stop_response_c =
     via_c (\<lambda>x. (hsp_hbm_cmd x, hsp_reserved x))
       (\<lambda>(a, b). hbm_host_stop_response.make a b)
       (pair_c (le_c 1) (bytes_c 3))"

interpretation hbm_host_stop_response: layout hbm_host_stop_response_c
  by unfold_locales (auto simp: hbm_host_stop_response_c_def hbm_host_stop_response.make_def intro!: lawful_intros)

record hbm_me_stop_request =
  msq_hbm_cmd :: u8
  msq_reason :: u8
  msq_reserved :: bytes

definition hbm_me_stop_request_c :: "hbm_me_stop_request codec" where
  "hbm_me_stop_request_c =
     via_c (\<lambda>x. (msq_hbm_cmd x, msq_reason x, msq_reserved x))
       (\<lambda>(a, b, c). hbm_me_stop_request.make a b c)
       (pair_c (le_c 1) (pair_c (le_c 1) (bytes_c 2)))"

interpretation hbm_me_stop_request: layout hbm_me_stop_request_c
  by unfold_locales (auto simp: hbm_me_stop_request_c_def hbm_me_stop_request.make_def intro!: lawful_intros)

record hbm_host_enum_request =
  heq_hbm_cmd :: u8
  heq_flags :: u8
  heq_reserved :: bytes

definition hbm_host_enum_request_c :: "hbm_host_enum_request codec" where
  "hbm_host_enum_request_c =
     via_c (\<lambda>x. (heq_hbm_cmd x, heq_flags x, heq_reserved x))
       (\<lambda>(a, b, c). hbm_host_enum_request.make a b c)
       (pair_c (le_c 1) (pair_c (le_c 1) (bytes_c 2)))"

interpretation hbm_host_enum_request: layout hbm_host_enum_request_c
  by unfold_locales (auto simp: hbm_host_enum_request_c_def hbm_host_enum_request.make_def intro!: lawful_intros)

record hbm_host_enum_response =
  hep_hbm_cmd :: u8
  hep_reserved :: bytes
  hep_valid_addresses :: bytes

definition hbm_host_enum_response_c :: "hbm_host_enum_response codec" where
  "hbm_host_enum_response_c =
     via_c (\<lambda>x. (hep_hbm_cmd x, hep_reserved x, hep_valid_addresses x))
       (\<lambda>(a, b, c). hbm_host_enum_response.make a b c)
       (pair_c (le_c 1) (pair_c (bytes_c 3) (bytes_c 32)))"

interpretation hbm_host_enum_response: layout hbm_host_enum_response_c
  by unfold_locales (auto simp: hbm_host_enum_response_c_def hbm_host_enum_response.make_def intro!: lawful_intros)

text \<open>The properties of a client; three bit fields share the byte after \<open>fixed_address\<close>.\<close>

record mei_client_properties =
  pr_protocol_name :: bytes
  pr_protocol_version :: u8
  pr_max_number_of_connections :: u8
  pr_fixed_address :: u8
  pr_single_recv_buf :: "1 word"
  pr_vt_supported :: "1 word"
  pr_reserved :: "6 word"
  pr_max_msg_length :: u32

definition props_flags :: "mei_client_properties \<Rightarrow> u8" where
  "props_flags p = ucast (pr_single_recv_buf p) OR push_bit 1 (ucast (pr_vt_supported p)) OR push_bit 2 (ucast (pr_reserved p))"

definition mei_client_properties_c :: "mei_client_properties codec" where
  "mei_client_properties_c =
     via_c (\<lambda>p. (pr_protocol_name p, pr_protocol_version p, pr_max_number_of_connections p, pr_fixed_address p, props_flags p, pr_max_msg_length p))
       (\<lambda>(n, v, m, a, f, l). mei_client_properties.make n v m a (ucast f) (ucast (drop_bit 1 f)) (ucast (drop_bit 2 f)) l)
       (pair_c (bytes_c 16) (pair_c (le_c 1) (pair_c (le_c 1) (pair_c (le_c 1) (pair_c (le_c 1) (le_c 4))))))"

lemma bit_props_flags:
  "bit (props_flags p) k \<longleftrightarrow>
     (if k = 0 then bit (pr_single_recv_buf p) 0 else if k = 1 then bit (pr_vt_supported p) 0
      else k < 8 \<and> bit (pr_reserved p) (k - 2))"
proof -
  consider "k = 0" | "k = 1" | "2 \<le> k" "k < 8" | "8 \<le> k" by linarith
  then show ?thesis
    unfolding props_flags_def bit_or_iff bit_push_bit_iff bit_ucast_iff by cases (auto simp: no_bit)
qed

lemma props_flags_fields:
  "ucast (props_flags p) = pr_single_recv_buf p" "ucast (drop_bit 1 (props_flags p)) = pr_vt_supported p"
  "ucast (drop_bit 2 (props_flags p)) = pr_reserved p"
  by (rule bit_word_eqI, simp add: bit_ucast_iff bit_drop_bit_eq bit_props_flags)+

lemma props_flags_make:
  "props_flags (mei_client_properties.make n v m a (ucast f) (ucast (drop_bit 1 f)) (ucast (drop_bit 2 f)) l) = f"
proof (rule bit_word_eqI)
  fix k assume "k < LENGTH(8)"
  then have k: "k < 8" by simp
  obtain j where "k = 0 \<or> k = 1 \<or> (k = j + 2 \<and> j < 6)" using k by (cases k; cases "k - 1") auto
  then consider "k = 0" | "k = 1" | "k = j + 2" "j < 6" by blast
  then show "bit (props_flags (mei_client_properties.make n v m a (ucast f) (ucast (drop_bit 1 f)) (ucast (drop_bit 2 f)) l)) k = bit f k"
    by cases (auto simp: bit_props_flags bit_ucast_iff bit_drop_bit_eq mei_client_properties.make_def)
qed

interpretation mei_client_properties: layout mei_client_properties_c
proof unfold_locales
  show "lawful mei_client_properties_c"
    unfolding mei_client_properties_c_def
  proof (intro lawful_intros)
    fix p
    show "(case (pr_protocol_name p, pr_protocol_version p, pr_max_number_of_connections p, pr_fixed_address p, props_flags p, pr_max_msg_length p) of
        (n, v, m, a, f, l) \<Rightarrow> mei_client_properties.make n v m a (ucast f) (ucast (drop_bit 1 f)) (ucast (drop_bit 2 f)) l) = p"
      by (simp add: props_flags_fields [unfolded One_nat_def]) (simp add: mei_client_properties.make_def)
  next
    fix y :: "bytes \<times> u8 \<times> u8 \<times> u8 \<times> u8 \<times> u32"
    obtain n v m a f l where y: "y = (n, v, m, a, f, l)" by (cases y)
    let ?p = "mei_client_properties.make n v m a (ucast f) (ucast (drop_bit 1 f)) (ucast (drop_bit 2 f)) l"
    have "props_flags ?p = f" by (rule props_flags_make)
    moreover have "pr_protocol_name ?p = n" "pr_protocol_version ?p = v" "pr_max_number_of_connections ?p = m"
      "pr_fixed_address ?p = a" "pr_max_msg_length ?p = l" by (simp_all add: mei_client_properties.make_def)
    ultimately show "(\<lambda>p. (pr_protocol_name p, pr_protocol_version p, pr_max_number_of_connections p, pr_fixed_address p, props_flags p, pr_max_msg_length p))
        (case y of (n, v, m, a, f, l) \<Rightarrow> mei_client_properties.make n v m a (ucast f) (ucast (drop_bit 1 f)) (ucast (drop_bit 2 f)) l) = y"
      by (simp add: y)
  qed simp_all
qed

record hbm_props_request =
  pq_hbm_cmd :: u8
  pq_me_addr :: u8
  pq_reserved :: bytes

definition hbm_props_request_c :: "hbm_props_request codec" where
  "hbm_props_request_c =
     via_c (\<lambda>x. (pq_hbm_cmd x, pq_me_addr x, pq_reserved x))
       (\<lambda>(a, b, c). hbm_props_request.make a b c)
       (pair_c (le_c 1) (pair_c (le_c 1) (bytes_c 2)))"

interpretation hbm_props_request: layout hbm_props_request_c
  by unfold_locales (auto simp: hbm_props_request_c_def hbm_props_request.make_def intro!: lawful_intros)

record hbm_props_response =
  pp_hbm_cmd :: u8
  pp_me_addr :: u8
  pp_status :: u8
  pp_reserved :: u8
  pp_properties :: mei_client_properties

definition hbm_props_response_c :: "hbm_props_response codec" where
  "hbm_props_response_c =
     via_c (\<lambda>x. (pp_hbm_cmd x, pp_me_addr x, pp_status x, pp_reserved x, pp_properties x))
       (\<lambda>(a, b, c, d, e). hbm_props_response.make a b c d e)
       (pair_c (le_c 1) (pair_c (le_c 1) (pair_c (le_c 1) (pair_c (le_c 1) mei_client_properties_c))))"

interpretation hbm_props_response: layout hbm_props_response_c
  by unfold_locales (auto simp: hbm_props_response_c_def hbm_props_response.make_def intro!: lawful_intros mei_client_properties.law)

record hbm_add_client_request =
  aq_hbm_cmd :: u8
  aq_me_addr :: u8
  aq_reserved :: bytes
  aq_properties :: mei_client_properties

definition hbm_add_client_request_c :: "hbm_add_client_request codec" where
  "hbm_add_client_request_c =
     via_c (\<lambda>x. (aq_hbm_cmd x, aq_me_addr x, aq_reserved x, aq_properties x))
       (\<lambda>(a, b, c, d). hbm_add_client_request.make a b c d)
       (pair_c (le_c 1) (pair_c (le_c 1) (pair_c (bytes_c 2) mei_client_properties_c)))"

interpretation hbm_add_client_request: layout hbm_add_client_request_c
  by unfold_locales (auto simp: hbm_add_client_request_c_def hbm_add_client_request.make_def intro!: lawful_intros mei_client_properties.law)

record hbm_add_client_response =
  ap_hbm_cmd :: u8
  ap_me_addr :: u8
  ap_status :: u8
  ap_reserved :: u8

definition hbm_add_client_response_c :: "hbm_add_client_response codec" where
  "hbm_add_client_response_c =
     via_c (\<lambda>x. (ap_hbm_cmd x, ap_me_addr x, ap_status x, ap_reserved x))
       (\<lambda>(a, b, c, d). hbm_add_client_response.make a b c d)
       (pair_c (le_c 1) (pair_c (le_c 1) (pair_c (le_c 1) (le_c 1))))"

interpretation hbm_add_client_response: layout hbm_add_client_response_c
  by unfold_locales (auto simp: hbm_add_client_response_c_def hbm_add_client_response.make_def intro!: lawful_intros)

record hbm_power_gate =
  pg_hbm_cmd :: u8
  pg_reserved :: bytes

definition hbm_power_gate_c :: "hbm_power_gate codec" where
  "hbm_power_gate_c =
     via_c (\<lambda>x. (pg_hbm_cmd x, pg_reserved x))
       (\<lambda>(a, b). hbm_power_gate.make a b)
       (pair_c (le_c 1) (bytes_c 3))"

interpretation hbm_power_gate: layout hbm_power_gate_c
  by unfold_locales (auto simp: hbm_power_gate_c_def hbm_power_gate.make_def intro!: lawful_intros)

record hbm_client_connect_request =
  cq_hbm_cmd :: u8
  cq_me_addr :: u8
  cq_host_addr :: u8
  cq_reserved :: u8

definition hbm_client_connect_request_c :: "hbm_client_connect_request codec" where
  "hbm_client_connect_request_c =
     via_c (\<lambda>x. (cq_hbm_cmd x, cq_me_addr x, cq_host_addr x, cq_reserved x))
       (\<lambda>(a, b, c, d). hbm_client_connect_request.make a b c d)
       (pair_c (le_c 1) (pair_c (le_c 1) (pair_c (le_c 1) (le_c 1))))"

interpretation hbm_client_connect_request: layout hbm_client_connect_request_c
  by unfold_locales (auto simp: hbm_client_connect_request_c_def hbm_client_connect_request.make_def intro!: lawful_intros)

record hbm_client_connect_response =
  cp_hbm_cmd :: u8
  cp_me_addr :: u8
  cp_host_addr :: u8
  cp_status :: u8

definition hbm_client_connect_response_c :: "hbm_client_connect_response codec" where
  "hbm_client_connect_response_c =
     via_c (\<lambda>x. (cp_hbm_cmd x, cp_me_addr x, cp_host_addr x, cp_status x))
       (\<lambda>(a, b, c, d). hbm_client_connect_response.make a b c d)
       (pair_c (le_c 1) (pair_c (le_c 1) (pair_c (le_c 1) (le_c 1))))"

interpretation hbm_client_connect_response: layout hbm_client_connect_response_c
  by unfold_locales (auto simp: hbm_client_connect_response_c_def hbm_client_connect_response.make_def intro!: lawful_intros)

record hbm_flow_control =
  fc_hbm_cmd :: u8
  fc_me_addr :: u8
  fc_host_addr :: u8
  fc_reserved :: bytes

definition hbm_flow_control_c :: "hbm_flow_control codec" where
  "hbm_flow_control_c =
     via_c (\<lambda>x. (fc_hbm_cmd x, fc_me_addr x, fc_host_addr x, fc_reserved x))
       (\<lambda>(a, b, c, d). hbm_flow_control.make a b c d)
       (pair_c (le_c 1) (pair_c (le_c 1) (pair_c (le_c 1) (bytes_c 5))))"

interpretation hbm_flow_control: layout hbm_flow_control_c
  by unfold_locales (auto simp: hbm_flow_control_c_def hbm_flow_control.make_def intro!: lawful_intros)

record hbm_notification_request =
  nq_hbm_cmd :: u8
  nq_me_addr :: u8
  nq_host_addr :: u8
  nq_start :: u8

definition hbm_notification_request_c :: "hbm_notification_request codec" where
  "hbm_notification_request_c =
     via_c (\<lambda>x. (nq_hbm_cmd x, nq_me_addr x, nq_host_addr x, nq_start x))
       (\<lambda>(a, b, c, d). hbm_notification_request.make a b c d)
       (pair_c (le_c 1) (pair_c (le_c 1) (pair_c (le_c 1) (le_c 1))))"

interpretation hbm_notification_request: layout hbm_notification_request_c
  by unfold_locales (auto simp: hbm_notification_request_c_def hbm_notification_request.make_def intro!: lawful_intros)

record hbm_notification_response =
  np_hbm_cmd :: u8
  np_me_addr :: u8
  np_host_addr :: u8
  np_status :: u8
  np_start :: u8
  np_reserved :: bytes

definition hbm_notification_response_c :: "hbm_notification_response codec" where
  "hbm_notification_response_c =
     via_c (\<lambda>x. (np_hbm_cmd x, np_me_addr x, np_host_addr x, np_status x, np_start x, np_reserved x))
       (\<lambda>(a, b, c, d, e, f). hbm_notification_response.make a b c d e f)
       (pair_c (le_c 1) (pair_c (le_c 1) (pair_c (le_c 1) (pair_c (le_c 1) (pair_c (le_c 1) (bytes_c 3))))))"

interpretation hbm_notification_response: layout hbm_notification_response_c
  by unfold_locales (auto simp: hbm_notification_response_c_def hbm_notification_response.make_def intro!: lawful_intros)

record hbm_notification =
  nf_hbm_cmd :: u8
  nf_me_addr :: u8
  nf_host_addr :: u8
  nf_reserved :: u8

definition hbm_notification_c :: "hbm_notification codec" where
  "hbm_notification_c =
     via_c (\<lambda>x. (nf_hbm_cmd x, nf_me_addr x, nf_host_addr x, nf_reserved x))
       (\<lambda>(a, b, c, d). hbm_notification.make a b c d)
       (pair_c (le_c 1) (pair_c (le_c 1) (pair_c (le_c 1) (le_c 1))))"

interpretation hbm_notification: layout hbm_notification_c
  by unfold_locales (auto simp: hbm_notification_c_def hbm_notification.make_def intro!: lawful_intros)

record hbm_dma_mem_dscr =
  dm_addr_hi :: u32
  dm_addr_lo :: u32
  dm_size :: u32

definition hbm_dma_mem_dscr_c :: "hbm_dma_mem_dscr codec" where
  "hbm_dma_mem_dscr_c =
     via_c (\<lambda>x. (dm_addr_hi x, dm_addr_lo x, dm_size x))
       (\<lambda>(a, b, c). hbm_dma_mem_dscr.make a b c)
       (pair_c (le_c 4) (pair_c (le_c 4) (le_c 4)))"

interpretation hbm_dma_mem_dscr: layout hbm_dma_mem_dscr_c
  by unfold_locales (auto simp: hbm_dma_mem_dscr_c_def hbm_dma_mem_dscr.make_def intro!: lawful_intros)

record hbm_dma_setup_request =
  dq_hbm_cmd :: u8
  dq_reserved :: bytes
  dq_host :: hbm_dma_mem_dscr
  dq_device :: hbm_dma_mem_dscr
  dq_ctrl :: hbm_dma_mem_dscr

definition hbm_dma_setup_request_c :: "hbm_dma_setup_request codec" where
  "hbm_dma_setup_request_c =
     via_c (\<lambda>x. (dq_hbm_cmd x, dq_reserved x, dq_host x, dq_device x, dq_ctrl x))
       (\<lambda>(a, b, c, d, e). hbm_dma_setup_request.make a b c d e)
       (pair_c (le_c 1) (pair_c (bytes_c 3) (pair_c hbm_dma_mem_dscr_c (pair_c hbm_dma_mem_dscr_c hbm_dma_mem_dscr_c))))"

interpretation hbm_dma_setup_request: layout hbm_dma_setup_request_c
  by unfold_locales (auto simp: hbm_dma_setup_request_c_def hbm_dma_setup_request.make_def intro!: lawful_intros hbm_dma_mem_dscr.law)

record hbm_dma_setup_response =
  dp_hbm_cmd :: u8
  dp_status :: u8
  dp_reserved :: bytes

definition hbm_dma_setup_response_c :: "hbm_dma_setup_response codec" where
  "hbm_dma_setup_response_c =
     via_c (\<lambda>x. (dp_hbm_cmd x, dp_status x, dp_reserved x))
       (\<lambda>(a, b, c). hbm_dma_setup_response.make a b c)
       (pair_c (le_c 1) (pair_c (le_c 1) (bytes_c 2)))"

interpretation hbm_dma_setup_response: layout hbm_dma_setup_response_c
  by unfold_locales (auto simp: hbm_dma_setup_response_c_def hbm_dma_setup_response.make_def intro!: lawful_intros)

record hbm_dma_ring_ctrl =
  rc_hbuf_wr_idx :: u32
  rc_reserved1 :: u32
  rc_hbuf_rd_idx :: u32
  rc_reserved2 :: u32
  rc_dbuf_wr_idx :: u32
  rc_reserved3 :: u32
  rc_dbuf_rd_idx :: u32
  rc_reserved4 :: u32

definition hbm_dma_ring_ctrl_c :: "hbm_dma_ring_ctrl codec" where
  "hbm_dma_ring_ctrl_c =
     via_c (\<lambda>x. (rc_hbuf_wr_idx x, rc_reserved1 x, rc_hbuf_rd_idx x, rc_reserved2 x, rc_dbuf_wr_idx x, rc_reserved3 x, rc_dbuf_rd_idx x, rc_reserved4 x))
       (\<lambda>(a, b, c, d, e, f, g, h). hbm_dma_ring_ctrl.make a b c d e f g h)
       (pair_c (le_c 4) (pair_c (le_c 4) (pair_c (le_c 4) (pair_c (le_c 4) (pair_c (le_c 4) (pair_c (le_c 4) (pair_c (le_c 4) (le_c 4))))))))"

interpretation hbm_dma_ring_ctrl: layout hbm_dma_ring_ctrl_c
  by unfold_locales (auto simp: hbm_dma_ring_ctrl_c_def hbm_dma_ring_ctrl.make_def intro!: lawful_intros)

record hbm_capability_request =
  capq_hbm_cmd :: u8
  capq_requested :: bytes

definition hbm_capability_request_c :: "hbm_capability_request codec" where
  "hbm_capability_request_c =
     via_c (\<lambda>x. (capq_hbm_cmd x, capq_requested x))
       (\<lambda>(a, b). hbm_capability_request.make a b)
       (pair_c (le_c 1) (bytes_c 3))"

interpretation hbm_capability_request: layout hbm_capability_request_c
  by unfold_locales (auto simp: hbm_capability_request_c_def hbm_capability_request.make_def intro!: lawful_intros)

record hbm_capability_response =
  capp_hbm_cmd :: u8
  capp_granted :: bytes

definition hbm_capability_response_c :: "hbm_capability_response codec" where
  "hbm_capability_response_c =
     via_c (\<lambda>x. (capp_hbm_cmd x, capp_granted x))
       (\<lambda>(a, b). hbm_capability_response.make a b)
       (pair_c (le_c 1) (bytes_c 3))"

interpretation hbm_capability_response: layout hbm_capability_response_c
  by unfold_locales (auto simp: hbm_capability_response_c_def hbm_capability_response.make_def intro!: lawful_intros)

record hbm_client_dma_map_request =
  mq_hbm_cmd :: u8
  mq_buffer_id :: u8
  mq_reserved :: bytes
  mq_address_lsb :: u32
  mq_address_msb :: u32
  mq_size :: u32

definition hbm_client_dma_map_request_c :: "hbm_client_dma_map_request codec" where
  "hbm_client_dma_map_request_c =
     via_c (\<lambda>x. (mq_hbm_cmd x, mq_buffer_id x, mq_reserved x, mq_address_lsb x, mq_address_msb x, mq_size x))
       (\<lambda>(a, b, c, d, e, f). hbm_client_dma_map_request.make a b c d e f)
       (pair_c (le_c 1) (pair_c (le_c 1) (pair_c (bytes_c 2) (pair_c (le_c 4) (pair_c (le_c 4) (le_c 4))))))"

interpretation hbm_client_dma_map_request: layout hbm_client_dma_map_request_c
  by unfold_locales (auto simp: hbm_client_dma_map_request_c_def hbm_client_dma_map_request.make_def intro!: lawful_intros)

record hbm_client_dma_unmap_request =
  uq_hbm_cmd :: u8
  uq_status :: u8
  uq_buffer_id :: u8
  uq_reserved :: u8

definition hbm_client_dma_unmap_request_c :: "hbm_client_dma_unmap_request codec" where
  "hbm_client_dma_unmap_request_c =
     via_c (\<lambda>x. (uq_hbm_cmd x, uq_status x, uq_buffer_id x, uq_reserved x))
       (\<lambda>(a, b, c, d). hbm_client_dma_unmap_request.make a b c d)
       (pair_c (le_c 1) (pair_c (le_c 1) (pair_c (le_c 1) (le_c 1))))"

interpretation hbm_client_dma_unmap_request: layout hbm_client_dma_unmap_request_c
  by unfold_locales (auto simp: hbm_client_dma_unmap_request_c_def hbm_client_dma_unmap_request.make_def intro!: lawful_intros)

record hbm_client_dma_response =
  cdp_hbm_cmd :: u8
  cdp_status :: u8

definition hbm_client_dma_response_c :: "hbm_client_dma_response codec" where
  "hbm_client_dma_response_c =
     via_c (\<lambda>x. (cdp_hbm_cmd x, cdp_status x))
       (\<lambda>(a, b). hbm_client_dma_response.make a b)
       (pair_c (le_c 1) (le_c 1))"

interpretation hbm_client_dma_response: layout hbm_client_dma_response_c
  by unfold_locales (auto simp: hbm_client_dma_response_c_def hbm_client_dma_response.make_def intro!: lawful_intros)

text \<open>The sizes, as \<open>sizeof\<close> gives them.\<close>

lemma hbm_sizes:
  "c_size hbm_cl_cmd_c = 4"
  "c_size hbm_version_c = 2"
  "c_size hbm_host_version_request_c = 4"
  "c_size hbm_host_version_response_c = 4"
  "c_size hbm_host_stop_request_c = 4"
  "c_size hbm_host_stop_response_c = 4"
  "c_size hbm_me_stop_request_c = 4"
  "c_size hbm_host_enum_request_c = 4"
  "c_size hbm_host_enum_response_c = 36"
  "c_size mei_client_properties_c = 24"
  "c_size hbm_props_request_c = 4"
  "c_size hbm_props_response_c = 28"
  "c_size hbm_add_client_request_c = 28"
  "c_size hbm_add_client_response_c = 4"
  "c_size hbm_power_gate_c = 4"
  "c_size hbm_client_connect_request_c = 4"
  "c_size hbm_client_connect_response_c = 4"
  "c_size hbm_flow_control_c = 8"
  "c_size hbm_notification_request_c = 4"
  "c_size hbm_notification_response_c = 8"
  "c_size hbm_notification_c = 4"
  "c_size hbm_dma_mem_dscr_c = 12"
  "c_size hbm_dma_setup_request_c = 40"
  "c_size hbm_dma_setup_response_c = 4"
  "c_size hbm_dma_ring_ctrl_c = 32"
  "c_size hbm_capability_request_c = 4"
  "c_size hbm_capability_response_c = 4"
  "c_size hbm_client_dma_map_request_c = 16"
  "c_size hbm_client_dma_unmap_request_c = 4"
  "c_size hbm_client_dma_response_c = 2"
  by (simp_all add: hbm_cl_cmd_c_def hbm_version_c_def hbm_host_version_request_c_def hbm_host_version_response_c_def
    hbm_host_stop_request_c_def hbm_host_stop_response_c_def hbm_me_stop_request_c_def hbm_host_enum_request_c_def
    hbm_host_enum_response_c_def mei_client_properties_c_def hbm_props_request_c_def hbm_props_response_c_def
    hbm_add_client_request_c_def hbm_add_client_response_c_def hbm_power_gate_c_def hbm_client_connect_request_c_def
    hbm_client_connect_response_c_def hbm_flow_control_c_def hbm_notification_request_c_def
    hbm_notification_response_c_def hbm_notification_c_def hbm_dma_mem_dscr_c_def hbm_dma_setup_request_c_def
    hbm_dma_setup_response_c_def hbm_dma_ring_ctrl_c_def hbm_capability_request_c_def hbm_capability_response_c_def
    hbm_client_dma_map_request_c_def hbm_client_dma_unmap_request_c_def hbm_client_dma_response_c_def)

end
