(* ===== verification/Mei_Dev.thy ===== *)
theory Mei_Dev
  imports Mei_Hbm Vsc_Hw_Ops
begin

text \<open>
  \<^verbatim>\<open>backport-include/drivers/misc/mei/mei_dev.h\<close>: the inline functions through which the MEI core reaches the
  hardware, and its arithmetic in slots of 4 bytes.  The wrappers are composed here with the operations of
  \<^theory_text>\<open>Vsc_Hw_Ops\<close> and the messages of \<^theory_text>\<open>Mei_Wire\<close> and \<^theory_text>\<open>Mei_Hbm\<close>: a message the core has room for reaches the
  transport whole, and a message of the firmware is taken apart again as it was put together.
\<close>

section \<open>Slots\<close>

abbreviation MEI_SLOT_SIZE :: u64 where "MEI_SLOT_SIZE \<equiv> 4"
abbreviation MEI_RD_MSG_BUF_SIZE :: nat where "MEI_RD_MSG_BUF_SIZE \<equiv> 512"
abbreviation MEI_FW_STATUS_STR_SZ :: nat where "MEI_FW_STATUS_STR_SZ \<equiv> 54"

text \<open>\<open>size_t\<close> has 64 bits; the results are cut to 32.\<close>

definition DIV_ROUND_UP :: "u64 \<Rightarrow> u64 \<Rightarrow> u64" where
  "DIV_ROUND_UP n d = (n + d - 1) div d"

definition mei_data2slots :: "u64 \<Rightarrow> u32" where
  "mei_data2slots len = ucast (DIV_ROUND_UP len MEI_SLOT_SIZE)"

definition mei_hbm2slots :: "u64 \<Rightarrow> u32" where
  "mei_hbm2slots len = ucast (DIV_ROUND_UP (of_nat (c_size msg_hdr_c) + len) MEI_SLOT_SIZE)"

definition mei_slots2data :: "int \<Rightarrow> u32" where
  "mei_slots2data slots = ucast (word_of_int slots * MEI_SLOT_SIZE)"

definition mei_secs_to_jiffies :: "(u32 \<Rightarrow> u64) \<Rightarrow> u64 \<Rightarrow> u64" where
  "mei_secs_to_jiffies msecs_to_jiffies sec = msecs_to_jiffies (ucast (sec * 1000))"

lemma msg_hdr_size [simp]: "c_size msg_hdr_c = 4"
  by (simp add: msg_hdr_c_def)

text \<open>While nothing wraps, the slots are just enough.\<close>

lemma round_up_4:
  assumes "unat n + 3 < 2 ^ 64"
  shows "unat (DIV_ROUND_UP n MEI_SLOT_SIZE) = (unat n + 3) div 4"
proof -
  have "unat (3 + n) = unat n + 3" using assms by (simp add: unat_word_ariths)
  moreover have "DIV_ROUND_UP n MEI_SLOT_SIZE = (3 + n) div 4" by (simp add: DIV_ROUND_UP_def)
  ultimately show ?thesis by (simp add: unat_div)
qed

lemma unat_slots:
  assumes "unat n \<le> 2 ^ 34 - 4"
  shows "unat (ucast (DIV_ROUND_UP n MEI_SLOT_SIZE) :: u32) = (unat n + 3) div 4"
  using assms round_up_4 [of n] by (simp add: unsigned_ucast_eq unsigned_take_bit_eq take_bit_eq_mod)

lemma data2slots_exact:
  assumes "unat len \<le> 2 ^ 34 - 4"
  shows "unat len \<le> 4 * unat (mei_data2slots len) \<and> 4 * unat (mei_data2slots len) < unat len + 4"
  unfolding mei_data2slots_def unat_slots [OF assms] by presburger

lemma hbm2slots_exact:
  assumes "unat len \<le> 2 ^ 34 - 8"
  shows "unat (mei_hbm2slots len) = (unat len + 7) div 4"
proof -
  have "unat (4 + len) = 4 + unat len" using assms by (simp add: unat_word_ariths)
  then show ?thesis using unat_slots [of "4 + len"] assms by (simp add: mei_hbm2slots_def)
qed

text \<open>At \<open>2 ^ 34\<close> bytes the count has wrapped to nothing.\<close>

lemma data2slots_wraps: "mei_data2slots (2 ^ 34) = 0"
  by code_simp

lemma slots2data_exact: "n < 2 ^ 30 \<Longrightarrow> unat (mei_slots2data (int n)) = 4 * n"
  by (simp add: mei_slots2data_def unsigned_ucast_eq unsigned_take_bit_eq unat_word_ariths unat_of_nat take_bit_eq_mod)

section \<open>The register access functions\<close>

definition mei_hw_config :: "'d mei_hw_ops \<Rightarrow> 'd \<Rightarrow> int" where
  "mei_hw_config ops dev = hw_config ops dev"

text \<open>The function \<open>mei_pg_state\<close>; the enum has the same name.\<close>

definition mei_pg_state_fn :: "'d mei_hw_ops \<Rightarrow> 'd \<Rightarrow> mei_pg_state" where
  "mei_pg_state_fn ops dev = pg_state ops dev"

definition mei_pg_in_transition :: "'d mei_hw_ops \<Rightarrow> 'd \<Rightarrow> bool" where
  "mei_pg_in_transition ops dev = pg_in_transition ops dev"

definition mei_pg_is_enabled :: "'d mei_hw_ops \<Rightarrow> 'd \<Rightarrow> bool" where
  "mei_pg_is_enabled ops dev = pg_is_enabled ops dev"

definition mei_hw_reset :: "'d mei_hw_ops \<Rightarrow> 'd \<Rightarrow> bool \<Rightarrow> (int \<times> 'd) result" where
  "mei_hw_reset ops dev enable = hw_reset ops dev enable"

definition mei_hw_start :: "'d mei_hw_ops \<Rightarrow> 'd \<Rightarrow> (int \<times> 'd) result" where
  "mei_hw_start ops dev = hw_start ops dev"

definition mei_clear_interrupts :: "'d mei_hw_ops \<Rightarrow> 'd \<Rightarrow> 'd" where
  "mei_clear_interrupts ops dev = intr_clear ops dev"

definition mei_enable_interrupts :: "'d mei_hw_ops \<Rightarrow> 'd \<Rightarrow> 'd" where
  "mei_enable_interrupts ops dev = intr_enable ops dev"

definition mei_synchronize_irq :: "'d mei_hw_ops \<Rightarrow> 'd \<Rightarrow> 'd" where
  "mei_synchronize_irq ops dev = synchronize_irq ops dev"

definition mei_host_is_ready :: "'d mei_hw_ops \<Rightarrow> 'd \<Rightarrow> bool" where
  "mei_host_is_ready ops dev = host_is_ready ops dev"

definition mei_hw_is_ready :: "'d mei_hw_ops \<Rightarrow> 'd \<Rightarrow> bool" where
  "mei_hw_is_ready ops dev = hw_is_ready ops dev"

definition mei_hbuf_empty_slots :: "'d mei_hw_ops \<Rightarrow> 'd \<Rightarrow> nat" where
  "mei_hbuf_empty_slots ops dev = hbuf_free_slots ops dev"

definition mei_hbuf_depth :: "'d mei_hw_ops \<Rightarrow> 'd \<Rightarrow> nat" where
  "mei_hbuf_depth ops dev = hbuf_depth ops dev"

definition mei_write_message ::
  "'d mei_hw_ops \<Rightarrow> 'd \<Rightarrow> bytes option \<Rightarrow> nat \<Rightarrow> bytes option \<Rightarrow> nat \<Rightarrow> (int \<times> 'd) result" where
  "mei_write_message ops dev hdr hdr_len data data_len = write_op ops dev hdr hdr_len data data_len"

definition mei_read_hdr :: "'d mei_hw_ops \<Rightarrow> 'd \<Rightarrow> (u32 \<times> 'd) result" where
  "mei_read_hdr ops dev = read_hdr ops dev"

text \<open>The result of the operation is dropped.\<close>

definition mei_read_slots :: "'d mei_hw_ops \<Rightarrow> 'd \<Rightarrow> bytes \<Rightarrow> nat \<Rightarrow> bytes result" where
  "mei_read_slots ops dev buf len = bindF (read_op ops dev buf len) (\<lambda>(_, buf). Inr buf)"

definition mei_trc_status :: "'d mei_hw_ops \<Rightarrow> 'd \<Rightarrow> u32 \<Rightarrow> int \<times> u32" where
  "mei_trc_status ops dev trc = (case trc_status ops of Some f \<Rightarrow> f dev | None \<Rightarrow> (- EOPNOTSUPP, trc))"

definition mei_fw_status :: "'d mei_hw_ops \<Rightarrow> 'd \<Rightarrow> u32 option \<Rightarrow> int \<times> u32 option" where
  "mei_fw_status ops dev st = fw_status ops dev st"

text \<open>
  \<open>mei_fw_status2str\<close> belongs to the core; it gets the count of registers, the caller's buffer and a
  size, which is the constant and not the caller's length.  \<open>junk\<close> is the uninitialised local count.
\<close>

definition mei_fw_status_str ::
  "(u32 \<Rightarrow> bytes \<Rightarrow> nat \<Rightarrow> (int \<times> bytes) result) \<Rightarrow> u32 \<Rightarrow> 'd mei_hw_ops \<Rightarrow> 'd \<Rightarrow> bytes \<Rightarrow> nat \<Rightarrow> (int \<times> bytes) result" where
  "mei_fw_status_str mei_fw_status2str junk ops dev buf len =
     bindF (store 0 [0] buf) (\<lambda>buf.
     case mei_fw_status ops dev (Some junk) of
       (ret, st) \<Rightarrow>
         if ret \<noteq> 0 then Inr (ret, buf)
         else bindF (deref st) (\<lambda>count. mei_fw_status2str count buf MEI_FW_STATUS_STR_SZ))"

section \<open>Messages to the firmware\<close>

lemma write_transported:
  assumes "vsc_wf (m_hw dev)" and "length h = hdr_len" and "hdr_len mod 4 = 0" and "n \<le> length d" and "hdr_len + n \<le> MAX_SPI_MSG_SIZE"
  shows "mei_vsc_write E dev (Some h) hdr_len (Some d) n =
    (let buf = h @ take n d @ drop (hdr_len + n) (v_tx_buf (m_hw dev)) in
     bindF (mei_vsc_write_raw (e_spi E) buf (hdr_len + n)
       ((m_hw dev)\<lparr>v_write_lock_cnt := v_write_lock_cnt (m_hw dev) + 1, v_tx_buf := buf\<rparr>))
     (\<lambda>(ret, hw). Inr (ret, dev\<lparr>m_hw := hw\<lparr>v_write_lock_cnt := v_write_lock_cnt hw - 1\<rparr>\<rparr>)))"
proof -
  have l: "length (v_tx_buf (m_hw dev)) = MAX_SPI_MSG_SIZE" using assms(1) by (simp add: vsc_wf_def)
  have "store 0 h (v_tx_buf (m_hw dev)) = Inr (h @ drop hdr_len (v_tx_buf (m_hw dev)))"
    "store hdr_len (take n d) (h @ drop hdr_len (v_tx_buf (m_hw dev))) = Inr (h @ take n d @ drop (hdr_len + n) (v_tx_buf (m_hw dev)))"
    using assms(2,4,5) l by (simp_all add: store_def add.commute)
  moreover have "load 0 hdr_len h = Inr h" "load 0 n d = Inr (take n d)" using assms(2,4) by (auto simp: load_def)
  ultimately show ?thesis using assms(3,5) by (simp add: mei_vsc_write_def Let_def)
qed


section \<open>Messages from the firmware\<close>

lemma read_slots_eq:
  assumes "4 + n \<le> length (v_rx_buf (m_hw dev))" and "n \<le> length buf"
  shows "mei_read_slots (mei_vsc_hw_ops E) dev buf n = Inr (take n (drop 4 (v_rx_buf (m_hw dev))) @ drop n buf)"
  using assms by (simp add: mei_read_slots_def mei_vsc_hw_ops_def mei_vsc_read_slots_def load_def store_def)

lemma good_ack_length:
  assumes "good_ack E s p x"
  shows "unat (x_len x) \<le> length (drop SPI_HDR_SIZE p)"
proof -
  have "12 + unat (x_len x) < length p" using assms by (simp add: good_ack_def)
  then show ?thesis unfolding length_drop by linarith
qed

lemma msg_len_bound: "unat (msg_len h) \<le> 511"
proof -
  have "unat (msg_len h) < 2 ^ LENGTH(9)" by (rule unsigned_less)
  then show ?thesis by simp
qed

lemma xfer_fails_rx:
  assumes "mei_vsc_xfer E cmd (Some tx) tlen (Some rx) m hw = Inr ((r, rx', l), hw')" and "vsc_wf hw" and "r \<noteq> 0"
  shows "rx' = Some rx"
  using assms(1)
proof (cases rule: xfer_refused)
  case (sent pkt w)
  have "vsc_wf (hw\<lparr>v_env := w, v_seq := v_seq hw + 1\<rparr>)" using assms(2) by simp
  from sent this show ?thesis by (cases rule: xfer_locked_cases) (use assms(3) in auto)
qed

text \<open>What a read of the header that finds a message leaves in the receive buffer.\<close>

lemma read_hdr_cases:
  assumes "mei_vsc_read E dev = Inr (w, dev')" and "vsc_wf (m_hw dev)"
  shows "vsc_wf (m_hw dev') \<and> (w \<noteq> 0 \<longrightarrow>
    (\<exists>n p x k. received (e_spi E) n p \<and> good_ack (e_spi E) (v_seq (m_hw dev) + 1) p x \<and> k = min (unat (x_len x)) MAX_SPI_MSG_SIZE \<and> 4 \<le> k \<and>
       v_rx_buf (m_hw dev') = take k (drop SPI_HDR_SIZE p) @ drop k (v_rx_buf (m_hw dev)) \<and>
       w = word_of_le (take 4 (drop SPI_HDR_SIZE p))))"
proof -
  let ?hw = "m_hw dev" let ?rx = "v_rx_buf ?hw"
  obtain rt bt w0 where kt: "ktime (e_spi E) (v_env ?hw) = ((rt, bt), w0)" by (metis prod.collapse)
  let ?tx = "le_bytes 8 rt @ le_bytes 8 bt"
  obtain ret rx' l hw1 where x: "mei_vsc_xfer (e_spi E) CMD_SPI_READ (Some ?tx) 16 (Some ?rx) (int MAX_SPI_MSG_SIZE) (?hw\<lparr>v_env := w0\<rparr>) = Inr ((ret, Some rx', l), hw1)"
    and fin: "(let hw = hw1\<lparr>v_rx_buf := rx', v_rx_len := (case l of None \<Rightarrow> v_rx_len hw1 | Some l \<Rightarrow> l)\<rparr>; dev = dev\<lparr>m_hw := hw\<rparr> in
      if ret \<noteq> 0 \<or> v_rx_len hw < 4 then Inr (0, dev) else bindF (get_le 0 4 rx') (\<lambda>w. Inr (w, dev))) = (Inr (w, dev') :: (u32 \<times> 'a mei_device) result)"
    using assms(1) kt by (auto simp: mei_vsc_read_def mei_vsc_read_raw_def bindF_eq_Inr)
  have wf0: "vsc_wf (?hw\<lparr>v_env := w0\<rparr>)" using assms(2) by simp
  have wf1: "vsc_wf hw1" using xfer_keeps [OF x wf0] by blast
  have lr: "length ?rx = MAX_SPI_MSG_SIZE" using assms(2) by (simp add: vsc_wf_def)
  show ?thesis
  proof (cases "ret = 0")
    case False
    then have "rx' = ?rx" using xfer_fails_rx [OF x wf0] by simp
    then show ?thesis using fin False wf1 lr by (auto simp: Let_def vsc_wf_def)
  next
    case True
    then have "mei_vsc_xfer (e_spi E) CMD_SPI_READ (Some ?tx) 16 (Some ?rx) (int MAX_SPI_MSG_SIZE) (?hw\<lparr>v_env := w0\<rparr>) = Inr ((0, Some rx', l), hw1)"
      using x by simp
    from xfer_integrity [OF this wf0] obtain n p h where g: "received (e_spi E) n p" "good_ack (e_spi E) (v_seq ?hw + 1) p h"
      and d: "l = Some (of_nat (nat (min (uint (x_len h)) (int MAX_SPI_MSG_SIZE))))"
        "rx' = take (nat (min (uint (x_len h)) (int MAX_SPI_MSG_SIZE))) (drop SPI_HDR_SIZE p) @ drop (nat (min (uint (x_len h)) (int MAX_SPI_MSG_SIZE))) ?rx"
      by (auto simp: Let_def)
    define k where "k = min (unat (x_len h)) MAX_SPI_MSG_SIZE"
    have nk: "nat (min (uint (x_len h)) (int MAX_SPI_MSG_SIZE)) = k"
    proof -
      have "min (uint (x_len h)) (int MAX_SPI_MSG_SIZE) = int k" by (simp add: k_def of_nat_min)
      then show ?thesis by simp
    qed
    have lp: "k \<le> length (drop SPI_HDR_SIZE p)" using good_ack_length [OF g(2)] by (simp add: k_def)
    have kb: "k \<le> MAX_SPI_MSG_SIZE" by (simp add: k_def)
    then have l: "unat (of_nat k :: u32) = k" by (simp add: unat_of_nat take_bit_eq_mod)
    have rl: "length rx' = MAX_SPI_MSG_SIZE" using d(2) lp kb lr unfolding nk by simp
    then have wf': "vsc_wf (m_hw dev')" using fin wf1 by (auto simp: Let_def vsc_wf_def bindF_eq_Inr split: if_splits)
    have rb: "v_rx_buf (m_hw dev') = rx'" using fin by (auto simp: Let_def bindF_eq_Inr split: if_splits)
    have "4 \<le> k \<and> w = word_of_le (take 4 (drop SPI_HDR_SIZE p))" if "w \<noteq> 0"
    proof -
      have "\<not> (of_nat k :: u32) < 4" and w: "get_le 0 4 rx' = Inr w"
        using fin that True d(1) unfolding nk by (auto simp: Let_def bindF_eq_Inr split: if_splits)
      then have "4 \<le> k" using l by (simp add: word_less_nat_alt)
      moreover have "take 4 rx' = take 4 (drop SPI_HDR_SIZE p)" using calculation lp d(2) unfolding nk by (simp add: min_def)
      ultimately show ?thesis using w by (auto simp: get_le_def bindF_eq_Inr load_eq_Inr)
    qed
    then show ?thesis using wf' g rb d(2) unfolding nk k_def by blast
  qed
qed

text \<open>
  C28: Reading a message.  Whatever word the firmware's header is, copying the length it announces stays
  inside the receive buffer and inside the core's message buffer of 512 bytes.  When there is a message, the
  header is that of a packet with matching checksum and sequence number, and the core gets the bytes that
  follow it in the packet; what the packet is too short for comes from the receive buffer as the previous
  message left it.
\<close>
theorem message_read_safe:
  assumes "vsc_wf (m_hw dev)" and "mei_read_hdr (mei_vsc_hw_ops E) dev = Inr (w, dev')" and "length buf = MEI_RD_MSG_BUF_SIZE"
    and "n = unat (msg_len (msg_hdr_of w))"
  shows "\<exists>buf'. mei_read_slots (mei_vsc_hw_ops E) dev' buf n = Inr buf' \<and> length buf' = MEI_RD_MSG_BUF_SIZE \<and> drop n buf' = drop n buf \<and>
    (w \<noteq> 0 \<longrightarrow> (\<exists>m p x msg. received (e_spi E) m p \<and> good_ack (e_spi E) (v_seq (m_hw dev) + 1) p x \<and>
       msg = take (min (unat (x_len x)) MAX_SPI_MSG_SIZE) (drop SPI_HDR_SIZE p) \<and> 4 \<le> length msg \<and>
       c_dec msg_hdr_c (take 4 msg) = msg_hdr_of w \<and>
       take n buf' = take n (drop 4 msg @ drop (length msg) (v_rx_buf (m_hw dev)))))"
proof -
  have r: "mei_vsc_read E dev = Inr (w, dev')" using assms(2) by (simp add: mei_read_hdr_def mei_vsc_hw_ops_def)
  note c = read_hdr_cases [OF r assms(1)]
  have n: "n \<le> 511" using msg_len_bound assms(4) by simp
  have l: "length (v_rx_buf (m_hw dev')) = MAX_SPI_MSG_SIZE" using c by (simp add: vsc_wf_def)
  let ?buf = "take n (drop 4 (v_rx_buf (m_hw dev'))) @ drop n buf"
  have s: "mei_read_slots (mei_vsc_hw_ops E) dev' buf n = Inr ?buf" using n l assms(3) by (simp add: read_slots_eq)
  have t: "take n ?buf = take n (drop 4 (v_rx_buf (m_hw dev')))" using n l by simp
  have "\<exists>m p x msg. received (e_spi E) m p \<and> good_ack (e_spi E) (v_seq (m_hw dev) + 1) p x \<and>
       msg = take (min (unat (x_len x)) MAX_SPI_MSG_SIZE) (drop SPI_HDR_SIZE p) \<and> 4 \<le> length msg \<and>
       c_dec msg_hdr_c (take 4 msg) = msg_hdr_of w \<and>
       take n ?buf = take n (drop 4 msg @ drop (length msg) (v_rx_buf (m_hw dev)))" if "w \<noteq> 0"
  proof -
    obtain m p x k where g: "received (e_spi E) m p" "good_ack (e_spi E) (v_seq (m_hw dev) + 1) p x"
      and k: "k = min (unat (x_len x)) MAX_SPI_MSG_SIZE" "4 \<le> k"
      and d: "v_rx_buf (m_hw dev') = take k (drop SPI_HDR_SIZE p) @ drop k (v_rx_buf (m_hw dev))" "w = word_of_le (take 4 (drop SPI_HDR_SIZE p))"
      using c \<open>w \<noteq> 0\<close> by blast
    let ?msg = "take k (drop SPI_HDR_SIZE p)"
    have lm: "length ?msg = k" using good_ack_length [OF g(2)] k(1) by (simp add: min_def)
    have "take 4 ?msg = take 4 (drop SPI_HDR_SIZE p)" using k(2) by (simp add: min_def)
    then have "c_dec msg_hdr_c (take 4 ?msg) = msg_hdr_of w" by (simp add: msg_hdr_c_def via_c_def le_c_def d(2))
    moreover have "drop 4 (v_rx_buf (m_hw dev')) = drop 4 ?msg @ drop k (v_rx_buf (m_hw dev))" using lm k(2) by (simp add: d(1))
    then have "take n ?buf = take n (drop 4 ?msg @ drop (length ?msg) (v_rx_buf (m_hw dev)))" unfolding t lm by simp
    ultimately show ?thesis using g lm k by (intro exI [of _ m] exI [of _ p] exI [of _ x] exI [of _ ?msg]) simp
  qed
  then show ?thesis using s n l assms(3) by (intro exI [of _ ?buf]) simp
qed

lemma message_arrives:
  assumes "vsc_wf (m_hw dev)" and "ktime (e_spi E) (v_env (m_hw dev)) = ((rt, bt), w)" and "kzalloc_ok (e_spi E) w = (True, w0)"
    and "spi_wakeup_request (e_spi E) ((m_hw dev)\<lparr>v_env := w0, v_seq := v_seq (m_hw dev) + 1, v_mutex := True\<rparr>) = (0, hw1)"
    and "\<forall>t. fst (spi_sync (e_spi E) t (v_env hw1)) = (0, r)" and "find_sync_byte (clocked 728 r) = Some i"
    and "p = drop i (clocked 728 r)" and "good_ack (e_spi E) (v_seq (m_hw dev) + 1) p x"
    and "take (unat (x_len x)) (drop SPI_HDR_SIZE p) = c_enc msg_hdr_c h @ data" and "length data = unat (msg_len h)"
    and "length buf = MEI_RD_MSG_BUF_SIZE"
  shows "\<exists>word dev'. mei_read_hdr (mei_vsc_hw_ops E) dev = Inr (word, dev') \<and> msg_hdr_of word = h \<and>
    mei_read_slots (mei_vsc_hw_ops E) dev' buf (unat (msg_len (msg_hdr_of word))) = Inr (data @ drop (length data) buf)"
proof -
  let ?hw = "m_hw dev" let ?rx = "v_rx_buf ?hw" let ?tx = "le_bytes 8 rt @ le_bytes 8 bt"
  have lh: "length (c_enc msg_hdr_c h) = 4" using msg_hdr.size_enc [of h] by (simp add: msg_hdr_c_def)
  have ga: "unat (x_len x) \<le> length (drop SPI_HDR_SIZE p)" using good_ack_length [OF assms(8)] .
  then have xl: "unat (x_len x) = 4 + length data" using assms(9) lh by (metis length_append length_take min.absorb2)
  have xb: "unat (x_len x) \<le> 515" using xl assms(10) msg_len_bound [of h] by simp
  have lr: "length ?rx = MAX_SPI_MSG_SIZE" using assms(1) by (simp add: vsc_wf_def)
  have k: "nat (min (uint (x_len x)) (int MAX_SPI_MSG_SIZE)) = unat (x_len x)"
  proof -
    have "nat (min (int a) (int MAX_SPI_MSG_SIZE)) = a" if "a \<le> MAX_SPI_MSG_SIZE" for a using that by simp
    from this [of "unat (x_len x)"] show ?thesis using xb by simp
  qed
  have z: "0 < x_len x" using xl by (simp add: word_gt_0 unat_eq_0 [symmetric])
  have "\<exists>hw'. mei_vsc_xfer (e_spi E) CMD_SPI_READ (Some ?tx) (length ?tx) (Some ?rx) (int MAX_SPI_MSG_SIZE) (?hw\<lparr>v_env := w\<rparr>) =
      Inr ((0, Some (take (unat (x_len x)) (drop SPI_HDR_SIZE p) @ drop (unat (x_len x)) ?rx), Some (of_nat (unat (x_len x)))), hw')"
    by (rule xfer_delivers [where n = 728 and h = x and p = p and hw = "?hw\<lparr>v_env := w\<rparr>"]) (use assms(1-8) z k xb lr in simp_all)
  then obtain hw' where run: "mei_vsc_xfer (e_spi E) CMD_SPI_READ (Some ?tx) 16 (Some ?rx) (int MAX_SPI_MSG_SIZE) (?hw\<lparr>v_env := w\<rparr>) =
      Inr ((0, Some (c_enc msg_hdr_c h @ data @ drop (unat (x_len x)) ?rx), Some (of_nat (unat (x_len x)))), hw')"
    unfolding assms(9) by auto
  let ?rb = "c_enc msg_hdr_c h @ data @ drop (unat (x_len x)) ?rx"
  let ?dev = "dev\<lparr>m_hw := hw'\<lparr>v_rx_buf := ?rb, v_rx_len := of_nat (unat (x_len x))\<rparr>\<rparr>"
  have "\<not> (of_nat a :: u32) < 4" if "4 \<le> a" "a \<le> 515" for a using that by (simp add: word_less_nat_alt unat_of_nat take_bit_eq_mod)
  then have "\<not> (of_nat (unat (x_len x)) :: u32) < 4" using xl xb by (metis le_add1)
  moreover have "get_le 0 4 ?rb = Inr (msg_hdr_word h)" using lh by (simp add: get_le_def load_def msg_hdr_c_def via_c_def le_c_def word_of_le_le_bytes)
  ultimately have "mei_vsc_read E dev = Inr (msg_hdr_word h, ?dev)"
    using assms(2) run by (simp add: mei_vsc_read_def mei_vsc_read_raw_def Let_def)
  then have "mei_read_hdr (mei_vsc_hw_ops E) dev = Inr (msg_hdr_word h, ?dev)" by (simp add: mei_read_hdr_def mei_vsc_hw_ops_def)
  moreover have "mei_read_slots (mei_vsc_hw_ops E) ?dev buf (length data) = Inr (take (length data) (drop 4 ?rb) @ drop (length data) buf)"
    by (rule trans [OF read_slots_eq]) (use lh lr xl xb assms(10,11) in simp_all)
  ultimately show ?thesis using lh assms(10) by (intro exI [of _ "msg_hdr_word h"] exI [of _ ?dev]) simp
qed

text \<open>
  C27: A message of the firmware is read back.  If the firmware wakes up and answers the read with a correct
  packet whose payload is a header and as many bytes as the header announces, then reading the header gives
  a word that decodes to it, field by field, and reading the slots gives exactly these bytes.
\<close>
theorem message_received:
  assumes "vsc_wf (m_hw dev)" and "ktime (e_spi E) (v_env (m_hw dev)) = ((rt, bt), w)" and "kzalloc_ok (e_spi E) w = (True, w0)"
    and "spi_wakeup_request (e_spi E) ((m_hw dev)\<lparr>v_env := w0, v_seq := v_seq (m_hw dev) + 1, v_mutex := True\<rparr>) = (0, hw1)"
    and "\<forall>t. fst (spi_sync (e_spi E) t (v_env hw1)) = (0, r)" and "find_sync_byte (clocked 728 r) = Some i"
    and "p = drop i (clocked 728 r)" and "good_ack (e_spi E) (v_seq (m_hw dev) + 1) p x"
    and "take (unat (x_len x)) (drop SPI_HDR_SIZE p) = c_enc msg_hdr_c h @ data" and "length data = unat (msg_len h)"
    and "length buf = MEI_RD_MSG_BUF_SIZE"
  shows "\<exists>word dev'. mei_read_hdr (mei_vsc_hw_ops E) dev = Inr (word, dev') \<and> msg_hdr_of word = h \<and>
    mei_read_slots (mei_vsc_hw_ops E) dev' buf (unat (msg_len (msg_hdr_of word))) = Inr (data @ drop (length data) buf)"
  by (rule message_arrives [OF assms])

text \<open>A firmware that sends one message of two bytes, after two idle bytes.\<close>

definition demo_hdr :: mei_msg_hdr where
  "demo_hdr = \<lparr>me_addr = 1, host_addr = 2, msg_len = 2, reserved = 0, extended = 0, dma_ring = 0, internal = 0, msg_complete = 1\<rparr>"

definition demo_msg :: bytes where
  "demo_msg = spi_hdr_bytes \<lparr>x_sync = PACKET_SYNC, x_cmd = 0x10, x_len = 6, x_seq = 1\<rparr> @ c_enc msg_hdr_c demo_hdr @ [7, 9]"

definition demo_wire :: bytes where
  "demo_wire = [0, 0] @ demo_msg @ le_bytes 4 (NOT (sum_crc demo_msg))"

lemma length_msg_hdr [simp]: "length (c_enc msg_hdr_c h) = 4"
  using msg_hdr.size_enc [of h] by (simp add: msg_hdr_c_def)

lemma demo_msg_length [simp]: "length demo_msg = 14"
  by (simp add: demo_msg_def)

lemma demo_wire_clocked:
  "clocked 728 demo_wire = demo_wire @ replicate 708 0" "find_sync_byte (clocked 728 demo_wire) = Some 2"
  "drop 2 (clocked 728 demo_wire) = demo_msg @ le_bytes 4 (NOT (sum_crc demo_msg)) @ replicate 708 0"
proof -
  show c: "clocked 728 demo_wire = demo_wire @ replicate 708 0" by (simp add: clocked_short demo_wire_def)
  show "find_sync_byte (clocked 728 demo_wire) = Some 2"
    unfolding c by (simp add: demo_wire_def demo_msg_def find_sync_byte_def spi_hdr_bytes_def)
  show "drop 2 (clocked 728 demo_wire) = demo_msg @ le_bytes 4 (NOT (sum_crc demo_msg)) @ replicate 708 0"
    unfolding c by (simp add: demo_wire_def)
qed

lemma start_core_spi [simp]: "e_spi start_core = scripted_spi"
  by (simp add: start_core_def spi_env.extend_def spi_env.truncate_def scripted_spi_def)

lemma demo_msg_good:
  "good_ack scripted_spi 1 (drop 2 (clocked 728 demo_wire)) \<lparr>x_sync = PACKET_SYNC, x_cmd = 0x10, x_len = 6, x_seq = 1\<rparr>"
proof -
  have "spi_hdr_of (drop 2 (clocked 728 demo_wire)) = Inr \<lparr>x_sync = PACKET_SYNC, x_cmd = 0x10, x_len = 6, x_seq = 1\<rparr>"
    unfolding demo_wire_clocked(3) by (simp add: demo_msg_def spi_hdr_of_bytes)
  moreover have "get_le 14 4 (drop 2 (clocked 728 demo_wire)) = Inr (spi_crc scripted_spi (take 14 (drop 2 (clocked 728 demo_wire))))"
    unfolding demo_wire_clocked(3) by (simp add: get_le_def load_def word_of_le_le_bytes spi_crc_def scripted_spi_def)
  moreover have "length (drop 2 (clocked 728 demo_wire)) = 726" unfolding demo_wire_clocked(3) by simp
  ultimately show ?thesis unfolding good_ack_def by simp
qed

lemma demo_device_wakes:
  "spi_wakeup_request scripted_spi ((m_hw (zero_device w))\<lparr>v_env := w, v_seq := 1, v_mutex := True\<rparr>) =
     (0, (m_hw (zero_device w))\<lparr>v_env := w, v_seq := 1, v_mutex := True, v_wakeupfw := False, v_lock_cnt := 1\<rparr>)"
  by (simp add: spi_wakeup_request_def spi_xfer_wait_asserted_def spi_xfer_lock_def spi_xfer_asserted_def
      spi_rom_xfer_asserted_def scripted_spi_def zero_device_def new_vsc_hw_def)

lemma zero_device_fields [simp]: "vsc_wf (m_hw (zero_device w))" "v_seq (m_hw (zero_device w)) = 0" "v_env (m_hw (zero_device w)) = w"
  by (simp_all add: zero_device_def new_vsc_hw_def vsc_wf_def)

lemma demo_payload_read:
  "take (unat (x_len \<lparr>x_sync = PACKET_SYNC, x_cmd = 0x10, x_len = 6, x_seq = 1\<rparr>)) (drop SPI_HDR_SIZE (drop 2 (clocked 728 demo_wire))) =
     c_enc msg_hdr_c demo_hdr @ [7, 9]"
  unfolding demo_wire_clocked(3) by (simp add: demo_msg_def)

abbreviation demo_awake :: "bytes list mei_vsc_hw" where
  "demo_awake \<equiv> (m_hw (zero_device [demo_wire]))\<lparr>v_env := [demo_wire], v_seq := 1, v_mutex := True, v_wakeupfw := False, v_lock_cnt := 1\<rparr>"

theorem message_received_witness:
  "\<exists>word dev'. mei_read_hdr (mei_vsc_hw_ops start_core) (zero_device [demo_wire]) = Inr (word, dev') \<and> msg_hdr_of word = demo_hdr \<and>
    mei_read_slots (mei_vsc_hw_ops start_core) dev' (replicate 512 0) (unat (msg_len (msg_hdr_of word))) = Inr ([7, 9] @ drop 2 (replicate 512 0))"
  using message_received [OF _ _ _ _ _ demo_wire_clocked(2) refl _ demo_payload_read, of "zero_device [demo_wire]" start_core 0 0
      "[demo_wire]" "[demo_wire]" demo_awake "replicate 512 0"] demo_device_wakes [of "[demo_wire]"] demo_msg_good
  by (simp add: demo_hdr_def) (simp add: scripted_spi_def)

theorem message_read_safe_witness:
  "\<exists>w dev' buf'. mei_read_hdr (mei_vsc_hw_ops start_core) (zero_device [demo_wire]) = Inr (w, dev') \<and> msg_hdr_of w = demo_hdr \<and>
    mei_read_slots (mei_vsc_hw_ops start_core) dev' (replicate 512 0) (unat (msg_len (msg_hdr_of w))) = Inr buf' \<and>
    drop 2 buf' = drop 2 (replicate 512 0)"
proof -
  obtain w dev' where w: "mei_read_hdr (mei_vsc_hw_ops start_core) (zero_device [demo_wire]) = Inr (w, dev')" "msg_hdr_of w = demo_hdr"
    using message_arrives [OF _ _ _ _ _ demo_wire_clocked(2) refl _ demo_payload_read, of "zero_device [demo_wire]" start_core 0 0
        "[demo_wire]" "[demo_wire]" demo_awake "replicate 512 0"] demo_device_wakes [of "[demo_wire]"] demo_msg_good
    by (auto simp: demo_hdr_def) (auto simp: scripted_spi_def)
  have "unat (msg_len (msg_hdr_of w)) = 2" by (simp add: w(2) demo_hdr_def)
  then show ?thesis
    using message_read_safe [OF _ w(1) _ refl, of "replicate 512 0"] w by auto
qed


end
